(* ===== verification/Etcd_Prelude.thy ===== *)
theory Etcd_Prelude
  imports Main "HOL-Library.Word" "HOL-Library.AList" "HOL-Library.Monad_Syntax"
begin

text \<open>
  The vocabulary every component of the development shares.

  \<^item> Machine integers. Go's \<open>uint64\<close>, \<open>int32\<close> and \<open>byte\<close> are words of their width, so
    every \<open>+\<close>, \<open>-\<close> and shift of the code wraps where the code wraps. Lengths and slice
    positions, which Go keeps in an \<open>int\<close>, are naturals; where a sum of two \<open>int\<close>s can
    leave the 64-bit range the wrap-around is written out with \<open>wrap_int\<close>.
  \<^item> Panics. A Go function that may panic has the result type \<open>'a option\<close>, and \<open>None\<close> is
    the panic; panics propagate through the option monad. A returned Go \<open>error\<close> is an
    ordinary value of a sum type, \<open>Inl\<close> being the error, as in the code.
  \<^item> Slices. Indexing, storing and slicing check their bounds and panic outside them.
  \<^item> Maps. A Go map is an association list with distinct keys, its order being the order a
    \<open>range\<close> loop happens to visit it in: a theorem about every such list is a theorem about
    every iteration order. A map used as a set is the list of its keys; \<open>None\<close> is the nil map.
\<close>

type_synonym u64 = "64 word"
type_synonym int32 = "32 word"
type_synonym byte = "8 word"
type_synonym bytes = "byte list"
type_synonym ('k, 'v) gomap = "('k \<times> 'v) list"
type_synonym id_set = "u64 list option"

named_theorems go_simps \<open>evaluation of slices, stores and panics\<close>
named_theorems u64_simps \<open>reading 64-bit sums and differences as naturals\<close>

section \<open>Slices and panics\<close>

definition go_index :: "'a list \<Rightarrow> nat \<Rightarrow> 'a option" where
  "go_index xs i = (if i < length xs then Some (xs ! i) else None)"

definition go_store :: "'a list \<Rightarrow> nat \<Rightarrow> 'a \<Rightarrow> 'a list option" where
  "go_store xs i x = (if i < length xs then Some (xs[i := x]) else None)"

definition go_slice :: "'a list \<Rightarrow> nat \<Rightarrow> nat \<Rightarrow> 'a list option" where
  "go_slice xs lo hi =
     (if lo \<le> hi \<and> hi \<le> length xs then Some (take (hi - lo) (drop lo xs)) else None)"

text \<open>The value of an \<open>int\<close> expression after 64-bit wrap-around.\<close>

definition wrap_int :: "int \<Rightarrow> int" where
  "wrap_int i = signed_take_bit 63 i"

lemma go_index_Some [go_simps]: "i < length xs \<Longrightarrow> go_index xs i = Some (xs ! i)"
  by (simp add: go_index_def)

lemma go_index_None [go_simps]: "\<not> i < length xs \<Longrightarrow> go_index xs i = None"
  by (simp add: go_index_def)

lemma go_store_Some [go_simps]: "i < length xs \<Longrightarrow> go_store xs i x = Some (xs[i := x])"
  by (simp add: go_store_def)

lemma go_slice_Some [go_simps]:
  "lo \<le> hi \<Longrightarrow> hi \<le> length xs \<Longrightarrow> go_slice xs lo hi = Some (take (hi - lo) (drop lo xs))"
  by (simp add: go_slice_def)

lemma go_slice_prefix [simp]: "n \<le> length xs \<Longrightarrow> go_slice xs 0 n = Some (take n xs)"
  by (simp add: go_slice_def)

lemma go_slice_suffix [simp]: "n \<le> length xs \<Longrightarrow> go_slice xs n (length xs) = Some (drop n xs)"
  by (simp add: go_slice_def)

lemma wrap_int_id [simp]: "- (2 ^ 63) \<le> i \<Longrightarrow> i < 2 ^ 63 \<Longrightarrow> wrap_int i = i"
  unfolding wrap_int_def by (rule signed_take_bit_int_eq_self) simp_all

lemma wrap_int_over:
  assumes "2 ^ 63 \<le> i" and "i < 2 ^ 64"
  shows "wrap_int i = i - 2 ^ 64"
proof -
  have "wrap_int i = signed_take_bit 63 (i - 2 ^ 64)"
  proof -
    have "take_bit 64 i = take_bit 64 (i - 2 ^ 64)"
      by (simp add: take_bit_eq_mod)
    then show ?thesis
      unfolding wrap_int_def by (simp add: signed_take_bit_eq_iff_take_bit_eq numeral_eq_Suc)
  qed
  also have "\<dots> = i - 2 ^ 64"
    using assms by (intro signed_take_bit_int_eq_self) simp_all
  finally show ?thesis .
qed

section \<open>Strings\<close>

text \<open>A Go string is a sequence of bytes: the conversions \<open>[]byte(s)\<close> and \<open>string(bs)\<close>.\<close>

definition string_bytes :: "string \<Rightarrow> bytes" where
  "string_bytes s = map of_char s"

definition bytes_string :: "bytes \<Rightarrow> string" where
  "bytes_string bs = map (\<lambda>b. char_of (unat b)) bs"

lemma char_of_byte [simp]: "char_of (unat (of_char c :: byte)) = c"
proof -
  have "(of_char c :: byte) = of_nat (of_char c)" by (simp only: of_nat_of_char)
  moreover have "(of_char c :: nat) < 256" by (rule nat_of_char_less_256)
  ultimately have "unat (of_char c :: byte) = of_char c" by (simp only: unat_of_nat) simp
  then show ?thesis by simp
qed

lemma bytes_string_bytes [simp]: "bytes_string (string_bytes s) = s"
  by (simp add: bytes_string_def string_bytes_def comp_def)

lemma length_string_bytes [simp]: "length (string_bytes s) = length s"
  by (simp add: string_bytes_def)

lemma string_bytes_eq_Nil [simp]: "string_bytes s = [] \<longleftrightarrow> s = []"
  by (simp add: string_bytes_def)

section \<open>Reading 64-bit sums and differences\<close>

lemma unat_less_64 [simp]: "unat (w :: u64) < 18446744073709551616"
  using unsigned_less [of w, where ?'a = nat] by simp

lemma sint_small: "uint (w :: u64) < 2 ^ 63 \<Longrightarrow> sint w = uint w"
proof -
  assume "uint w < 2 ^ 63"
  then have "signed_take_bit 63 (uint w) = uint w"
    by (intro signed_take_bit_int_eq_self, intro order_trans [OF _ uint_ge_0]) simp_all
  then show "sint w = uint w" by (simp add: sint_uint)
qed

lemma unat_plus_of_nat [u64_simps]:
  "unat w + n < 2 ^ 64 \<Longrightarrow> unat ((w :: u64) + of_nat n) = unat w + n"
proof -
  assume b: "unat w + n < 2 ^ 64"
  then have "unat (of_nat n :: u64) = n" by (simp add: unat_of_nat)
  with b show ?thesis by (simp add: unat_word_ariths)
qed

lemma unat_of_nat_64 [u64_simps]: "n < 2 ^ 64 \<Longrightarrow> unat (of_nat n :: u64) = n"
  by (simp add: unat_of_nat)

lemma unat_plus_1 [u64_simps]: "unat w + 1 < 2 ^ 64 \<Longrightarrow> unat ((w :: u64) + 1) = unat w + 1"
  using unat_plus_of_nat [of w 1] by simp

lemma unat_minus_le [u64_simps]: "b \<le> a \<Longrightarrow> unat ((a :: u64) - b) = unat a - unat b"
  by (rule unat_sub)

lemma unat_minus_1 [u64_simps]: "0 < unat (w :: u64) \<Longrightarrow> unat (w - 1) = unat w - 1"
  by (rule unat_minus_one) auto

lemma unat_plus_le [u64_simps]:
  "unat (a :: u64) + unat b < 2 ^ 64 \<Longrightarrow> unat (a + b) = unat a + unat b"
  by (simp add: unat_word_ariths)

lemma u64_eqI: "unat (a :: u64) = unat b \<Longrightarrow> a = b"
  by (rule unsigned_word_eqI)

section \<open>Association lists as Go maps\<close>

abbreviation map_keys :: "('k, 'v) gomap \<Rightarrow> 'k list" where
  "map_keys m \<equiv> map fst m"

text \<open>\<open>len\<close>, membership and iteration on a map used as a set; the nil map is empty.\<close>

definition keys_of :: "id_set \<Rightarrow> u64 list" where
  "keys_of s = (case s of None \<Rightarrow> [] | Some ks \<Rightarrow> ks)"

text \<open>\<open>m[id] = struct\<lbrace>\<rbrace>\<lbrace>\<rbrace>\<close>: storing into the nil map panics.\<close>

definition set_store :: "id_set \<Rightarrow> u64 \<Rightarrow> id_set option" where
  "set_store s i = (case s of None \<Rightarrow> None | Some ks \<Rightarrow> Some (Some (List.insert i ks)))"

lemma keys_of_simps [simp]: "keys_of None = []" "keys_of (Some ks) = ks"
  by (simp_all add: keys_of_def)

lemma map_of_dom_keys: "dom (map_of m) = set (map_keys m)"
  by (rule dom_map_of_conv_image_fst [THEN trans]) simp

lemma map_of_None_keys: "map_of m k = None \<longleftrightarrow> k \<notin> set (map_keys m)"
  by (simp add: map_of_eq_None_iff)

lemma map_of_in_keys: "map_of m k = Some v \<Longrightarrow> k \<in> set (map_keys m)"
  by (metis map_of_None_keys option.distinct(1))

lemma keys_in_map_of: "k \<in> set (map_keys m) \<Longrightarrow> \<exists>v. map_of m k = Some v"
  by (metis map_of_None_keys not_None_eq)

lemma map_of_map_keyed: "map_of (map (\<lambda>(i, x). (i, f i x)) m) k = map_option (f k) (map_of m k)"
  by (induction m) auto

lemma map_keys_map_keyed [simp]: "map (fst \<circ> (\<lambda>(i, x). (i, f i x))) m = map_keys m"
  by (simp add: case_prod_unfold comp_def)

lemma update_new_key: "map_of m i = None \<Longrightarrow> AList.update i x m = m @ [(i, x)]"
  by (induction m) (auto split: if_splits)

lemma map_of_snoc_new: "map_of m i = None \<Longrightarrow> map_of (m @ [(i, x)]) = (map_of m)(i \<mapsto> x)"
  by (auto simp: map_add_def fun_eq_iff split: option.splits)

lemma update_last_key: "map_of m i = None \<Longrightarrow> AList.update i x (m @ [(i, y)]) = m @ [(i, x)]"
  by (induction m) (auto split: if_splits)

lemma delete_last_key: "map_of m i = None \<Longrightarrow> AList.delete i (m @ [(i, y)]) = m"
  by (induction m) (auto simp: AList.delete_eq split: if_splits)

lemma snd_unique: "distinct (map snd m) \<Longrightarrow> (a, c) \<in> set m \<Longrightarrow> (b, c) \<in> set m \<Longrightarrow> a = b"
  by (induction m) (auto simp: image_iff)

lemma map_of_filter_key: "map_of (filter (\<lambda>(k, v). P k) m) = map_of m |` {k. P k}"
  by (induction m) (auto simp: restrict_map_def fun_eq_iff)

section \<open>Calls that may panic or return an error\<close>

text \<open>Sequencing: a panic or an error of the first call ends the function.\<close>

definition go_bind ::
  "('e + 'a) option \<Rightarrow> ('a \<Rightarrow> ('e + 'b) option) \<Rightarrow> ('e + 'b) option" where
  "go_bind r f = (case r of None \<Rightarrow> None | Some (Inl e) \<Rightarrow> Some (Inl e) | Some (Inr x) \<Rightarrow> f x)"

text \<open>\<open>if cond \<lbrace> return err \<rbrace>\<close>\<close>

definition fail_if :: "bool \<Rightarrow> 'e \<Rightarrow> ('e + unit) option" where
  "fail_if cond e = Some (if cond then Inl e else Inr ())"

text \<open>A loop whose body may return from the function.\<close>

fun go_each :: "('a \<Rightarrow> ('e + unit) option) \<Rightarrow> 'a list \<Rightarrow> ('e + unit) option" where
  "go_each f [] = Some (Inr ())"
| "go_each f (x # xs) = go_bind (f x) (\<lambda>_. go_each f xs)"

lemma go_bind_simps [simp]:
  "go_bind None f = None" "go_bind (Some (Inl e)) f = Some (Inl e)" "go_bind (Some (Inr x)) f = f x"
  by (simp_all add: go_bind_def)

lemma go_bind_ok: "go_bind r f = Some (Inr y) \<longleftrightarrow> (\<exists>x. r = Some (Inr x) \<and> f x = Some (Inr y))"
  by (cases r) (auto simp: go_bind_def split: sum.splits)

lemma go_bind_panic: "go_bind r f = None \<longleftrightarrow> r = None \<or> (\<exists>x. r = Some (Inr x) \<and> f x = None)"
  by (cases r) (auto simp: go_bind_def split: sum.splits)

lemma fail_if_simps [simp]:
  "fail_if c e = Some (Inr ()) \<longleftrightarrow> \<not> c" "fail_if c e = None \<longleftrightarrow> False"
  "fail_if False e = Some (Inr ())" "fail_if True e = Some (Inl e)"
  by (simp_all add: fail_if_def)

lemma go_each_ok: "go_each f xs = Some (Inr ()) \<longleftrightarrow> (\<forall>x \<in> set xs. f x = Some (Inr ()))"
  by (induction xs) (auto simp: go_bind_ok)

lemma go_each_panic: "go_each f xs = None \<Longrightarrow> \<exists>x \<in> set xs. f x = None"
  by (induction xs) (auto simp: go_bind_panic)

section \<open>Lists\<close>

lemma drop_take_split: "n \<le> m \<Longrightarrow> take n xs @ take (m - n) (drop n xs) = take m xs"
  by (metis le_add_diff_inverse take_add)

lemma card_set_distinct: "distinct xs \<Longrightarrow> card (set xs) = length xs"
  by (rule distinct_card)

lemma distinct_set_singleton: "distinct xs \<Longrightarrow> set xs = {x} \<Longrightarrow> xs = [x]"
  by (metis distinct.simps(2) empty_iff empty_set insertI1 list.exhaust list.set_intros(1) list.simps(15) singletonD subset_singletonD set_empty2 subset_insertI subset_iff)

lemma length_filter_card: "distinct xs \<Longrightarrow> length (filter P xs) = card {x \<in> set xs. P x}"
  by (metis distinct_card distinct_filter set_filter)

end
