(* ===== verification/Go_Strings.thy ===== *)
theory Go_Strings
  imports Etcd_Prelude "HOL-Library.Char_ord" "HOL-Library.List_Lexorder"
begin

text \<open>
  The string functions of Go's standard library that the server code calls: splitting and joining,
  base-16 numbers, sorting and slash-separated paths. A Go string is a sequence of bytes, a HOL
  \<open>char\<close> is a byte, and \<open>sort.Strings\<close> is \<open>sort\<close> in the lexicographic order of bytes.
\<close>

section \<open>Splitting and joining\<close>

text \<open>\<open>strings.Split\<close> with a separator of one byte: never empty.\<close>

fun split_on :: "char \<Rightarrow> string \<Rightarrow> string list" where
  "split_on c [] = [[]]"
| "split_on c (x # xs) =
     (if x = c then [] # split_on c xs
      else case split_on c xs of [] \<Rightarrow> [[x]] | y # ys \<Rightarrow> (x # y) # ys)"

text \<open>\<open>strings.Join\<close>.\<close>

fun join :: "string \<Rightarrow> string list \<Rightarrow> string" where
  "join sep [] = []"
| "join sep [s] = s"
| "join sep (s # ss) = s @ sep @ join sep ss"

text \<open>\<open>strings.Index\<close> of one byte: the part before the first occurrence and the part after it.\<close>

fun cut_at :: "char \<Rightarrow> string \<Rightarrow> (string \<times> string) option" where
  "cut_at c [] = None"
| "cut_at c (x # xs) =
     (if x = c then Some ([], xs) else map_option (\<lambda>(a, b). (x # a, b)) (cut_at c xs))"

definition HasPrefix :: "string \<Rightarrow> string \<Rightarrow> bool" where
  "HasPrefix s p = (take (length p) s = p)"

text \<open>\<open>strings.ToUpper\<close> on bytes below 128, and \<open>strings.Replace\<close> of one byte by another.\<close>

definition ascii_upper :: "char \<Rightarrow> char" where
  "ascii_upper c = (if CHR ''a'' \<le> c \<and> c \<le> CHR ''z'' then char_of (of_char c - 32 :: nat) else c)"

definition ToUpper :: "string \<Rightarrow> string" where
  "ToUpper = map ascii_upper"

definition replace_byte :: "char \<Rightarrow> char \<Rightarrow> string \<Rightarrow> string" where
  "replace_byte old new = map (\<lambda>c. if c = old then new else c)"

text \<open>\<open>strings.TrimSpace\<close> on bytes below 128.\<close>

definition is_space :: "char \<Rightarrow> bool" where
  "is_space c = (c \<in> {CHR 0x09, CHR 0x0A, CHR 0x0B, CHR 0x0C, CHR 0x0D, CHR '' ''})"

definition TrimSpace :: "string \<Rightarrow> string" where
  "TrimSpace s = rev (dropWhile is_space (rev (dropWhile is_space s)))"

section \<open>Base 16\<close>

definition hex_digit :: "nat \<Rightarrow> char" where
  "hex_digit d = (if d < 10 then char_of (48 + d) else char_of (87 + d))"

text \<open>\<open>strconv.FormatUint(n, 16)\<close> and the verb \<open>%x\<close>.\<close>

fun hex :: "nat \<Rightarrow> string" where
  "hex n = (if n < 16 then [hex_digit n] else hex (n div 16) @ [hex_digit (n mod 16)])"

declare hex.simps [simp del]

text \<open>The verb \<open>%016x\<close>.\<close>

definition hex_padded :: "nat \<Rightarrow> nat \<Rightarrow> string" where
  "hex_padded w n = replicate (w - length (hex n)) (CHR ''0'') @ hex n"

text \<open>\<open>strconv.ParseUint(s, 16, 64)\<close>: digits of either case; the range is checked digit by digit, so
  an overflow is reported before a bad digit that follows it.\<close>

datatype num_error = ErrSyntax | ErrRange

definition digit_val :: "char \<Rightarrow> nat option" where
  "digit_val c =
     (let n = of_char c :: nat in
      if 48 \<le> n \<and> n \<le> 57 then Some (n - 48)
      else if 97 \<le> n \<and> n \<le> 102 then Some (n - 87)
      else if 65 \<le> n \<and> n \<le> 70 then Some (n - 55)
      else None)"

fun parse_digits :: "u64 \<Rightarrow> string \<Rightarrow> num_error + u64" where
  "parse_digits n [] = Inr n"
| "parse_digits n (c # cs) =
     (case digit_val c of
        None \<Rightarrow> Inl ErrSyntax
      | Some d \<Rightarrow>
          (if 0x1000000000000000 \<le> n then Inl ErrRange
           else let n = n * 16; n1 = n + of_nat d
                in if n1 < n then Inl ErrRange else parse_digits n1 cs))"

definition ParseHex :: "string \<Rightarrow> num_error + u64" where
  "ParseHex s = (if s = [] then Inl ErrSyntax else parse_digits 0 s)"

section \<open>Paths\<close>

text \<open>\<open>path.Clean\<close> works through the elements of a path: empty elements and \<open>.\<close> are dropped and
  \<open>..\<close> removes the element before it; at the root, \<open>..\<close> is dropped too.\<close>

fun clean_elems :: "bool \<Rightarrow> string list \<Rightarrow> string list \<Rightarrow> string list" where
  "clean_elems rooted acc [] = rev acc"
| "clean_elems rooted acc (e # es) =
     (if e = [] \<or> e = ''.'' then clean_elems rooted acc es
      else if e = ''..'' then
        (case acc of
           [] \<Rightarrow> clean_elems rooted (if rooted then [] else [''..'']) es
         | a # acc' \<Rightarrow> (if a = ''..'' then clean_elems rooted (''..'' # acc) es
                       else clean_elems rooted acc' es))
      else clean_elems rooted (e # acc) es)"

definition path_Clean :: "string \<Rightarrow> string" where
  "path_Clean p =
     (if p = [] then ''.''
      else let rooted = (hd p = CHR ''/'');
               body = join ''/'' (clean_elems rooted [] (split_on (CHR ''/'') p))
           in if rooted then ''/'' @ body else if body = [] then ''.'' else body)"

definition path_Join :: "string list \<Rightarrow> string" where
  "path_Join es = (let es = filter (\<lambda>e. e \<noteq> []) es in if es = [] then [] else path_Clean (join ''/'' es))"

text \<open>\<open>path.Dir\<close> and \<open>path.Base\<close>: what is before and after the last slash.\<close>

definition strip_slashes :: "string \<Rightarrow> string" where
  "strip_slashes p = rev (dropWhile (\<lambda>c. c = CHR ''/'') (rev p))"

definition after_slash :: "string \<Rightarrow> string" where
  "after_slash p = rev (takeWhile (\<lambda>c. c \<noteq> CHR ''/'') (rev p))"

definition path_Dir :: "string \<Rightarrow> string" where
  "path_Dir p = path_Clean (rev (dropWhile (\<lambda>c. c \<noteq> CHR ''/'') (rev p)))"

definition path_Base :: "string \<Rightarrow> string" where
  "path_Base p =
     (if p = [] then ''.''
      else let q = after_slash (strip_slashes p) in if q = [] then ''/'' else q)"

text \<open>\<open>filepath.Ext\<close>: the suffix from the last dot of the last element on.\<close>

fun ext_of :: "string \<Rightarrow> string \<Rightarrow> string" where
  "ext_of acc [] = []"
| "ext_of acc (c # cs) =
     (if c = CHR ''/'' then [] else if c = CHR ''.'' then c # acc else ext_of (c # acc) cs)"

definition path_Ext :: "string \<Rightarrow> string" where
  "path_Ext p = ext_of [] (rev p)"

section \<open>Lemmas on splitting and joining\<close>

lemma split_on_ne [simp]: "split_on c s \<noteq> []"
  by (induction s) (auto split: list.splits)

lemma join_Cons [simp]: "ss \<noteq> [] \<Longrightarrow> join sep (s # ss) = s @ sep @ join sep ss"
  by (cases ss) auto

lemma join_split_on [simp]: "join [c] (split_on c s) = s"
proof (induction s)
  case (Cons x xs)
  show ?case
  proof (cases "x = c")
    case False
    obtain y ys where "split_on c xs = y # ys" by (cases "split_on c xs") auto
    with Cons False show ?thesis by (cases ys) auto
  qed (use Cons in simp)
qed simp

lemma split_on_plain [simp]: "c \<notin> set s \<Longrightarrow> split_on c s = [s]"
  by (induction s) auto

lemma split_on_append [simp]: "c \<notin> set s \<Longrightarrow> split_on c (s @ c # t) = s # split_on c t"
  by (induction s) auto

lemma split_on_join:
  "ss \<noteq> [] \<Longrightarrow> \<forall>s \<in> set ss. c \<notin> set s \<Longrightarrow> split_on c (join [c] ss) = ss"
  by (induction "[c]" ss rule: join.induct) auto

lemma split_on_free: "s \<in> set (split_on c t) \<Longrightarrow> c \<notin> set s"
  by (induction t arbitrary: s) (auto split: if_splits list.splits)

lemma cut_at_none [simp]: "c \<notin> set s \<Longrightarrow> cut_at c s = None"
  by (induction s) auto

lemma cut_at_noneD: "cut_at c s = None \<Longrightarrow> c \<notin> set s"
  by (induction s) (auto split: if_splits)

lemma cut_at_first [simp]: "c \<notin> set a \<Longrightarrow> cut_at c (a @ c # b) = Some (a, b)"
  by (induction a) auto

lemma cut_at_some: "cut_at c s = Some (a, b) \<Longrightarrow> s = a @ c # b \<and> c \<notin> set a"
  by (induction s arbitrary: a) (auto split: if_splits)

section \<open>Lemmas on base 16\<close>

lemma digit_val_hex_digit [simp]: "d < 16 \<Longrightarrow> digit_val (hex_digit d) = Some d"
  by (auto simp: digit_val_def hex_digit_def Let_def)

lemma hex_digit_0 [simp]: "hex_digit 0 = CHR ''0''"
  by code_simp

lemma hex_digit_less: "d < e \<Longrightarrow> e < 16 \<Longrightarrow> hex_digit d < hex_digit e"
  by (auto simp: hex_digit_def less_char_def)

lemma parse_digits_snoc:
  "parse_digits n (cs @ [c]) = (case parse_digits n cs of Inl e \<Rightarrow> Inl e | Inr m \<Rightarrow> parse_digits m [c])"
  by (induction cs arbitrary: n) (auto simp: Let_def split: option.splits)

lemma parse_one:
  assumes "d < 16" and "16 * m + d < 2 ^ 64"
  shows "parse_digits (of_nat m) [hex_digit d] = Inr (of_nat (16 * m + d))"
proof -
  have m: "unat (of_nat m :: u64) = m" "m < 0x1000000000000000" using assms by (simp_all add: unat_of_nat)
  have mul: "(of_nat m :: u64) * 16 = of_nat (16 * m)" by simp
  have "unat (of_nat (16 * m + d) :: u64) = 16 * m + d" "unat (of_nat (16 * m) :: u64) = 16 * m"
    using assms by (simp_all only: unat_of_nat take_bit_nat_eq_self, simp_all)
  then have "\<not> (of_nat (16 * m + d) :: u64) < of_nat (16 * m)" by (simp only: word_less_nat_alt)
  moreover have "\<not> (0x1000000000000000 :: u64) \<le> of_nat m" using m by (simp add: word_le_nat_alt)
  ultimately show ?thesis using assms(1) by (simp add: mul Let_def del: of_nat_mult)
qed

lemma parse_digits_hex: "n < 2 ^ 64 \<Longrightarrow> parse_digits 0 (hex n) = Inr (of_nat n)"
proof (induction n rule: hex.induct)
  case (1 n)
  show ?case
  proof (cases "n < 16")
    case True
    then show ?thesis using parse_one [of n 0] by (simp add: hex.simps [of n])
  next
    case False
    have "parse_digits 0 (hex (n div 16)) = Inr (of_nat (n div 16))" using 1 False by simp
    with parse_one [of "n mod 16" "n div 16"] 1 False show ?thesis
      by (simp add: hex.simps [of n] parse_digits_snoc)
  qed
qed

lemma hex_ne [simp]: "hex n \<noteq> []"
  by (subst hex.simps) simp

lemma ParseHex_hex: "n < 2 ^ 64 \<Longrightarrow> ParseHex (hex n) = Inr (of_nat n)"
  by (simp add: ParseHex_def parse_digits_hex)

lemma hex_inj: "n < 2 ^ 64 \<Longrightarrow> m < 2 ^ 64 \<Longrightarrow> hex n = hex m \<Longrightarrow> n = m"
  using ParseHex_hex [of n] ParseHex_hex [of m] by (metis sum.inject(2) unat_of_nat_64)

lemma hex_chars: "c \<in> set (hex n) \<Longrightarrow> digit_val c \<noteq> None"
  by (induction n rule: hex.induct) (subst (asm) (2) hex.simps, auto split: if_splits)

lemma length_hex: "0 < w \<Longrightarrow> n < 16 ^ w \<Longrightarrow> length (hex n) \<le> w"
proof (induction w arbitrary: n)
  case (Suc w)
  show ?case
  proof (cases "n < 16")
    case False
    with Suc.prems have "n div 16 < 16 ^ w" "0 < w" by (auto simp: less_mult_imp_div_less mult.commute) (cases w, auto)
    with Suc.IH show ?thesis by (subst hex.simps) (simp add: False)
  qed (simp add: hex.simps)
qed simp

lemma length_hex_padded: "0 < w \<Longrightarrow> n < 16 ^ w \<Longrightarrow> length (hex_padded w n) = w"
  using length_hex by (simp add: hex_padded_def)

text \<open>Padded numbers digit by digit, and their lexicographic order.\<close>

lemma hex_padded_Suc:
  assumes "0 < w"
  shows "hex_padded (Suc w) n = hex_padded w (n div 16) @ [hex_digit (n mod 16)]"
proof (cases "n < 16")
  case True
  then have "hex n = [hex_digit n]" "hex (n div 16) = [CHR ''0'']"
    by (simp_all add: hex.simps)
  with True assms show ?thesis
    by (simp add: hex_padded_def) (metis Suc_pred replicate_Suc replicate_append_same append_Cons append_Nil)
next
  case False
  then have "hex n = hex (n div 16) @ [hex_digit (n mod 16)]" by (subst hex.simps) simp
  then show ?thesis by (simp add: hex_padded_def)
qed

lemma list_less_append:
  "length xs = length ys \<Longrightarrow> xs < (ys :: string) \<Longrightarrow> xs @ us < ys @ vs"
  by (induction xs ys rule: list_induct2) auto

lemma list_less_same_prefix: "(xs :: string) @ us < xs @ vs \<longleftrightarrow> us < vs"
  by (induction xs) auto

lemma hex_padded_mono:
  "0 < w \<Longrightarrow> n < m \<Longrightarrow> m < 16 ^ w \<Longrightarrow> hex_padded w n < hex_padded w m"
proof (induction w arbitrary: n m)
  case (Suc w)
  show ?case
  proof (cases "w = 0")
    case True
    with Suc.prems show ?thesis by (simp add: hex_padded_def hex.simps hex_digit_less)
  next
    case False
    have b: "n div 16 < 16 ^ w" "m div 16 < 16 ^ w"
      using Suc.prems by (simp_all add: less_mult_imp_div_less mult.commute)
    show ?thesis
    proof (cases "n div 16 = m div 16")
      case True
      with Suc.prems(2) have "n mod 16 < m mod 16" by (metis div_mult_mod_eq nat_add_left_cancel_less)
      with True False show ?thesis
        by (simp add: hex_padded_Suc list_less_same_prefix hex_digit_less)
    next
      case neq: False
      with Suc.prems(2) have "n div 16 < m div 16" by (meson div_le_mono le_neq_implies_less less_imp_le)
      with Suc.IH b False have "hex_padded w (n div 16) < hex_padded w (m div 16)" by simp
      with b False show ?thesis by (simp add: hex_padded_Suc length_hex_padded list_less_append)
    qed
  qed
qed simp

section \<open>Lemmas on paths\<close>

text \<open>An ordinary path element, and the rooted path made of ordinary elements.\<close>

definition path_elem :: "string \<Rightarrow> bool" where
  "path_elem e \<longleftrightarrow> e \<noteq> [] \<and> e \<noteq> ''.'' \<and> e \<noteq> ''..'' \<and> CHR ''/'' \<notin> set e"

definition rooted :: "string list \<Rightarrow> string" where
  "rooted es = ''/'' @ join ''/'' es"

lemma join_snoc: "join sep (es @ [e]) = (if es = [] then e else join sep es @ sep @ e)"
  by (induction es) auto

lemma rooted_snoc: "es \<noteq> [] \<Longrightarrow> rooted (es @ [e]) = rooted es @ ''/'' @ e"
  by (simp add: rooted_def join_snoc)

lemma clean_elems_plain: "\<forall>e \<in> set es. path_elem e \<Longrightarrow> clean_elems r acc es = rev acc @ es"
  by (induction es arbitrary: acc) (auto simp: path_elem_def)

lemma clean_elems_trailing:
  "\<forall>e \<in> set es. path_elem e \<Longrightarrow> clean_elems r acc (es @ [[]]) = rev acc @ es"
  by (induction es arbitrary: acc) (auto simp: path_elem_def)

lemma split_elems: "es \<noteq> [] \<Longrightarrow> \<forall>e \<in> set es. path_elem e \<Longrightarrow> split_on (CHR ''/'') (join ''/'' es) = es"
  by (rule split_on_join) (auto simp: path_elem_def)

lemma clean_rooted: "es \<noteq> [] \<Longrightarrow> \<forall>e \<in> set es. path_elem e \<Longrightarrow> path_Clean (rooted es) = rooted es"
  by (simp add: path_Clean_def rooted_def split_elems clean_elems_plain Let_def)

lemma clean_rooted_trailing:
  assumes "es \<noteq> []" and "\<forall>e \<in> set es. path_elem e"
  shows "path_Clean (rooted es @ ''/'') = rooted es"
proof -
  have "join ''/'' es @ ''/'' = join ''/'' (es @ [[]])" using assms(1) by (simp add: join_snoc)
  moreover have "split_on (CHR ''/'') (join ''/'' (es @ [[]])) = es @ [[]]"
    by (rule split_on_join) (use assms in \<open>auto simp: path_elem_def\<close>)
  ultimately show ?thesis
    using assms by (simp add: path_Clean_def rooted_def clean_elems_trailing Let_def)
qed

lemma rooted_ne [simp]: "rooted es \<noteq> []"
  by (simp add: rooted_def)

lemma path_Join_rooted:
  assumes "es \<noteq> []" and "\<forall>e \<in> set es. path_elem e" and "path_elem e"
  shows "path_Join [rooted es, e] = rooted (es @ [e])"
  using clean_rooted [of "es @ [e]"] assms
  by (simp add: path_Join_def rooted_snoc Let_def) (auto simp: path_elem_def)

lemma path_Dir_rooted:
  assumes "es \<noteq> []" and "\<forall>e \<in> set es. path_elem e" and "path_elem e"
  shows "path_Dir (rooted (es @ [e])) = rooted es"
proof -
  have "dropWhile (\<lambda>c. c \<noteq> CHR ''/'') (rev e @ xs) = dropWhile (\<lambda>c. c \<noteq> CHR ''/'') xs" for xs
    using assms(3) by (auto simp: path_elem_def dropWhile_append)
  then show ?thesis using assms clean_rooted_trailing [of es] by (simp add: path_Dir_def rooted_snoc)
qed

lemma path_Base_rooted:
  assumes "es \<noteq> []" and "path_elem e"
  shows "path_Base (rooted (es @ [e])) = e"
proof -
  have e: "CHR ''/'' \<notin> set e" "e \<noteq> []" using assms(2) by (simp_all add: path_elem_def)
  have "dropWhile (\<lambda>c. c = CHR ''/'') (rev e @ xs) = rev e @ xs" for xs
    using e by (cases "rev e") auto
  then have "strip_slashes (rooted es @ ''/'' @ e) = rooted es @ ''/'' @ e" by (simp add: strip_slashes_def)
  moreover have "takeWhile (\<lambda>c. c \<noteq> CHR ''/'') (rev e @ CHR ''/'' # xs) = rev e" for xs
    using e by (simp add: takeWhile_append)
  ultimately show ?thesis using e assms(1) by (simp add: path_Base_def rooted_snoc after_slash_def Let_def)
qed

end
