(* ===== verification/Go_Sort.thy ===== *)
theory Go_Sort
  imports Etcd_Prelude "HOL-Library.Multiset"
begin

text \<open>
  \<open>sort.Sort\<close> works on its argument only through \<open>Len\<close>, \<open>Less\<close> and \<open>Swap\<close>. The locale states what
  a type has to promise for that, and shows what every sorting run then produces: whatever swaps
  the algorithm makes, once no neighbours are out of order the result is the sorted permutation,
  and when the keys differ it is the only one. The models of the code therefore use \<open>sort_key\<close>.
\<close>

locale sort_interface =
  fixes key :: "'a \<Rightarrow> 'k :: linorder"
    and Less :: "'a list \<Rightarrow> nat \<Rightarrow> nat \<Rightarrow> bool option"
    and Swap :: "'a list \<Rightarrow> nat \<Rightarrow> nat \<Rightarrow> 'a list option"
  assumes Less_key:
      "i < length p \<Longrightarrow> j < length p \<Longrightarrow> Less p i j = Some (key (p ! i) < key (p ! j))"
    and Swap_permutes:
      "Swap p i j = Some q \<Longrightarrow> image_mset key (mset q) = image_mset key (mset p)"
begin

inductive run_of :: "'a list \<Rightarrow> 'a list \<Rightarrow> bool" for p where
  start: "run_of p p"
| swap: "run_of p q \<Longrightarrow> Swap q i j = Some q' \<Longrightarrow> run_of p q'"

definition in_order :: "'a list \<Rightarrow> bool" where
  "in_order p \<longleftrightarrow> (\<forall>i. Suc i < length p \<longrightarrow> Less p (Suc i) i = Some False)"

lemma run_permutes: "run_of p q \<Longrightarrow> image_mset key (mset q) = image_mset key (mset p)"
  by (induction rule: run_of.induct) (auto dest: Swap_permutes)

lemma in_order_sorted: "in_order p \<longleftrightarrow> sorted (map key p)"
  by (auto simp: in_order_def sorted_iff_nth_Suc Less_key not_less)

lemma sorted_run: "run_of p q \<Longrightarrow> in_order q \<Longrightarrow> map key q = sort (map key p)"
  using run_permutes [of p q] by (auto simp: in_order_sorted intro!: properties_for_sort [symmetric])

end

text \<open>The common case: \<open>Swap\<close> exchanges the two elements.\<close>

definition exchange :: "'a list \<Rightarrow> nat \<Rightarrow> nat \<Rightarrow> 'a list option" where
  "exchange p i j =
     (if i < length p \<and> j < length p then Some (p[i := p ! j, j := p ! i]) else None)"

lemma mset_exchange: "exchange p i j = Some q \<Longrightarrow> mset q = mset p"
  by (auto simp: exchange_def mset_swap split: if_splits)

definition less_by :: "('a \<Rightarrow> 'k :: linorder) \<Rightarrow> 'a list \<Rightarrow> nat \<Rightarrow> nat \<Rightarrow> bool option" where
  "less_by f p i j = do { x \<leftarrow> go_index p i; y \<leftarrow> go_index p j; Some (f x < f y) }"

lemma less_by_nth:
  "i < length p \<Longrightarrow> j < length p \<Longrightarrow> less_by f p i j = Some (f (p ! i) < f (p ! j))"
  by (simp add: less_by_def go_simps)

end
