(* ===== verification/Id_Util.thy ===== *)
theory Id_Util
  imports Go_Strings Go_Sort
begin

unbundle bit_operations_syntax

text \<open>
  Identifiers: \<open>pkg/types/id.go\<close> (member and cluster IDs in base 16), \<open>pkg/idutil/id.go\<close> (the
  generator of request IDs) and the file names of \<open>wal/util.go\<close>, which are made of two padded
  base-16 numbers.
\<close>

section \<open>types.ID\<close>

type_synonym ID = u64

definition ID_String :: "ID \<Rightarrow> string" where
  "ID_String i = hex (unat i)"

text \<open>\<open>IDFromString\<close> returns the value of \<open>ParseUint\<close> together with its error: 0 for a syntax error
  and the largest value when the number does not fit.\<close>

definition IDFromString :: "string \<Rightarrow> ID \<times> num_error option" where
  "IDFromString s =
     (case ParseHex s of
        Inl ErrSyntax \<Rightarrow> (0, Some ErrSyntax)
      | Inl ErrRange \<Rightarrow> (- 1, Some ErrRange)
      | Inr i \<Rightarrow> (i, None))"

definition IDSlice_Less :: "ID list \<Rightarrow> nat \<Rightarrow> nat \<Rightarrow> bool option" where
  "IDSlice_Less p i j = less_by id p i j"

definition IDSlice_Swap :: "ID list \<Rightarrow> nat \<Rightarrow> nat \<Rightarrow> ID list option" where
  "IDSlice_Swap p i j = exchange p i j"

interpretation id_slice: sort_interface id IDSlice_Less IDSlice_Swap
  by unfold_locales (auto simp: IDSlice_Less_def IDSlice_Swap_def less_by_nth dest: mset_exchange)

section \<open>idutil.Generator\<close>

record Generator =
  gen_prefix :: u64
  gen_suffix :: u64

definition lowbit :: "u64 \<Rightarrow> nat \<Rightarrow> u64" where
  "lowbit x n = x AND (if n \<le> 64 then drop_bit (64 - n) (- 1) else 0)"

text \<open>The time is given in nanoseconds, as \<open>UnixNano\<close> converted to \<open>uint64\<close>.\<close>

definition NewGenerator :: "16 word \<Rightarrow> u64 \<Rightarrow> Generator" where
  "NewGenerator memberID nano =
     \<lparr>gen_prefix = push_bit 48 (ucast memberID),
      gen_suffix = push_bit 8 (lowbit (nano div 1000000) 40)\<rparr>"

definition Generator_Next :: "Generator \<Rightarrow> u64 \<times> Generator" where
  "Generator_Next g =
     (let suffix = gen_suffix g + 1
      in (gen_prefix g OR lowbit suffix 48, g\<lparr>gen_suffix := suffix\<rparr>))"

text \<open>The IDs of \<open>n\<close> calls in a row.\<close>

fun next_ids :: "nat \<Rightarrow> Generator \<Rightarrow> u64 list" where
  "next_ids 0 g = []"
| "next_ids (Suc n) g = (case Generator_Next g of (i, g') \<Rightarrow> i # next_ids n g')"

section \<open>File names of the write-ahead log\<close>

definition walName :: "u64 \<Rightarrow> u64 \<Rightarrow> string" where
  "walName seq index = hex_padded 16 (unat seq) @ ''-'' @ hex_padded 16 (unat index) @ ''.wal''"

section \<open>Lemmas\<close>

lemma lowbit_take_bit: "n \<le> 64 \<Longrightarrow> lowbit x n = take_bit n x"
proof (rule bit_eqI)
  fix k assume "n \<le> 64" "possible_bit TYPE(64 word) k"
  then show "bit (lowbit x n) k \<longleftrightarrow> bit (take_bit n x) k"
    by (auto simp: lowbit_def bit_simps)
qed

lemma nth_next_ids:
  "k < n \<Longrightarrow> next_ids n g ! k = gen_prefix g OR take_bit 48 (gen_suffix g + of_nat (Suc k))"
  by (induction n arbitrary: g k)
    (auto simp: Generator_Next_def Let_def lowbit_take_bit nth_Cons algebra_simps split: nat.splits)

lemma length_next_ids [simp]: "length (next_ids n g) = n"
  by (induction n arbitrary: g) (auto simp: Generator_Next_def Let_def)

lemma take_bit_prefix_id:
  "take_bit 48 (push_bit 48 (ucast (m :: 16 word)) OR take_bit 48 (s :: u64)) = take_bit 48 s"
  by (rule bit_eqI) (auto simp: bit_simps)

lemma drop_bit_prefix_id:
  "drop_bit 48 (push_bit 48 (ucast (m :: 16 word)) OR take_bit 48 (s :: u64)) = ucast m"
  by (rule bit_eqI) (auto simp: bit_simps dest: bit_imp_le_length)

lemma take_bit_48_inj:
  assumes "take_bit 48 (s + of_nat k :: u64) = take_bit 48 (s + of_nat l)" and "k < l"
  shows "2 ^ 48 \<le> l - k"
proof (rule ccontr)
  assume small: "\<not> 2 ^ 48 \<le> l - k"
  have "(unat s + k) mod 2 ^ 48 = (unat s + l) mod 2 ^ 48"
    using arg_cong [OF assms(1), of unat]
    by (simp add: unsigned_take_bit_eq unat_word_ariths unat_of_nat take_bit_eq_mod mod_mod_cancel
        mod_add_left_eq mod_add_right_eq mod_simps)
  then have "2 ^ 48 dvd (unat s + l) - (unat s + k)"
    using assms(2) by (intro mod_eq_dvd_iff_nat [THEN iffD1]) auto
  then have "2 ^ 48 dvd l - k" by simp
  with assms(2) small show False by (auto dest: dvd_imp_le)
qed

lemma walName_length: "length (walName s i) = 37"
  using unsigned_less [of s, where ?'a = nat] unsigned_less [of i, where ?'a = nat]
  by (simp add: walName_def length_hex_padded)

section \<open>Properties\<close>

text \<open>C30: Up to \<open>2 ^ 48\<close> calls of \<open>Next\<close> on a generator never return the same ID twice, and every ID
  carries the member ID in its two highest bytes, so generators of different members never return a
  common ID.\<close>

theorem request_ids_unique:
  assumes "n \<le> 2 ^ 48"
  shows "distinct (next_ids n (NewGenerator m t)) \<and>
    (\<forall>i \<in> set (next_ids n (NewGenerator m t)). drop_bit 48 i = ucast m) \<and>
    (\<forall>m' t' n'. m' \<noteq> m \<longrightarrow> set (next_ids n (NewGenerator m t)) \<inter> set (next_ids n' (NewGenerator m' t')) = {})"
proof -
  have nth: "next_ids k (NewGenerator q u) ! j =
      push_bit 48 (ucast q) OR take_bit 48 (gen_suffix (NewGenerator q u) + of_nat (Suc j))" if "j < k" for k j q u
    using that by (simp add: nth_next_ids) (simp add: NewGenerator_def)
  have member: "drop_bit 48 i = ucast q" if "i \<in> set (next_ids k (NewGenerator q u))" for i k q u
    using that by (metis in_set_conv_nth length_next_ids nth drop_bit_prefix_id)
  have step: "next_ids n (NewGenerator m t) ! j \<noteq> next_ids n (NewGenerator m t) ! k" if "j < k" "k < n" for j k
  proof
    assume eq: "next_ids n (NewGenerator m t) ! j = next_ids n (NewGenerator m t) ! k"
    have "take_bit 48 (gen_suffix (NewGenerator m t) + of_nat (Suc j)) =
        take_bit 48 (gen_suffix (NewGenerator m t) + of_nat (Suc k))"
      using arg_cong [OF eq, of "take_bit 48"] that by (simp only: nth less_trans take_bit_prefix_id)
    from take_bit_48_inj [OF this] that assms show False by simp
  qed
  have "next_ids n (NewGenerator m t) ! j \<noteq> next_ids n (NewGenerator m t) ! k" if "j < n" "k < n" "j \<noteq> k" for j k
    using that step [of j k] step [of k j] by (metis nat_neq_iff)
  then have "distinct (next_ids n (NewGenerator m t))" by (simp add: distinct_conv_nth)
  moreover have "set (next_ids n (NewGenerator m t)) \<inter> set (next_ids n' (NewGenerator m' t')) = {}"
    if "m' \<noteq> m" for m' t' n'
  proof -
    have "(ucast m :: u64) \<noteq> ucast m'" using that unsigned_less [of m, where ?'a = nat] unsigned_less [of m', where ?'a = nat]
      by (auto dest!: arg_cong [of _ _ unat] simp: unsigned_ucast_eq take_bit_nat_eq_self word_unat_eq_iff)
    then show ?thesis using member by (metis disjoint_iff)
  qed
  ultimately show ?thesis using member by blast
qed

theorem request_ids_unique_witness:
  "next_ids 2 (NewGenerator 7 3000000) = [0x0007000000000301, 0x0007000000000302] \<and>
   distinct (next_ids 2 (NewGenerator 7 3000000))"
proof
  show "next_ids 2 (NewGenerator 7 3000000) = [0x0007000000000301, 0x0007000000000302]" by code_simp
  show "distinct (next_ids 2 (NewGenerator 7 3000000))"
    by (rule request_ids_unique [THEN conjunct1]) simp
qed

text \<open>The text of an ID reads back as that ID without an error.\<close>

lemma ID_round_trip: "IDFromString (ID_String i) = (i, None)"
  by (simp add: IDFromString_def ID_String_def ParseHex_hex)

text \<open>The names of write-ahead log files sort like the numbers they are made of: first by sequence
  number, then by the index of the first entry; in particular different files have different
  names.\<close>

lemma walName_order:
  "walName s i < walName s' i' \<longleftrightarrow> s < s' \<or> s = s' \<and> i < i'"
proof -
  have bound: "unat (x :: u64) < 16 ^ 16" for x using unsigned_less [of x, where ?'a = nat] by simp
  have mono: "walName s i < walName s' i'" if "s < s' \<or> s = s' \<and> i < i'" for s i s' i'
    using that
  proof
    assume "s < s'"
    then have "hex_padded 16 (unat s) < hex_padded 16 (unat s')"
      by (intro hex_padded_mono bound) (simp_all add: word_less_nat_alt)
    then show ?thesis by (simp add: walName_def list_less_append length_hex_padded bound)
  next
    assume "s = s' \<and> i < i'"
    then have "s = s'" "hex_padded 16 (unat i) < hex_padded 16 (unat i')"
      using bound by (auto intro!: hex_padded_mono simp: word_less_nat_alt)
    then show ?thesis
      by (simp add: walName_def list_less_same_prefix list_less_append length_hex_padded bound)
  qed
  show ?thesis
  proof
    assume less: "walName s i < walName s' i'"
    show "s < s' \<or> s = s' \<and> i < i'"
    proof (rule ccontr)
      assume "\<not> (s < s' \<or> s = s' \<and> i < i')"
      then have "s' < s \<or> s' = s \<and> i' < i \<or> s = s' \<and> i = i'" by auto
      with mono [of s' s i' i] less show False by auto
    qed
  qed (rule mono)
qed

end
