(* ===== verification/Urls.thy ===== *)
theory Urls
  imports Go_Strings Go_Sort
begin

text \<open>
  \<open>pkg/types/urls.go\<close> and \<open>pkg/types/urlsmap.go\<close>: checked lists of URLs, and the map from member
  names to URLs that a setting like \<open>a=http://h:1,b=http://h:2\<close> describes.

  The parser of \<open>net/url\<close> and \<open>net.SplitHostPort\<close> are arguments: the record \<open>url_ops\<close> holds what the
  code calls of them. A \<open>range\<close> over a map visits it in an arbitrary order; where the order can show,
  it is an argument too, a function that permutes the entries.
\<close>

record 'u url_ops =
  url_Parse :: "string \<Rightarrow> string + 'u"
  url_Scheme :: "'u \<Rightarrow> string"
  url_Host :: "'u \<Rightarrow> string"
  url_Path :: "'u \<Rightarrow> string"
  url_String :: "'u \<Rightarrow> string"
  SplitHostPort_ok :: "string \<Rightarrow> bool"

section \<open>URLs\<close>

type_synonym 'u URLs = "'u list"

datatype url_error = ErrNoURLs | ErrParse string | ErrScheme string | ErrHostPort string | ErrPath string

text \<open>The body of the loop of \<open>NewURLs\<close>.\<close>

definition check_url :: "'u url_ops \<Rightarrow> string \<Rightarrow> url_error + 'u" where
  "check_url ops s =
     (let inp = TrimSpace s in
      case url_Parse ops inp of
        Inl e \<Rightarrow> Inl (ErrParse e)
      | Inr u \<Rightarrow>
          if url_Scheme ops u \<noteq> ''http'' \<and> url_Scheme ops u \<noteq> ''https'' \<and>
             url_Scheme ops u \<noteq> ''unix'' \<and> url_Scheme ops u \<noteq> ''unixs'' then Inl (ErrScheme inp)
          else if \<not> SplitHostPort_ok ops (url_Host ops u) then Inl (ErrHostPort inp)
          else if url_Path ops u \<noteq> [] then Inl (ErrPath inp)
          else Inr u)"

fun check_urls :: "'u url_ops \<Rightarrow> string list \<Rightarrow> url_error + 'u URLs" where
  "check_urls ops [] = Inr []"
| "check_urls ops (s # ss) =
     (case check_url ops s of
        Inl e \<Rightarrow> Inl e
      | Inr u \<Rightarrow> (case check_urls ops ss of Inl e \<Rightarrow> Inl e | Inr us \<Rightarrow> Inr (u # us)))"

definition URLs_Less :: "'u url_ops \<Rightarrow> 'u URLs \<Rightarrow> nat \<Rightarrow> nat \<Rightarrow> bool option" where
  "URLs_Less ops us i j = less_by (url_String ops) us i j"

definition URLs_Swap :: "'u URLs \<Rightarrow> nat \<Rightarrow> nat \<Rightarrow> 'u URLs option" where
  "URLs_Swap us i j = exchange us i j"

interpretation urls: sort_interface "url_String ops" "URLs_Less ops" URLs_Swap for ops
  by unfold_locales (auto simp: URLs_Less_def URLs_Swap_def less_by_nth dest: mset_exchange)

definition URLs_Sort :: "'u url_ops \<Rightarrow> 'u URLs \<Rightarrow> 'u URLs" where
  "URLs_Sort ops us = sort_key (url_String ops) us"

definition NewURLs :: "'u url_ops \<Rightarrow> string list \<Rightarrow> url_error + 'u URLs" where
  "NewURLs ops strs =
     (if length strs = 0 then Inl ErrNoURLs
      else case check_urls ops strs of Inl e \<Rightarrow> Inl e | Inr all \<Rightarrow> Inr (URLs_Sort ops all))"

text \<open>\<open>MustNewURLs\<close> panics on an error.\<close>

definition MustNewURLs :: "'u url_ops \<Rightarrow> string list \<Rightarrow> 'u URLs option" where
  "MustNewURLs ops strs = (case NewURLs ops strs of Inl e \<Rightarrow> None | Inr us \<Rightarrow> Some us)"

definition URLs_StringSlice :: "'u url_ops \<Rightarrow> 'u URLs \<Rightarrow> string list" where
  "URLs_StringSlice ops us = map (url_String ops) us"

definition URLs_String :: "'u url_ops \<Rightarrow> 'u URLs \<Rightarrow> string" where
  "URLs_String ops us = join '','' (URLs_StringSlice ops us)"

section \<open>URLsMap\<close>

type_synonym 'u URLsMap = "(string, 'u URLs) gomap"

definition append_value :: "string \<Rightarrow> string \<Rightarrow> (string, string list) gomap \<Rightarrow> (string, string list) gomap" where
  "append_value key value m =
     AList.update key ((case map_of m key of None \<Rightarrow> [] | Some vs \<Rightarrow> vs) @ [value]) m"

text \<open>The loop of \<open>parse\<close>.\<close>

function parse_loop :: "string \<Rightarrow> (string, string list) gomap \<Rightarrow> (string, string list) gomap" where
  "parse_loop s m =
     (if s = [] then m
      else let (key, rest) = (case cut_at (CHR '','') s of Some (k, r) \<Rightarrow> (k, r) | None \<Rightarrow> (s, []))
           in if key = [] then parse_loop rest m
              else let (key, value) = (case cut_at (CHR ''='') key of Some (k, v) \<Rightarrow> (k, v) | None \<Rightarrow> (key, []))
                   in parse_loop rest (append_value key value m))"
  by pat_completeness auto
termination
  by (relation "measure (\<lambda>(s, m). length s)") (auto split: option.splits dest!: cut_at_some)

declare parse_loop.simps [simp del]

definition URLsMap_parse :: "string \<Rightarrow> (string, string list) gomap" where
  "URLsMap_parse s = parse_loop s []"

fun urls_of_entries ::
  "'u url_ops \<Rightarrow> (string, string list) gomap \<Rightarrow> 'u URLsMap \<Rightarrow> url_error + 'u URLsMap" where
  "urls_of_entries ops [] cl = Inr cl"
| "urls_of_entries ops ((name, urls) # es) cl =
     (case NewURLs ops urls of
        Inl e \<Rightarrow> Inl e
      | Inr us \<Rightarrow> urls_of_entries ops es (AList.update name us cl))"

definition NewURLsMap ::
  "'u url_ops \<Rightarrow> ((string, string list) gomap \<Rightarrow> (string, string list) gomap) \<Rightarrow> string \<Rightarrow> url_error + 'u URLsMap" where
  "NewURLsMap ops visit s = urls_of_entries ops (visit (URLsMap_parse s)) []"

section \<open>Reference definition of the parser\<close>

definition setting :: "string \<Rightarrow> string \<times> string" where
  "setting part = (case cut_at (CHR ''='') part of Some (k, v) \<Rightarrow> (k, v) | None \<Rightarrow> (part, []))"

definition settings :: "string \<Rightarrow> (string \<times> string) list" where
  "settings s = map setting (filter (\<lambda>p. p \<noteq> []) (split_on (CHR '','') s))"

lemma parse_loop_settings:
  "parse_loop s m = fold (\<lambda>(k, v). append_value k v) (settings s) m"
proof (induction s m rule: parse_loop.induct)
  case (1 s m)
  show ?case
  proof (cases "s = []")
    case True
    then show ?thesis by (simp add: parse_loop.simps settings_def)
  next
    case False
    define key where "key = (case cut_at (CHR '','') s of Some (k, r) \<Rightarrow> k | None \<Rightarrow> s)"
    define rest where "rest = (case cut_at (CHR '','') s of Some (k, r) \<Rightarrow> r | None \<Rightarrow> [])"
    have kr: "(case cut_at (CHR '','') s of Some (k, r) \<Rightarrow> (k, r) | None \<Rightarrow> (s, [])) = (key, rest)"
      by (cases "cut_at (CHR '','') s") (auto simp: key_def rest_def)
    have parts: "settings s = (if key = [] then [] else [setting key]) @ settings rest"
      using False
      by (cases "cut_at (CHR '','') s") (auto simp: settings_def key_def rest_def dest!: cut_at_some cut_at_noneD)
    obtain k v where kv: "setting key = (k, v)" by (cases "setting key")
    then have kv': "(case cut_at (CHR ''='') key of Some (k, v) \<Rightarrow> (k, v) | None \<Rightarrow> (key, [])) = (k, v)"
      by (simp add: setting_def)
    note IH = "1.IH" [OF False kr [symmetric] refl]
    show ?thesis
      using False IH(1) IH(2) [OF _ kv' [symmetric] refl]
      by (subst parse_loop.simps) (auto simp: kr kv kv' parts)
  qed
qed

lemma map_of_append_value:
  "map_of (append_value k v m) = (map_of m)(k \<mapsto> (case map_of m k of None \<Rightarrow> [] | Some vs \<Rightarrow> vs) @ [v])"
  by (simp add: append_value_def update_conv')

lemma keys_append_value: "distinct (map_keys m) \<Longrightarrow> distinct (map_keys (append_value k v m))"
  by (simp add: append_value_def distinct_update)

text \<open>The values given for a name, in their order.\<close>

definition values_of :: "string \<Rightarrow> string \<Rightarrow> string list" where
  "values_of s name = map snd (filter (\<lambda>(k, v). k = name) (settings s))"

lemma fold_append_value:
  "map_of (fold (\<lambda>(k, v). append_value k v) kvs m) name =
     (let vs = map snd (filter (\<lambda>(k, v). k = name) kvs)
      in if vs = [] then map_of m name
         else Some ((case map_of m name of None \<Rightarrow> [] | Some ws \<Rightarrow> ws) @ vs))"
  by (induction kvs arbitrary: m) (auto simp: Let_def map_of_append_value)

lemma parse_lookup:
  "map_of (URLsMap_parse s) name = (if values_of s name = [] then None else Some (values_of s name))"
  by (simp add: URLsMap_parse_def parse_loop_settings fold_append_value values_of_def Let_def)

lemma parse_distinct: "distinct (map_keys (URLsMap_parse s))"
proof -
  have "distinct (map_keys m) \<Longrightarrow> distinct (map_keys (fold (\<lambda>(k, v). append_value k v) kvs m))" for kvs m
    by (induction kvs arbitrary: m) (auto simp: keys_append_value)
  then show ?thesis by (simp add: URLsMap_parse_def parse_loop_settings)
qed

lemma urls_of_entries_fail: "urls_of_entries ops es cl = Inl e \<Longrightarrow> \<exists>(n, vs) \<in> set es. NewURLs ops vs = Inl e"
  by (induction ops es cl rule: urls_of_entries.induct) (auto split: sum.splits)

lemma urls_of_entries_ok:
  "urls_of_entries ops es cl = Inr cl' \<Longrightarrow> distinct (map_keys es) \<Longrightarrow>
   (case map_of es n of
      None \<Rightarrow> map_of cl' n = map_of cl n
    | Some vs \<Rightarrow> \<exists>us. NewURLs ops vs = Inr us \<and> map_of cl' n = Some us)"
proof (induction ops es cl rule: urls_of_entries.induct)
  case (2 ops name urls es cl)
  from "2.prems"(1) obtain us where us: "NewURLs ops urls = Inr us" by (auto split: sum.splits)
  with "2.prems"(1) have "urls_of_entries ops es (AList.update name us cl) = Inr cl'" by simp
  moreover have "map_of es name = None" using "2.prems"(2) by (auto simp: map_of_eq_None_iff)
  ultimately show ?case using "2.IH" [OF us] "2.prems"(2) us
    by (cases "n = name") (simp_all add: update_conv' cong: option.case_cong)
qed simp

lemma map_of_permuted: "mset es = mset m \<Longrightarrow> distinct (map_keys m) \<Longrightarrow> map_of es = map_of m"
  by (metis map_of_inject_set mset_eq_setD mset_map distinct_count_atmost_1)

section \<open>Properties\<close>

text \<open>\<open>NewURLsMap\<close> maps every name of the setting to the checked and sorted list of all URLs given
  for it, however the names are interleaved, and maps no other name; it fails exactly when the URLs
  of some name do, whatever the iteration order.\<close>

lemma NewURLsMap_result:
  assumes "mset (visit (URLsMap_parse s)) = mset (URLsMap_parse s)"
  shows "case NewURLsMap ops visit s of
      Inl e \<Rightarrow> \<exists>n. values_of s n \<noteq> [] \<and> NewURLs ops (values_of s n) = Inl e
    | Inr cl \<Rightarrow> (\<forall>n. if values_of s n = [] then map_of cl n = None
                      else \<exists>us. NewURLs ops (values_of s n) = Inr us \<and> map_of cl n = Some us)"
proof -
  have m: "map_of (visit (URLsMap_parse s)) = map_of (URLsMap_parse s)"
    using map_of_permuted [OF assms parse_distinct] .
  have d: "distinct (map_keys (visit (URLsMap_parse s)))"
    using assms parse_distinct by (metis mset_map mset_eq_imp_distinct_iff)
  show ?thesis
  proof (cases "NewURLsMap ops visit s")
    case (Inl e)
    then obtain n vs where "(n, vs) \<in> set (visit (URLsMap_parse s))" "NewURLs ops vs = Inl e"
      by (auto simp: NewURLsMap_def dest: urls_of_entries_fail)
    moreover from this(1) d m have "map_of (URLsMap_parse s) n = Some vs" by (metis map_of_is_SomeI)
    ultimately show ?thesis using Inl by (auto simp: parse_lookup split: if_splits)
  next
    case (Inr cl)
    have "if values_of s n = [] then map_of cl n = None
        else \<exists>us. NewURLs ops (values_of s n) = Inr us \<and> map_of cl n = Some us" for n
      using urls_of_entries_ok [of ops "visit (URLsMap_parse s)" "[]" cl n] d m Inr
      by (cases "values_of s n = []") (simp_all add: NewURLsMap_def parse_lookup)
    then show ?thesis using Inr by simp
  qed
qed

text \<open>URLs of the form \<open>http://host:port\<close>, enough for examples.\<close>

definition plain_urls :: "string url_ops" where
  "plain_urls = \<lparr>url_Parse = (\<lambda>s. if HasPrefix s ''http://'' then Inr s else Inl ''missing protocol scheme''),
     url_Scheme = (\<lambda>u. ''http''), url_Host = drop 7, url_Path = (\<lambda>u. []), url_String = id,
     SplitHostPort_ok = (\<lambda>h. CHR '':'' \<in> set h)\<rparr>"

end
