(* ===== verification/Quorum.thy ===== *)
theory Quorum
  imports Etcd_Prelude
begin

text \<open>
  \<open>raft/quorum\<close>: majority and joint configurations and the outcome of a vote on them.

  The specification counts voters as sets: a vote is won when more than half of the voters said
  yes. The locale \<open>vote_outcome\<close> is what an election relies on: outcomes only get decided, a
  decided one is final, and a pending one is really open. Majority and joint configurations
  interpret it.
\<close>

section \<open>Decimal notation\<close>

text \<open>\<open>fmt.Fprint\<close> on an unsigned integer.\<close>

fun decimal :: "nat \<Rightarrow> string" where
  "decimal n = (if n < 10 then [char_of (48 + n)] else decimal (n div 10) @ [char_of (48 + n mod 10)])"

declare decimal.simps [simp del]

section \<open>Vote results\<close>

datatype VoteResult = VotePending | VoteLost | VoteWon

type_synonym MajorityConfig = id_set
type_synonym JointConfig = "MajorityConfig \<times> MajorityConfig"
type_synonym votes = "(u64, bool) gomap"

definition MajorityConfig_Slice :: "MajorityConfig \<Rightarrow> u64 list" where
  "MajorityConfig_Slice c = sort (keys_of c)"

fun spaced :: "string list \<Rightarrow> string" where
  "spaced [] = ''''"
| "spaced [s] = s"
| "spaced (s # ss) = s @ '' '' @ spaced ss"

definition MajorityConfig_String :: "MajorityConfig \<Rightarrow> string" where
  "MajorityConfig_String c = ''('' @ spaced (map (\<lambda>i. decimal (unat i)) (sort (keys_of c))) @ '')''"

text \<open>One turn of the counting loop; the counters are \<open>ny[0]\<close>, \<open>ny[1]\<close> and \<open>missing\<close>.\<close>

definition count_vote :: "votes \<Rightarrow> u64 \<Rightarrow> nat \<times> nat \<times> nat \<Rightarrow> nat \<times> nat \<times> nat" where
  "count_vote votes i = (\<lambda>(no, yes, missing).
     case map_of votes i of
       None \<Rightarrow> (no, yes, missing + 1)
     | Some True \<Rightarrow> (no, yes + 1, missing)
     | Some False \<Rightarrow> (no + 1, yes, missing))"

definition MajorityConfig_VoteResult :: "MajorityConfig \<Rightarrow> votes \<Rightarrow> VoteResult" where
  "MajorityConfig_VoteResult c votes =
     (if length (keys_of c) = 0 then VoteWon
      else let (no, yes, missing) = fold (count_vote votes) (keys_of c) (0, 0, 0);
               q = length (keys_of c) div 2 + 1
           in if q \<le> yes then VoteWon
              else if q \<le> yes + missing then VotePending
              else VoteLost)"

definition JointConfig_String :: "JointConfig \<Rightarrow> string" where
  "JointConfig_String c =
     (if 0 < length (keys_of (snd c))
      then MajorityConfig_String (fst c) @ ''&&'' @ MajorityConfig_String (snd c)
      else MajorityConfig_String (fst c))"

text \<open>The new map of \<open>IDs\<close>, filled from both halves.\<close>

definition JointConfig_IDs :: "JointConfig \<Rightarrow> u64 list" where
  "JointConfig_IDs c = fold List.insert (keys_of (snd c)) (fold List.insert (keys_of (fst c)) [])"

definition JointConfig_VoteResult :: "JointConfig \<Rightarrow> votes \<Rightarrow> VoteResult" where
  "JointConfig_VoteResult c votes =
     (let r1 = MajorityConfig_VoteResult (fst c) votes;
          r2 = MajorityConfig_VoteResult (snd c) votes
      in if r1 = r2 then r1
         else if r1 = VoteLost \<or> r2 = VoteLost then VoteLost
         else VotePending)"

section \<open>Counting\<close>

definition yes_votes :: "MajorityConfig \<Rightarrow> votes \<Rightarrow> u64 set" where
  "yes_votes c votes = {i \<in> set (keys_of c). map_of votes i = Some True}"

definition no_votes :: "MajorityConfig \<Rightarrow> votes \<Rightarrow> u64 set" where
  "no_votes c votes = {i \<in> set (keys_of c). map_of votes i = Some False}"

abbreviation config_wf :: "MajorityConfig \<Rightarrow> bool" where
  "config_wf c \<equiv> distinct (keys_of c)"

definition joint_wf :: "JointConfig \<Rightarrow> bool" where
  "joint_wf c \<longleftrightarrow> config_wf (fst c) \<and> config_wf (snd c)"

lemma fold_insert_set [simp]: "set (fold List.insert xs ys) = set xs \<union> set ys"
  by (induction xs arbitrary: ys) auto

lemma fold_insert_distinct: "distinct ys \<Longrightarrow> distinct (fold List.insert xs ys)"
  by (induction xs arbitrary: ys) auto

lemma JointConfig_IDs_set: "set (JointConfig_IDs c) = set (keys_of (fst c)) \<union> set (keys_of (snd c))"
  by (auto simp: JointConfig_IDs_def)

lemma JointConfig_IDs_distinct: "distinct (JointConfig_IDs c)"
  by (simp add: JointConfig_IDs_def fold_insert_distinct)

lemma fold_count_vote:
  "fold (count_vote votes) xs (a, b, c) =
     (a + length (filter (\<lambda>i. map_of votes i = Some False) xs),
      b + length (filter (\<lambda>i. map_of votes i = Some True) xs),
      c + length (filter (\<lambda>i. map_of votes i = None) xs))"
  by (induction xs arbitrary: a b c) (auto simp: count_vote_def split: option.split bool.split)

lemma filter_three:
  "length (filter (\<lambda>i. f i = Some False) xs) + length (filter (\<lambda>i. f i = Some True) xs)
     + length (filter (\<lambda>i. f i = None) xs) = length xs"
proof (induction xs)
  case (Cons a xs)
  then show ?case by (cases "f a") auto
qed simp

lemma quorum_arith: "n + y + m = l \<Longrightarrow> (l < 2 * (y + m)) = (\<not> l \<le> 2 * n)" for n y m l :: nat
  by presburger

lemma VoteResult_counts:
  assumes "config_wf c"
  shows "MajorityConfig_VoteResult c votes =
    (if keys_of c = [] then VoteWon
     else if length (keys_of c) < 2 * card (yes_votes c votes) then VoteWon
     else if length (keys_of c) \<le> 2 * card (no_votes c votes) then VoteLost
     else VotePending)"
proof -
  let ?n = "length (filter (\<lambda>i. map_of votes i = Some False) (keys_of c))"
  let ?y = "length (filter (\<lambda>i. map_of votes i = Some True) (keys_of c))"
  let ?m = "length (filter (\<lambda>i. map_of votes i = None) (keys_of c))"
  have y: "?y = card (yes_votes c votes)" and n: "?n = card (no_votes c votes)"
    using assms by (simp_all add: yes_votes_def no_votes_def length_filter_card)
  have t: "?n + ?y + ?m = length (keys_of c)" by (rule filter_three)
  have q: "(length (keys_of c) div 2 + 1 \<le> k) = (length (keys_of c) < 2 * k)" for k
    by (intro iffI) linarith+
  have "(length (keys_of c) < 2 * (?y + ?m)) = (\<not> length (keys_of c) \<le> 2 * ?n)"
    using t by (rule quorum_arith)
  then show ?thesis
    unfolding MajorityConfig_VoteResult_def fold_count_vote
    by (simp only: q y n Let_def split add_0_left length_0_conv) (simp add: y n)
qed

section \<open>What an election relies on\<close>

text \<open>\<open>extends v v'\<close>: votes are only added, never changed.\<close>

definition extends :: "votes \<Rightarrow> votes \<Rightarrow> bool" where
  "extends v v' \<longleftrightarrow> map_of v \<subseteq>\<^sub>m map_of v'"

lemma extends_refl [simp]: "extends v v"
  by (simp add: extends_def)

locale vote_outcome =
  fixes result :: "'c \<Rightarrow> votes \<Rightarrow> VoteResult" and wf :: "'c \<Rightarrow> bool"
  assumes won_final: "wf c \<Longrightarrow> result c v = VoteWon \<Longrightarrow> extends v v' \<Longrightarrow> result c v' = VoteWon"
    and lost_final: "wf c \<Longrightarrow> result c v = VoteLost \<Longrightarrow> extends v v' \<Longrightarrow> result c v' = VoteLost"
    and pending_winnable: "wf c \<Longrightarrow> result c v = VotePending \<Longrightarrow> \<exists>v'. extends v v' \<and> result c v' = VoteWon"
    and pending_losable: "wf c \<Longrightarrow> result c v = VotePending \<Longrightarrow> \<exists>v'. extends v v' \<and> result c v' = VoteLost"
begin

lemma decided_final:
  "wf c \<Longrightarrow> result c v \<noteq> VotePending \<Longrightarrow> extends v v' \<Longrightarrow> result c v' = result c v"
proof (cases "result c v")
  case VoteLost
  then show "wf c \<Longrightarrow> extends v v' \<Longrightarrow> ?thesis" using lost_final [of c v v'] by argo
next
  case VoteWon
  then show "wf c \<Longrightarrow> extends v v' \<Longrightarrow> ?thesis" using won_final [of c v v'] by argo
qed simp

lemma pending_iff_open:
  assumes "wf c"
  shows "result c v = VotePending \<longleftrightarrow>
    (\<exists>v'. extends v v' \<and> result c v' = VoteWon) \<and> (\<exists>v'. extends v v' \<and> result c v' = VoteLost)"
proof
  assume "result c v = VotePending"
  with assms show "(\<exists>v'. extends v v' \<and> result c v' = VoteWon) \<and> (\<exists>v'. extends v v' \<and> result c v' = VoteLost)"
    using pending_winnable pending_losable by blast
next
  assume "(\<exists>v'. extends v v' \<and> result c v' = VoteWon) \<and> (\<exists>v'. extends v v' \<and> result c v' = VoteLost)"
  then obtain v1 v2 where "extends v v1" "result c v1 = VoteWon" "extends v v2" "result c v2 = VoteLost"
    by blast
  then show "result c v = VotePending"
    using decided_final [OF assms, of v v1] decided_final [OF assms, of v v2] by fastforce
qed

end

text \<open>Everybody who has not voted votes \<open>b\<close>.\<close>

definition fill :: "bool \<Rightarrow> u64 list \<Rightarrow> votes \<Rightarrow> votes" where
  "fill b ids v = v @ map (\<lambda>i. (i, b)) (filter (\<lambda>i. map_of v i = None) ids)"

lemma extends_fill: "extends v (fill b ids v)"
  by (auto simp: extends_def fill_def map_le_def map_add_def)

lemma map_of_fill: "i \<in> set ids \<Longrightarrow> map_of (fill b ids v) i = (case map_of v i of None \<Rightarrow> Some b | Some x \<Rightarrow> Some x)"
proof -
  assume i: "i \<in> set ids"
  have "map_of (map (\<lambda>i. (i, b)) xs) i = (if i \<in> set xs then Some b else None)" for xs
    by (induction xs) auto
  with i show ?thesis by (simp add: fill_def map_add_def split: option.split)
qed

lemma yes_votes_mono: "extends v v' \<Longrightarrow> yes_votes c v \<subseteq> yes_votes c v'"
  by (auto simp: extends_def yes_votes_def map_le_def dom_def)

lemma no_votes_mono: "extends v v' \<Longrightarrow> no_votes c v \<subseteq> no_votes c v'"
  by (auto simp: extends_def no_votes_def map_le_def dom_def)

lemma finite_votes [simp]: "finite (yes_votes c v)" "finite (no_votes c v)"
  by (simp_all add: yes_votes_def no_votes_def)

lemma yes_no_disjoint: "config_wf c \<Longrightarrow> card (yes_votes c v) + card (no_votes c v) \<le> length (keys_of c)"
proof -
  assume "config_wf c"
  have "card (yes_votes c v) + card (no_votes c v) = card (yes_votes c v \<union> no_votes c v)"
    by (rule card_Un_disjoint [symmetric]) (auto simp: yes_votes_def no_votes_def)
  also have "\<dots> \<le> card (set (keys_of c))"
    by (rule card_mono) (auto simp: yes_votes_def no_votes_def)
  finally show ?thesis using \<open>config_wf c\<close> by (simp add: distinct_card)
qed

lemma fill_yes:
  assumes "set (keys_of c) \<subseteq> set ids"
  shows "yes_votes c (fill True ids v) = set (keys_of c) - no_votes c v"
  using assms by (auto simp: yes_votes_def no_votes_def map_of_fill subset_iff split: option.splits)

lemma fill_no:
  assumes "set (keys_of c) \<subseteq> set ids"
  shows "no_votes c (fill False ids v) = set (keys_of c) - yes_votes c v"
  using assms by (auto simp: yes_votes_def no_votes_def map_of_fill subset_iff split: option.splits)

lemma fill_wins:
  assumes "config_wf c" and "MajorityConfig_VoteResult c v \<noteq> VoteLost" and "set (keys_of c) \<subseteq> set ids"
  shows "MajorityConfig_VoteResult c (fill True ids v) = VoteWon"
proof -
  have "card (yes_votes c (fill True ids v)) = length (keys_of c) - card (no_votes c v)"
    using assms(1) by (simp add: fill_yes [OF assms(3)] card_Diff_subset distinct_card no_votes_def)
  moreover have "keys_of c \<noteq> [] \<Longrightarrow> 2 * card (no_votes c v) < length (keys_of c)"
    using assms(1,2) yes_no_disjoint [OF assms(1), of v]
    by (simp add: VoteResult_counts split: if_splits)
  ultimately show ?thesis using assms(1) by (cases "keys_of c = []") (simp_all add: VoteResult_counts)
qed

lemma fill_loses:
  assumes "config_wf c" and "MajorityConfig_VoteResult c v = VotePending" and "set (keys_of c) \<subseteq> set ids"
  shows "MajorityConfig_VoteResult c (fill False ids v) = VoteLost"
proof -
  have n: "card (no_votes c (fill False ids v)) = length (keys_of c) - card (yes_votes c v)"
    using assms(1) by (simp add: fill_no [OF assms(3)] card_Diff_subset distinct_card yes_votes_def)
  have p: "keys_of c \<noteq> []" "2 * card (yes_votes c v) \<le> length (keys_of c)"
    using assms(1,2) by (simp_all add: VoteResult_counts split: if_splits)
  have "card (yes_votes c (fill False ids v)) + card (no_votes c (fill False ids v)) \<le> length (keys_of c)"
    using assms(1) by (rule yes_no_disjoint)
  with n p have "\<not> length (keys_of c) < 2 * card (yes_votes c (fill False ids v))"
    and "length (keys_of c) \<le> 2 * card (no_votes c (fill False ids v))" by linarith+
  with p assms(1) show ?thesis by (simp add: VoteResult_counts)
qed

lemma majority_won_final:
  assumes "config_wf c" and "MajorityConfig_VoteResult c v = VoteWon" and "extends v v'"
  shows "MajorityConfig_VoteResult c v' = VoteWon"
  using assms card_mono [OF _ yes_votes_mono [OF assms(3)], of c]
  by (auto simp: VoteResult_counts split: if_splits)

lemma majority_lost_final:
  assumes "config_wf c" and "MajorityConfig_VoteResult c v = VoteLost" and "extends v v'"
  shows "MajorityConfig_VoteResult c v' = VoteLost"
  using assms card_mono [OF _ no_votes_mono [OF assms(3)], of c] yes_no_disjoint [OF assms(1), of v']
  by (auto simp: VoteResult_counts split: if_splits)

interpretation majority: vote_outcome MajorityConfig_VoteResult "\<lambda>c. config_wf c"
proof
  fix c :: MajorityConfig and v :: votes
  assume "config_wf c" "MajorityConfig_VoteResult c v = VotePending"
  then show "\<exists>v'. extends v v' \<and> MajorityConfig_VoteResult c v' = VoteWon"
    and "\<exists>v'. extends v v' \<and> MajorityConfig_VoteResult c v' = VoteLost"
    using extends_fill fill_wins [of c v "keys_of c"] fill_loses [of c v "keys_of c"]
    by (metis VoteResult.distinct(1) order_refl)+
qed (rule majority_won_final majority_lost_final; assumption)+

lemma joint_result_cases:
  "JointConfig_VoteResult c v = VoteWon \<longleftrightarrow>
     MajorityConfig_VoteResult (fst c) v = VoteWon \<and> MajorityConfig_VoteResult (snd c) v = VoteWon"
  "JointConfig_VoteResult c v = VoteLost \<longleftrightarrow>
     MajorityConfig_VoteResult (fst c) v = VoteLost \<or> MajorityConfig_VoteResult (snd c) v = VoteLost"
  by (auto simp: JointConfig_VoteResult_def Let_def)

lemma joint_pending:
  "JointConfig_VoteResult c v = VotePending \<Longrightarrow>
     MajorityConfig_VoteResult (fst c) v \<noteq> VoteLost \<and> MajorityConfig_VoteResult (snd c) v \<noteq> VoteLost \<and>
     (MajorityConfig_VoteResult (fst c) v = VotePending \<or> MajorityConfig_VoteResult (snd c) v = VotePending)"
  by (cases "MajorityConfig_VoteResult (fst c) v"; cases "MajorityConfig_VoteResult (snd c) v")
    (auto simp: JointConfig_VoteResult_def Let_def)

interpretation joint_vote: vote_outcome JointConfig_VoteResult joint_wf
proof
  fix c :: JointConfig and v v' :: votes
  assume wf: "joint_wf c"
  let ?ids = "JointConfig_IDs c"
  {
    assume "JointConfig_VoteResult c v = VotePending"
    from joint_pending [OF this] wf show "\<exists>v'. extends v v' \<and> JointConfig_VoteResult c v' = VoteWon"
      and "\<exists>v'. extends v v' \<and> JointConfig_VoteResult c v' = VoteLost"
      using extends_fill fill_wins [of "fst c" v ?ids] fill_wins [of "snd c" v ?ids]
        fill_loses [of "fst c" v ?ids] fill_loses [of "snd c" v ?ids]
      by (auto simp: joint_result_cases joint_wf_def JointConfig_IDs_set)
  }
  assume "extends v v'"
  with wf show "JointConfig_VoteResult c v = VoteWon \<Longrightarrow> JointConfig_VoteResult c v' = VoteWon"
    and "JointConfig_VoteResult c v = VoteLost \<Longrightarrow> JointConfig_VoteResult c v' = VoteLost"
    by (auto simp: joint_result_cases joint_wf_def intro: majority.won_final majority.lost_final)
qed

section \<open>Properties\<close>

lemma majorities_meet:
  assumes "finite U" and "A \<subseteq> U" and "B \<subseteq> U" and "card U < card A + card B"
  shows "A \<inter> B \<noteq> {}"
proof
  assume "A \<inter> B = {}"
  with assms have "card A + card B = card (A \<union> B)"
    by (metis card_Un_disjoint finite_subset)
  also have "\<dots> \<le> card U" using assms by (intro card_mono) auto
  finally show False using assms(4) by simp
qed

text \<open>C1: Two votes that a non-empty configuration both counts as won have a voter in common who
  said yes in both: no two different candidates can win the same term.\<close>

theorem won_quorums_intersect:
  assumes "config_wf c" and "keys_of c \<noteq> []"
    and "MajorityConfig_VoteResult c v = VoteWon" and "MajorityConfig_VoteResult c v' = VoteWon"
  shows "\<exists>i \<in> set (keys_of c). map_of v i = Some True \<and> map_of v' i = Some True"
proof -
  have "card (set (keys_of c)) < card (yes_votes c v) + card (yes_votes c v')"
    using assms by (auto simp: VoteResult_counts distinct_card split: if_splits)
  then have "yes_votes c v \<inter> yes_votes c v' \<noteq> {}"
    by (intro majorities_meet [of "set (keys_of c)"]) (auto simp: yes_votes_def)
  then show ?thesis by (auto simp: yes_votes_def)
qed

theorem won_quorums_intersect_witness:
  "\<exists>i \<in> set (keys_of (Some [1, 2, 3])).
     map_of [(1, True), (2, True)] i = Some True \<and> map_of [(2, True), (3, True), (1, False)] i = Some True"
  by (rule won_quorums_intersect; code_simp)

text \<open>The result of a joint vote is pending exactly when it is still open: some way of
  casting the missing votes wins it and some way loses it. In particular a decided vote is final.\<close>

lemma joint_pending_iff_open:
  assumes "joint_wf c"
  shows "JointConfig_VoteResult c v = VotePending \<longleftrightarrow>
    (\<exists>v'. extends v v' \<and> JointConfig_VoteResult c v' = VoteWon) \<and>
    (\<exists>v'. extends v v' \<and> JointConfig_VoteResult c v' = VoteLost)"
  using assms by (rule joint_vote.pending_iff_open)

text \<open>A joint vote is won exactly when each non-empty half has more than half of its voters
  in favour, and lost exactly when one non-empty half can no longer get there.\<close>

lemma joint_result_counts:
  assumes "joint_wf c"
  shows "(JointConfig_VoteResult c v = VoteWon \<longleftrightarrow>
      (\<forall>h \<in> {fst c, snd c}. keys_of h = [] \<or> length (keys_of h) < 2 * card (yes_votes h v))) \<and>
    (JointConfig_VoteResult c v = VoteLost \<longleftrightarrow>
      (\<exists>h \<in> {fst c, snd c}. keys_of h \<noteq> [] \<and> length (keys_of h) \<le> 2 * card (no_votes h v)))"
  using assms yes_no_disjoint [of "fst c" v] yes_no_disjoint [of "snd c" v]
  by (auto simp: joint_result_cases joint_wf_def VoteResult_counts)

end
