(* ===== verification/Membership.thy ===== *)
theory Membership
  imports Id_Util Urls Quorum
begin

unbundle bit_operations_syntax

text \<open>
  \<open>etcdserver/api/membership\<close>: the members of a cluster, the cluster built from the map of initial
  URLs, the derived identifiers and the keys members are stored under.

  SHA-1 is an argument; its result, an array of 20 bytes, is a word of 160 bits, whose first eight
  bytes read in big-endian order are its highest 64 bits. The version type of the semver package and
  the backend are type variables.
\<close>

section \<open>Bytes\<close>

type_synonym sha1 = "bytes \<Rightarrow> 160 word"

text \<open>\<open>binary.BigEndian\<close>: writing a \<open>uint64\<close>, and reading the first eight bytes of a hash.\<close>

definition PutUint64 :: "u64 \<Rightarrow> bytes" where
  "PutUint64 v = map (\<lambda>k. ucast (drop_bit (56 - 8 * k) v)) [0..<8]"

definition hash_id :: "160 word \<Rightarrow> u64" where
  "hash_id h = ucast (drop_bit 96 h)"

section \<open>Member\<close>

record Member =
  mb_ID :: ID
  mb_PeerURLs :: "string list option"
  mb_IsLearner :: bool
  mb_Name :: string
  mb_ClientURLs :: "string list option"

definition newMember ::
  "sha1 \<Rightarrow> 'u url_ops \<Rightarrow> string \<Rightarrow> 'u URLs \<Rightarrow> string \<Rightarrow> nat option \<Rightarrow> bool \<Rightarrow> Member" where
  "newMember sha1 ops name peerURLs clusterName now isLearner =
     (let urls = sort (URLs_StringSlice ops peerURLs);
          b = string_bytes (concat urls) @ string_bytes clusterName @
              (case now of None \<Rightarrow> [] | Some t \<Rightarrow> string_bytes (decimal t))
      in \<lparr>mb_ID = hash_id (sha1 b), mb_PeerURLs = Some urls, mb_IsLearner = isLearner, mb_Name = name,
          mb_ClientURLs = None\<rparr>)"

definition NewMember :: "sha1 \<Rightarrow> 'u url_ops \<Rightarrow> string \<Rightarrow> 'u URLs \<Rightarrow> string \<Rightarrow> nat option \<Rightarrow> Member" where
  "NewMember sha1 ops name peerURLs clusterName now =
     newMember sha1 ops name peerURLs clusterName now False"

text \<open>\<open>Clone\<close> of a pointer, nil included; the slices are copied element by element.\<close>

definition clone_strings :: "string list option \<Rightarrow> string list option" where
  "clone_strings ss = (case ss of None \<Rightarrow> None | Some xs \<Rightarrow> Some (map (\<lambda>i. xs ! i) [0..<length xs]))"

definition Member_Clone :: "Member option \<Rightarrow> Member option" where
  "Member_Clone m =
     (case m of
        None \<Rightarrow> None
      | Some m \<Rightarrow> Some \<lparr>mb_ID = mb_ID m, mb_PeerURLs = clone_strings (mb_PeerURLs m),
          mb_IsLearner = mb_IsLearner m, mb_Name = mb_Name m, mb_ClientURLs = clone_strings (mb_ClientURLs m)\<rparr>)"

definition IsStarted :: "Member \<Rightarrow> bool" where
  "IsStarted m = (length (mb_Name m) \<noteq> 0)"

definition MembersByID_Less :: "Member list \<Rightarrow> nat \<Rightarrow> nat \<Rightarrow> bool option" where
  "MembersByID_Less ms i j = less_by mb_ID ms i j"

definition MembersByID_Swap :: "Member list \<Rightarrow> nat \<Rightarrow> nat \<Rightarrow> Member list option" where
  "MembersByID_Swap ms i j = exchange ms i j"

interpretation members_by_id: sort_interface mb_ID MembersByID_Less MembersByID_Swap
  by unfold_locales (auto simp: MembersByID_Less_def MembersByID_Swap_def less_by_nth dest: mset_exchange)

section \<open>RaftCluster\<close>

record ('v, 'b) RaftCluster =
  rc_localID :: ID
  rc_cid :: ID
  rc_token :: string
  rc_be :: "'b option"
  rc_version :: "'v option"
  rc_members :: "(ID, Member) gomap"
  rc_removed :: "(ID, bool) gomap"

datatype cluster_error = ErrSameID Member | ErrIDNone

definition NewCluster :: "string \<Rightarrow> ('v, 'b) RaftCluster" where
  "NewCluster token = \<lparr>rc_localID = 0, rc_cid = 0, rc_token = token, rc_be = None, rc_version = None,
     rc_members = [], rc_removed = []\<rparr>"

definition MemberIDs :: "('v, 'b) RaftCluster \<Rightarrow> ID list" where
  "MemberIDs c = sort (map (\<lambda>(i, m). mb_ID m) (rc_members c))"

definition genID :: "sha1 \<Rightarrow> ('v, 'b) RaftCluster \<Rightarrow> ('v, 'b) RaftCluster" where
  "genID sha1 c = c\<lparr>rc_cid := hash_id (sha1 (concat (map PutUint64 (MemberIDs c))))\<rparr>"

fun add_members ::
  "sha1 \<Rightarrow> 'u url_ops \<Rightarrow> string \<Rightarrow> 'u URLsMap \<Rightarrow> (ID, Member) gomap \<Rightarrow> cluster_error + (ID, Member) gomap" where
  "add_members sha1 ops token [] ms = Inr ms"
| "add_members sha1 ops token ((name, urls) # es) ms =
     (let m = NewMember sha1 ops name urls token None in
      if map_of ms (mb_ID m) \<noteq> None then Inl (ErrSameID m)
      else if mb_ID m = 0 then Inl ErrIDNone
      else add_members sha1 ops token es (AList.update (mb_ID m) m ms))"

definition NewClusterFromURLsMap ::
  "sha1 \<Rightarrow> 'u url_ops \<Rightarrow> ('u URLsMap \<Rightarrow> 'u URLsMap) \<Rightarrow> string \<Rightarrow> 'u URLsMap \<Rightarrow>
   cluster_error + ('v, 'b) RaftCluster" where
  "NewClusterFromURLsMap sha1 ops visit token urlsmap =
     (let c = NewCluster token in
      case add_members sha1 ops token (visit urlsmap) (rc_members c) of
        Inl e \<Rightarrow> Inl e
      | Inr ms \<Rightarrow> Inr (genID sha1 (c\<lparr>rc_members := ms\<rparr>)))"

definition cluster_Members :: "('v, 'b) RaftCluster \<Rightarrow> Member list" where
  "cluster_Members c = sort_key mb_ID (map (\<lambda>(i, m). the (Member_Clone (Some m))) (rc_members c))"

definition cluster_Member :: "ID \<Rightarrow> ('v, 'b) RaftCluster \<Rightarrow> Member option" where
  "cluster_Member i c = Member_Clone (map_of (rc_members c) i)"

text \<open>The loop of \<open>MemberByName\<close>: a second member of the name panics when there is a logger.\<close>

fun by_name :: "bool \<Rightarrow> string \<Rightarrow> Member list \<Rightarrow> Member option \<Rightarrow> Member option option" where
  "by_name lg name [] memb = Some memb"
| "by_name lg name (m # ms) memb =
     (if mb_Name m = name
      then if memb \<noteq> None \<and> lg then None else by_name lg name ms (Some m)
      else by_name lg name ms memb)"

definition MemberByName :: "bool \<Rightarrow> string \<Rightarrow> ('v, 'b) RaftCluster \<Rightarrow> Member option option" where
  "MemberByName lg name c =
     do { memb \<leftarrow> by_name lg name (map snd (rc_members c)) None; Some (Member_Clone memb) }"

definition IsIDRemoved :: "ID \<Rightarrow> ('v, 'b) RaftCluster \<Rightarrow> bool" where
  "IsIDRemoved i c = (map_of (rc_removed c) i = Some True)"

definition SetID :: "ID \<Rightarrow> ID \<Rightarrow> ('v, 'b) RaftCluster \<Rightarrow> ('v, 'b) RaftCluster" where
  "SetID localID cid c = c\<lparr>rc_localID := localID, rc_cid := cid\<rparr>"

definition SetBackend :: "'b \<Rightarrow> ('v, 'b) RaftCluster \<Rightarrow> ('v, 'b) RaftCluster" where
  "SetBackend be c = c\<lparr>rc_be := Some be\<rparr>"

text \<open>\<open>UpdateAttributes\<close> takes the lock and does nothing.\<close>

definition UpdateAttributes ::
  "ID \<Rightarrow> string \<times> string list \<Rightarrow> ('v, 'b) RaftCluster \<Rightarrow> ('v, 'b) RaftCluster" where
  "UpdateAttributes i attr c = c"

text \<open>\<open>semver.Must(semver.NewVersion(v.String()))\<close> is the argument \<open>reparse\<close>.\<close>

definition cluster_Version :: "('v \<Rightarrow> 'v option) \<Rightarrow> ('v, 'b) RaftCluster \<Rightarrow> 'v option option" where
  "cluster_Version reparse c =
     (case rc_version c of None \<Rightarrow> Some None | Some v \<Rightarrow> map_option Some (reparse v))"

section \<open>Keys of the store\<close>

definition storePrefix :: string where
  "storePrefix = ''/0''"

definition StoreMembersPrefix :: string where
  "StoreMembersPrefix = path_Join [storePrefix, ''members'']"

definition MemberStoreKey :: "ID \<Rightarrow> string" where
  "MemberStoreKey i = path_Join [StoreMembersPrefix, ID_String i]"

definition StoreClusterVersionKey :: string where
  "StoreClusterVersionKey = path_Join [storePrefix, ''version'']"

definition MemberAttributesStorePath :: "ID \<Rightarrow> string" where
  "MemberAttributesStorePath i = path_Join [MemberStoreKey i, ''attributes'']"

text \<open>A parse error is printed and the value returned all the same.\<close>

definition MustParseMemberIDFromKey :: "string \<Rightarrow> ID" where
  "MustParseMemberIDFromKey key = fst (IDFromString (path_Base key))"

section \<open>Lemmas\<close>

lemma Member_Clone_same [simp]: "Member_Clone m = m"
  by (auto simp: Member_Clone_def clone_strings_def map_nth split: option.splits)

abbreviation initial_member :: "sha1 \<Rightarrow> 'u url_ops \<Rightarrow> string \<Rightarrow> string \<times> 'u URLs \<Rightarrow> Member" where
  "initial_member sha1 ops token e \<equiv> NewMember sha1 ops (fst e) (snd e) token None"

definition initial_ids :: "sha1 \<Rightarrow> 'u url_ops \<Rightarrow> string \<Rightarrow> 'u URLsMap \<Rightarrow> ID list" where
  "initial_ids sha1 ops token es = map (\<lambda>e. mb_ID (initial_member sha1 ops token e)) es"

lemma add_members_result:
  "if distinct (initial_ids sha1 ops token es) \<and> 0 \<notin> set (initial_ids sha1 ops token es) \<and>
      set (initial_ids sha1 ops token es) \<inter> set (map_keys ms) = {}
   then add_members sha1 ops token es ms =
     Inr (ms @ map (\<lambda>e. (mb_ID (initial_member sha1 ops token e), initial_member sha1 ops token e)) es)
   else \<exists>e. add_members sha1 ops token es ms = Inl e"
proof (induction es arbitrary: ms)
  case Nil
  then show ?case by (simp add: initial_ids_def)
next
  case (Cons e es)
  obtain name urls where e: "e = (name, urls)" by (cases e)
  let ?m = "initial_member sha1 ops token e"
  show ?case
  proof (cases "map_of ms (mb_ID ?m) = None \<and> mb_ID ?m \<noteq> 0")
    case True
    then have u: "AList.update (mb_ID ?m) ?m ms = ms @ [(mb_ID ?m, ?m)]" by (simp add: update_new_key)
    have "add_members sha1 ops token (e # es) ms = add_members sha1 ops token es (ms @ [(mb_ID ?m, ?m)])"
      using True u by (simp add: e Let_def)
    moreover have "mb_ID ?m \<notin> set (map_keys ms)" using True by (simp add: map_of_None_keys)
    moreover from this have "distinct (initial_ids sha1 ops token (e # es)) \<and>
        0 \<notin> set (initial_ids sha1 ops token (e # es)) \<and>
        set (initial_ids sha1 ops token (e # es)) \<inter> set (map_keys ms) = {} \<longleftrightarrow>
      distinct (initial_ids sha1 ops token es) \<and> 0 \<notin> set (initial_ids sha1 ops token es) \<and>
        set (initial_ids sha1 ops token es) \<inter> set (map_keys (ms @ [(mb_ID ?m, ?m)])) = {}"
      using True by (auto simp: initial_ids_def)
    ultimately show ?thesis using Cons.IH [of "ms @ [(mb_ID ?m, ?m)]"]
      by (simp only: append_assoc append_Cons append_Nil list.map)
  next
    case False
    then have "\<exists>x. add_members sha1 ops token (e # es) ms = Inl x" by (auto simp: e Let_def)
    moreover have "mb_ID ?m \<in> set (map_keys ms) \<or> mb_ID ?m = 0" using False by (auto simp: map_of_None_keys)
    ultimately show ?thesis by (auto simp: initial_ids_def)
  qed
qed

lemma cluster_result:
  "if distinct (initial_ids sha1 ops token (visit m)) \<and> 0 \<notin> set (initial_ids sha1 ops token (visit m))
   then (NewClusterFromURLsMap sha1 ops visit token m :: cluster_error + ('v, 'b) RaftCluster) = Inr (genID sha1 ((NewCluster token)\<lparr>rc_members :=
     map (\<lambda>e. (mb_ID (initial_member sha1 ops token e), initial_member sha1 ops token e)) (visit m)\<rparr>))
   else \<exists>e. (NewClusterFromURLsMap sha1 ops visit token m :: cluster_error + ('v, 'b) RaftCluster) = Inl e"
  using add_members_result [of sha1 ops token "visit m" "[]"]
  by (auto simp: NewClusterFromURLsMap_def NewCluster_def)

lemma MemberIDs_initial:
  "MemberIDs (genID sha1 ((NewCluster token)\<lparr>rc_members :=
     map (\<lambda>e. (mb_ID (initial_member sha1 ops token e), initial_member sha1 ops token e)) es\<rparr>)) =
   sort (initial_ids sha1 ops token es)"
  by (simp add: MemberIDs_def genID_def initial_ids_def comp_def)

lemma by_name_unique:
  assumes "distinct (map mb_Name ms)"
  shows "by_name lg name ms None = Some (find (\<lambda>m. mb_Name m = name) ms)"
proof -
  have skip: "name \<notin> mb_Name ` set ms \<Longrightarrow> by_name lg name ms memb = Some memb" for ms memb name
    by (induction ms) auto
  show ?thesis using assms by (induction ms) (auto simp: skip)
qed

lemma initial_member_fields [simp]:
  "mb_Name (initial_member sha1 ops token e) = fst e"
  "mb_PeerURLs (initial_member sha1 ops token e) = Some (sort (URLs_StringSlice ops (snd e)))"
  "mb_IsLearner (initial_member sha1 ops token e) = False"
  by (simp_all add: NewMember_def newMember_def Let_def)

lemma find_initial:
  "distinct (map_keys es) \<Longrightarrow> e \<in> set es \<Longrightarrow>
   find (\<lambda>m. mb_Name m = fst e) (map (initial_member sha1 ops token) es) = Some (initial_member sha1 ops token e)"
  by (induction es) (auto simp: rev_image_eqI)

section \<open>Properties\<close>

text \<open>C35: The cluster built from the initial URLs does not depend on the order in which the map is
  visited: with two different orders either both attempts fail, or both give the same members under
  the same IDs and the same cluster ID.\<close>

theorem initial_cluster_order_free:
  assumes "mset (visit m) = mset m" and "mset (visit' m) = mset m"
  shows "case (NewClusterFromURLsMap sha1 ops visit token m :: cluster_error + ('v, 'b) RaftCluster,
               NewClusterFromURLsMap sha1 ops visit' token m :: cluster_error + ('v, 'b) RaftCluster) of
      (Inl e, Inl e') \<Rightarrow> True
    | (Inr c, Inr c') \<Rightarrow> map_of (rc_members c) = map_of (rc_members c') \<and> MemberIDs c = MemberIDs c' \<and>
        cluster_Members c = cluster_Members c' \<and> rc_cid c = rc_cid c'
    | _ \<Rightarrow> False"
proof -
  let ?mem = "\<lambda>e. (mb_ID (initial_member sha1 ops token e), initial_member sha1 ops token e)"
  let ?new = "\<lambda>w. NewClusterFromURLsMap sha1 ops w token m :: cluster_error + ('v, 'b) RaftCluster"
  let ?ids = "\<lambda>w. initial_ids sha1 ops token (w m)"
  have ids: "mset (?ids visit) = mset (?ids visit')" using assms by (simp add: initial_ids_def)
  have d: "distinct (?ids visit) \<longleftrightarrow> distinct (?ids visit')" using mset_eq_imp_distinct_iff [OF ids] .
  have z: "set (?ids visit) = set (?ids visit')" using mset_eq_setD [OF ids] .
  show ?thesis
  proof (cases "distinct (?ids visit) \<and> 0 \<notin> set (?ids visit)")
    case False
    then obtain e e' where "?new visit = Inl e" "?new visit' = Inl e'"
      using cluster_result [where ?'v = 'v and ?'b = 'b, of sha1 ops token visit m]
        cluster_result [where ?'v = 'v and ?'b = 'b, of sha1 ops token visit' m] d z by (metis (no_types, lifting))
    then show ?thesis by simp
  next
    case True
    have ok: "?new w = Inr (genID sha1 ((NewCluster token)\<lparr>rc_members := map ?mem (w m)\<rparr>))"
      if "w = visit \<or> w = visit'" for w
      using that True cluster_result [of sha1 ops token w m] d z by auto
    have "map_of (map ?mem (visit m)) = map_of (map ?mem (visit' m))"
      by (rule map_of_permuted) (use assms True d in \<open>simp_all add: initial_ids_def comp_def\<close>)
    moreover have "sort (?ids visit) = sort (?ids visit')"
      using ids by (metis properties_for_sort mset_sort sorted_sort)
    moreover have "sort_key mb_ID (map (initial_member sha1 ops token) (visit m)) =
        sort_key mb_ID (map (initial_member sha1 ops token) (visit' m))"
    proof (rule sort_key_inj_key_eq)
      have "distinct (map mb_ID (map (initial_member sha1 ops token) (visit m)))"
        using True by (simp add: initial_ids_def comp_def)
      then show "inj_on mb_ID (set (map (initial_member sha1 ops token) (visit m)))"
        by (simp only: distinct_map)
    qed (use assms in simp_all)
    ultimately show ?thesis
      by (simp add: ok MemberIDs_initial genID_def MemberIDs_def cluster_Members_def comp_def initial_ids_def)
  qed
qed

definition example_sha1 :: sha1 where
  "example_sha1 b = push_bit 96 (of_nat (length b))"

definition example_urls :: "string URLsMap" where
  "example_urls = [(''a'', [''http://h:1'']), (''b'', [''http://host:2''])]"

theorem initial_cluster_order_free_witness:
  "case (NewClusterFromURLsMap example_sha1 plain_urls id ''t'' example_urls :: cluster_error + (unit, unit) RaftCluster,
         NewClusterFromURLsMap example_sha1 plain_urls rev ''t'' example_urls :: cluster_error + (unit, unit) RaftCluster) of
     (Inr c, Inr c') \<Rightarrow> rc_cid c = rc_cid c' \<and> MemberIDs c = [11, 14] \<and> MemberIDs c' = [11, 14]
   | _ \<Rightarrow> False"
proof -
  have "case (NewClusterFromURLsMap example_sha1 plain_urls id ''t'' example_urls :: cluster_error + (unit, unit) RaftCluster) of
      Inl e \<Rightarrow> False | Inr c \<Rightarrow> MemberIDs c = [11, 14]"
    by code_simp
  then show ?thesis
    using initial_cluster_order_free [of id example_urls rev example_sha1 plain_urls "''t''", where ?'v = unit and ?'b = unit]
    by (auto split: sum.splits)
qed

text \<open>Every entry of the initial URLs becomes a member: after a successful start \<open>MemberByName\<close>
  finds, without a panic, the member of each name with its URLs in sorted order, \<open>Member\<close> finds it
  under its ID, and \<open>MemberIDs\<close> lists the IDs in strictly increasing order, none of them 0.\<close>

lemma initial_cluster_members:
  fixes c :: "('v, 'b) RaftCluster"
  assumes "distinct (map_keys (visit m))" and "(name, urls) \<in> set (visit m)"
    and "NewClusterFromURLsMap sha1 ops visit token m = Inr c"
  shows "(case MemberByName lg name c of
      Some (Some mb) \<Rightarrow> mb_Name mb = name \<and> mb_PeerURLs mb = Some (sort (URLs_StringSlice ops urls)) \<and>
        cluster_Member (mb_ID mb) c = Some mb \<and> mb_ID mb \<in> set (MemberIDs c)
    | _ \<Rightarrow> False) \<and> sorted_wrt (<) (MemberIDs c) \<and> 0 \<notin> set (MemberIDs c)"
proof -
  let ?ids = "initial_ids sha1 ops token (visit m)"
  let ?mem = "initial_member sha1 ops token"
  have ids: "distinct ?ids" "0 \<notin> set ?ids"
    and c: "c = genID sha1 ((NewCluster token)\<lparr>rc_members := map (\<lambda>e. (mb_ID (?mem e), ?mem e)) (visit m)\<rparr>)"
    using cluster_result [where ?'v = 'v and ?'b = 'b, of sha1 ops token visit m] assms(3)
    by (auto split: if_splits)
  have M: "MemberIDs c = sort ?ids" unfolding c by (rule MemberIDs_initial)
  have "rc_members c = map (\<lambda>e. (mb_ID (?mem e), ?mem e)) (visit m)" by (simp add: c genID_def)
  then have "MemberByName lg name c = Some (Some (?mem (name, urls)))"
    and "map_of (rc_members c) (mb_ID (?mem (name, urls))) = Some (?mem (name, urls))"
    using by_name_unique [of "map ?mem (visit m)" lg name] find_initial [OF assms(1,2), of sha1 ops token]
      assms(1,2) ids(1)
    by (auto simp: MemberByName_def comp_def initial_ids_def intro!: map_of_is_SomeI image_eqI [of _ _ "(name, urls)"])
  moreover have "sorted_wrt (<) (sort ?ids)" using ids(1) by (simp add: strict_sorted_iff)
  moreover have "mb_ID (?mem (name, urls)) \<in> set ?ids" using assms(2) by (force simp: initial_ids_def)
  ultimately show ?thesis
    using ids(2) initial_member_fields [where e = "(name, urls)" and ?sha1.0 = sha1 and ops = ops and token = token] by (simp add: M cluster_Member_def)
qed

lemma ID_String_elem: "path_elem (ID_String i)"
proof -
  have "digit_val c \<noteq> None" if "c \<in> set (ID_String i)" for c using that hex_chars by (simp add: ID_String_def)
  moreover have "digit_val (CHR ''/'') = None" "digit_val (CHR ''.'') = None" by code_simp+
  ultimately have "CHR ''/'' \<notin> set (ID_String i)" "CHR ''.'' \<notin> set (ID_String i)" by fastforce+
  then show ?thesis by (auto simp: path_elem_def) (simp add: ID_String_def)
qed

lemma member_paths:
  "MemberStoreKey i = rooted [''0'', ''members'', ID_String i]"
  "MemberAttributesStorePath i = rooted [''0'', ''members'', ID_String i, ''attributes'']"
proof -
  have es: "\<forall>e \<in> set [''0'', ''members'']. path_elem e" "path_elem ''attributes''"
    by (simp_all add: path_elem_def)
  have "StoreMembersPrefix = rooted [''0'', ''members'']" by code_simp
  then show key: "MemberStoreKey i = rooted [''0'', ''members'', ID_String i]"
    using path_Join_rooted [OF _ es(1) ID_String_elem] by (simp add: MemberStoreKey_def)
  show "MemberAttributesStorePath i = rooted [''0'', ''members'', ID_String i, ''attributes'']"
    using path_Join_rooted [of "[''0'', ''members'', ID_String i]" "''attributes''"] es ID_String_elem key
    by (simp add: MemberAttributesStorePath_def)
qed

lemma member_key_parse: "MustParseMemberIDFromKey (MemberStoreKey i) = i"
  using path_Base_rooted [OF _ ID_String_elem, of "[''0'', ''members'']"] ParseHex_hex [of "unat i"]
  by (simp add: MustParseMemberIDFromKey_def member_paths IDFromString_def ID_String_def)

lemma attributes_path_dir: "path_Dir (MemberAttributesStorePath i) = MemberStoreKey i"
  using path_Dir_rooted [of "[''0'', ''members'', ID_String i]" "''attributes''"] ID_String_elem
  by (simp add: member_paths path_elem_def)

text \<open>The store keys of a member lead back to it: its ID is read back from its key, and from the
  directory of its attributes path, as the v2 applier does.\<close>

lemma member_key_round_trip:
  "MustParseMemberIDFromKey (MemberStoreKey i) = i \<and>
   MustParseMemberIDFromKey (path_Dir (MemberAttributesStorePath i)) = i"
  by (simp add: attributes_path_dir member_key_parse)

end
