(* ===== verification/Wal_Files.thy ===== *)
theory Wal_Files
  imports Id_Util
begin

text \<open>
  Files: \<open>pkg/fileutil\<close>, the creation of the write-ahead log in \<open>wal\<close> with the page writer of
  \<open>pkg/ioutil\<close>, and the snapshotter of \<open>api/snap\<close>.

  What the code uses of package \<open>os\<close> is a small file system: every path names a directory or a
  file with its contents, and a set of paths on which the operating system refuses to change
  anything. A path is located by its cleaned elements; the root and the working directory always
  exist. \<open>LockFile\<close> waits for a lock that another process holds, so its result has three cases.
  Log output is left out.
\<close>

section \<open>Package os\<close>

type_synonym place = "bool \<times> string list"

datatype fs_node = DirNode | FileNode bytes

record fsys =
  fs_nodes :: "(place, fs_node) gomap"
  fs_denied :: "place list"
  fs_locked :: "place list"

datatype os_error = os_ErrExist | os_ErrNotExist | os_ErrPermission | os_NotDir | os_IsDir | os_NotEmpty
  | ErrDirNotEmpty string "string list"

definition locate :: "string \<Rightarrow> place" where
  "locate p = (HasPrefix p ''/'', clean_elems (HasPrefix p ''/'') [] (split_on (CHR ''/'') p))"

definition parent :: "place \<Rightarrow> place" where
  "parent k = (fst k, butlast (snd k))"

definition is_dir :: "place \<Rightarrow> fsys \<Rightarrow> bool" where
  "is_dir k s \<longleftrightarrow> snd k = [] \<or> map_of (fs_nodes s) k = Some DirNode"

definition Stat :: "string \<Rightarrow> fsys \<Rightarrow> bool" where
  "Stat p s \<longleftrightarrow> snd (locate p) = [] \<or> map_of (fs_nodes s) (locate p) \<noteq> None"

definition Mkdir :: "place \<Rightarrow> fsys \<Rightarrow> os_error option \<times> fsys" where
  "Mkdir k s =
     (if \<not> is_dir (parent k) s then (Some os_ErrNotExist, s)
      else if k \<in> set (fs_denied s) then (Some os_ErrPermission, s)
      else (None, s\<lparr>fs_nodes := AList.update k DirNode (fs_nodes s)\<rparr>))"

text \<open>\<open>os.MkdirAll\<close> goes up to the first directory that exists and makes the missing ones; the
  elements are in reverse order.\<close>

fun mkdir_all :: "bool \<Rightarrow> string list \<Rightarrow> fsys \<Rightarrow> os_error option \<times> fsys" where
  "mkdir_all r [] s = (None, s)"
| "mkdir_all r (e # es) s =
     (case map_of (fs_nodes s) (r, rev (e # es)) of
        Some DirNode \<Rightarrow> (None, s)
      | Some (FileNode b) \<Rightarrow> (Some os_NotDir, s)
      | None \<Rightarrow>
          (case mkdir_all r es s of
             (Some err, s') \<Rightarrow> (Some err, s')
           | (None, s') \<Rightarrow> Mkdir (r, rev (e # es)) s'))"

definition MkdirAll :: "string \<Rightarrow> fsys \<Rightarrow> os_error option \<times> fsys" where
  "MkdirAll p s = mkdir_all (fst (locate p)) (rev (snd (locate p))) s"

text \<open>Opening a file for writing with \<open>O_CREATE\<close>: its contents, and the file system with the file.\<close>

definition open_create :: "place \<Rightarrow> fsys \<Rightarrow> (os_error + bytes) \<times> fsys" where
  "open_create k s =
     (if is_dir k s then (Inl os_IsDir, s)
      else if \<not> is_dir (parent k) s then (Inl os_ErrNotExist, s)
      else if k \<in> set (fs_denied s) then (Inl os_ErrPermission, s)
      else case map_of (fs_nodes s) k of
        Some (FileNode b) \<Rightarrow> (Inr b, s)
      | _ \<Rightarrow> (Inr [], s\<lparr>fs_nodes := AList.update k (FileNode []) (fs_nodes s)\<rparr>))"

definition WriteFile :: "string \<Rightarrow> bytes \<Rightarrow> fsys \<Rightarrow> os_error option \<times> fsys" where
  "WriteFile f b s =
     (case open_create (locate f) s of
        (Inl err, s') \<Rightarrow> (Some err, s')
      | (Inr _, s') \<Rightarrow> (None, s'\<lparr>fs_nodes := AList.update (locate f) (FileNode b) (fs_nodes s')\<rparr>))"

definition children :: "place \<Rightarrow> fsys \<Rightarrow> string list" where
  "children k s = map (\<lambda>c. last (snd c)) (filter (\<lambda>c. snd c \<noteq> [] \<and> parent c = k) (map_keys (fs_nodes s)))"

definition Remove :: "string \<Rightarrow> fsys \<Rightarrow> os_error option \<times> fsys" where
  "Remove f s =
     (let k = locate f in
      if map_of (fs_nodes s) k = None then (Some os_ErrNotExist, s)
      else if k \<in> set (fs_denied s) then (Some os_ErrPermission, s)
      else if children k s \<noteq> [] then (Some os_NotEmpty, s)
      else (None, s\<lparr>fs_nodes := AList.delete k (fs_nodes s)\<rparr>))"

text \<open>\<open>os.RemoveAll\<close>: everything below the path goes; when something below is protected, nothing does.\<close>

definition below :: "place \<Rightarrow> place \<Rightarrow> bool" where
  "below k c \<longleftrightarrow> fst c = fst k \<and> take (length (snd k)) (snd c) = snd k"

definition RemoveAll :: "string \<Rightarrow> fsys \<Rightarrow> os_error option \<times> fsys" where
  "RemoveAll p s =
     (let k = locate p in
      if list_ex (\<lambda>c. below k c \<and> c \<in> set (fs_denied s)) (map_keys (fs_nodes s)) then (Some os_ErrPermission, s)
      else (None, s\<lparr>fs_nodes := filter (\<lambda>(c, n). \<not> below k c) (fs_nodes s)\<rparr>))"

definition Readdirnames :: "string \<Rightarrow> fsys \<Rightarrow> os_error + string list" where
  "Readdirnames d s =
     (let k = locate d in
      if is_dir k s then Inr (children k s)
      else if map_of (fs_nodes s) k = None then Inl os_ErrNotExist else Inl os_NotDir)"

section \<open>fileutil\<close>

definition IsDirWriteable :: "string \<Rightarrow> fsys \<Rightarrow> os_error option \<times> fsys" where
  "IsDirWriteable dir s =
     (let f = path_Join [dir, ''.touch''] in
      case WriteFile f [] s of
        (Some err, s') \<Rightarrow> (Some err, s')
      | (None, s') \<Rightarrow> Remove f s')"

definition TouchDirAll :: "string \<Rightarrow> fsys \<Rightarrow> os_error option \<times> fsys" where
  "TouchDirAll dir s =
     (case MkdirAll dir s of
        (Some err, s') \<Rightarrow> (Some err, s')
      | (None, s') \<Rightarrow> IsDirWriteable dir s')"

text \<open>\<open>ReadDir\<close> with the extension its options leave in \<open>ReadDirOp\<close>, empty for none.\<close>

record ReadDirOp =
  op_ext :: string

type_synonym ReadDirOption = "ReadDirOp \<Rightarrow> ReadDirOp"

definition applyOpts :: "ReadDirOption list \<Rightarrow> ReadDirOp \<Rightarrow> ReadDirOp" where
  "applyOpts opts rd = fold (\<lambda>opt. opt) opts rd"

definition WithExt :: "string \<Rightarrow> ReadDirOption" where
  "WithExt ext = (\<lambda>rd. rd\<lparr>op_ext := ext\<rparr>)"

definition ReadDir :: "string \<Rightarrow> ReadDirOption list \<Rightarrow> fsys \<Rightarrow> os_error + string list" where
  "ReadDir d opts s =
     (let rd = applyOpts opts \<lparr>op_ext = []\<rparr> in
      case Readdirnames d s of
        Inl err \<Rightarrow> Inl err
      | Inr names \<Rightarrow>
          (let names = sort names in
           Inr (if op_ext rd \<noteq> [] then filter (\<lambda>v. path_Ext v = op_ext rd) names else names)))"

definition CreateDirAll :: "string \<Rightarrow> fsys \<Rightarrow> os_error option \<times> fsys" where
  "CreateDirAll dir s =
     (case TouchDirAll dir s of
        (Some err, s') \<Rightarrow> (Some err, s')
      | (None, s') \<Rightarrow>
          (case ReadDir dir [] s' of
             Inl err \<Rightarrow> (Some err, s')
           | Inr ns \<Rightarrow> (if ns \<noteq> [] then Some (ErrDirNotEmpty dir ns) else None, s')))"

definition fileutil_Exist :: "string \<Rightarrow> fsys \<Rightarrow> bool" where
  "fileutil_Exist name s = Stat name s"

text \<open>\<open>flockLockFile\<close>: \<open>None\<close> when it waits for the lock of another process.\<close>

record LockedFile =
  lf_place :: place
  lf_size :: nat
  lf_offset :: nat

definition flockLockFile :: "string \<Rightarrow> fsys \<Rightarrow> ((os_error + LockedFile) \<times> fsys) option" where
  "flockLockFile p s =
     (let k = locate p in
      case open_create k s of
        (Inl err, s') \<Rightarrow> Some (Inl err, s')
      | (Inr b, s') \<Rightarrow>
          if k \<in> set (fs_locked s') then None
          else Some (Inr \<lparr>lf_place = k, lf_size = length b, lf_offset = 0\<rparr>, s'\<lparr>fs_locked := k # fs_locked s'\<rparr>))"

text \<open>\<open>TryLockFile\<close> reports a lock of another process as \<open>ErrLocked\<close>, here \<open>Inl None\<close>.\<close>

definition flockTryLockFile :: "string \<Rightarrow> fsys \<Rightarrow> (os_error option + LockedFile) \<times> fsys" where
  "flockTryLockFile p s =
     (let k = locate p in
      case open_create k s of
        (Inl err, s') \<Rightarrow> (Inl (Some err), s')
      | (Inr b, s') \<Rightarrow>
          if k \<in> set (fs_locked s') then (Inl None, s')
          else (Inr \<lparr>lf_place = k, lf_size = length b, lf_offset = 0\<rparr>, s'\<lparr>fs_locked := k # fs_locked s'\<rparr>))"

section \<open>The page writer and the encoder\<close>

definition defaultBufferBytes :: nat where
  "defaultBufferBytes = 128 * 1024"

record 'w PageWriter =
  pw_w :: 'w
  pw_pageOffset :: nat
  pw_pageBytes :: nat
  pw_bufferedBytes :: nat
  pw_buf_len :: nat
  pw_bufWatermarkBytes :: nat

definition NewPageWriter :: "'w \<Rightarrow> nat \<Rightarrow> nat \<Rightarrow> 'w PageWriter" where
  "NewPageWriter w pageBytes pageOffset =
     \<lparr>pw_w = w, pw_pageOffset = pageOffset, pw_pageBytes = pageBytes, pw_bufferedBytes = 0,
      pw_buf_len = defaultBufferBytes + pageBytes, pw_bufWatermarkBytes = defaultBufferBytes\<rparr>"

definition walPageBytes :: nat where
  "walPageBytes = 8 * 512"

record 'w encoder =
  en_bw :: "'w PageWriter"
  en_buf_len :: nat
  en_uint64buf_len :: nat

definition newEncoder :: "'w \<Rightarrow> nat \<Rightarrow> 'w encoder" where
  "newEncoder w pageOffset =
     \<lparr>en_bw = NewPageWriter w walPageBytes pageOffset, en_buf_len = 1024 * 1024, en_uint64buf_len = 8\<rparr>"

definition newFileEncoder :: "LockedFile \<Rightarrow> LockedFile encoder" where
  "newFileEncoder f = newEncoder f (lf_offset f)"

section \<open>The write-ahead log\<close>

record WAL =
  wal_dir :: string
  wal_metadata :: bytes
  wal_enti :: u64
  wal_encoder :: "LockedFile encoder"
  wal_locks :: "LockedFile list"

definition wal_Exist :: "string \<Rightarrow> fsys \<Rightarrow> bool" where
  "wal_Exist dir s =
     (case ReadDir dir [WithExt ''.wal''] s of Inl err \<Rightarrow> False | Inr names \<Rightarrow> length names \<noteq> 0)"

text \<open>\<open>Create\<close>: seeking in a file that has just been locked succeeds and moves to its end.\<close>

definition wal_Create :: "string \<Rightarrow> bytes \<Rightarrow> fsys \<Rightarrow> ((os_error + WAL) \<times> fsys) option" where
  "wal_Create dirpath metadata s =
     (if wal_Exist dirpath s then Some (Inl os_ErrExist, s)
      else
        let tmpdirpath = path_Clean dirpath @ ''.tmp'';
            (rerr, s) = (if fileutil_Exist tmpdirpath s then RemoveAll tmpdirpath s else (None, s))
        in case rerr of
          Some err \<Rightarrow> Some (Inl err, s)
        | None \<Rightarrow>
            (case CreateDirAll tmpdirpath s of
               (Some err, s) \<Rightarrow> Some (Inl err, s)
             | (None, s) \<Rightarrow>
                 (case flockLockFile (path_Join [tmpdirpath, walName 0 0]) s of
                    None \<Rightarrow> None
                  | Some (Inl err, s) \<Rightarrow> Some (Inl err, s)
                  | Some (Inr f, s) \<Rightarrow>
                      (let f = f\<lparr>lf_offset := lf_size f\<rparr>
                       in Some (Inr \<lparr>wal_dir = dirpath, wal_metadata = metadata, wal_enti = 0,
                                     wal_encoder = newFileEncoder f, wal_locks = [f]\<rparr>, s)))))"

section \<open>The snapshotter\<close>

record Snapshotter =
  snap_dir :: string

definition snap_New :: "string \<Rightarrow> Snapshotter" where
  "snap_New dir = \<lparr>snap_dir = dir\<rparr>"

section \<open>Trees\<close>

text \<open>A well-formed tree: a place has one node, and whatever is in it is in a directory.\<close>

definition tree_wf :: "fsys \<Rightarrow> bool" where
  "tree_wf s \<longleftrightarrow> distinct (map_keys (fs_nodes s)) \<and>
     (\<forall>k \<in> set (map_keys (fs_nodes s)). snd k \<noteq> [] \<and> is_dir (parent k) s)"

lemma tree_locked [simp]: "is_dir k (s\<lparr>fs_locked := l\<rparr>) = is_dir k s" "tree_wf (s\<lparr>fs_locked := l\<rparr>) = tree_wf s"
  by (simp_all add: is_dir_def tree_wf_def)

lemma parent_snoc [simp]: "parent (r, es @ [e]) = (r, es)"
  by (simp add: parent_def)

lemma below_refl [simp]: "below k k"
  by (simp add: below_def)

lemma below_snoc: "below k (r, es @ [e]) \<longleftrightarrow> below k (r, es) \<or> k = (r, es @ [e])"
  by (cases k) (auto simp: below_def take_Cons' split: if_splits dest: arg_cong [of _ _ length])

lemma below_Nil: "below k (r, []) \<longleftrightarrow> k = (r, [])"
  by (cases k) (auto simp: below_def)

lemma set_children:
  assumes "tree_wf s"
  shows "set (children k s) = {n. map_of (fs_nodes s) (fst k, snd k @ [n]) \<noteq> None}" and "distinct (children k s)"
proof -
  let ?cs = "filter (\<lambda>c. snd c \<noteq> [] \<and> parent c = k) (map_keys (fs_nodes s))"
  have eq: "children k s = map (\<lambda>c. last (snd c)) ?cs" by (simp add: children_def)
  have snoc: "c = (fst k, snd k @ [last (snd c)])" if "snd c \<noteq> []" "parent c = k" for c
    using that by (cases c) (auto simp: parent_def)
  show "set (children k s) = {n. map_of (fs_nodes s) (fst k, snd k @ [n]) \<noteq> None}"
  proof (intro set_eqI iffI)
    fix n assume "n \<in> set (children k s)"
    then obtain c where "c \<in> set (map_keys (fs_nodes s))" "snd c \<noteq> []" "parent c = k" "n = last (snd c)"
      unfolding eq by auto
    with snoc [of c] show "n \<in> {n. map_of (fs_nodes s) (fst k, snd k @ [n]) \<noteq> None}"
      by (simp add: map_of_None_keys)
  next
    fix n assume "n \<in> {n. map_of (fs_nodes s) (fst k, snd k @ [n]) \<noteq> None}"
    then have "(fst k, snd k @ [n]) \<in> set ?cs" by (simp add: map_of_None_keys parent_def)
    then show "n \<in> set (children k s)" unfolding eq by force
  qed
  have "distinct ?cs" using assms by (simp add: tree_wf_def)
  moreover have "inj_on (\<lambda>c. last (snd c)) (set ?cs)"
    using snoc by (intro inj_onI) (metis (mono_tags, lifting) filter_is_subset mem_Collect_eq set_filter)
  ultimately show "distinct (children k s)" unfolding eq by (simp add: distinct_map)
qed

lemma ReadDir_all: "is_dir (locate d) s \<Longrightarrow> ReadDir d [] s = Inr (sort (children (locate d) s))"
  by (simp add: ReadDir_def applyOpts_def Readdirnames_def)

lemma wal_Exist_iff:
  assumes "tree_wf s"
  shows "wal_Exist d s \<longleftrightarrow> is_dir (locate d) s \<and>
    (\<exists>n. path_Ext n = ''.wal'' \<and> map_of (fs_nodes s) (fst (locate d), snd (locate d) @ [n]) \<noteq> None)"
  using set_children(1) [OF assms, of "locate d"]
  by (auto simp: wal_Exist_def ReadDir_def applyOpts_def WithExt_def Readdirnames_def filter_empty_conv Let_def)

lemma parent_neq: "snd k \<noteq> [] \<Longrightarrow> parent k \<noteq> k"
  by (cases k) (auto simp: parent_def, metis append_butlast_last_id not_Cons_self2 self_append_conv)

lemma update_tree_wf:
  assumes "tree_wf s" and "snd k \<noteq> []" and "is_dir (parent k) s" and "map_of (fs_nodes s) k = None"
  shows "tree_wf (s\<lparr>fs_nodes := fs_nodes s @ [(k, n)]\<rparr>)"
proof -
  have "is_dir d (s\<lparr>fs_nodes := fs_nodes s @ [(k, n)]\<rparr>)" if "is_dir d s" for d
    using that by (auto simp: is_dir_def map_add_def)
  then show ?thesis
    using assms by (auto simp: tree_wf_def map_of_None_keys)
qed

text \<open>Without protected paths \<open>MkdirAll\<close> fails only below a file, and makes every place on the way a
  directory.\<close>

definition no_file :: "place \<Rightarrow> fsys \<Rightarrow> bool" where
  "no_file k s \<longleftrightarrow> (\<forall>c b. below c k \<longrightarrow> map_of (fs_nodes s) c \<noteq> Some (FileNode b))"

lemma wf_dirs_above:
  assumes "tree_wf s" and "map_of (fs_nodes s) (r, es) = Some n" and "below c (r, es)" and "c \<noteq> (r, es)"
  shows "is_dir c s"
  using assms(2-4)
proof (induction es arbitrary: n rule: rev_induct)
  case Nil
  then show ?case by (simp add: below_Nil)
next
  case (snoc e es)
  then have c: "below c (r, es)" by (simp add: below_snoc)
  have d: "is_dir (r, es) s"
    using assms(1) map_of_in_keys [OF snoc.prems(1)] by (force simp: tree_wf_def)
  show ?case
  proof (cases "c = (r, es)")
    case False
    with c have "es \<noteq> []" by (auto simp: below_Nil)
    with d obtain m where "map_of (fs_nodes s) (r, es) = Some m" by (auto simp: is_dir_def)
    from snoc.IH [OF this c False] show ?thesis .
  qed (use d in simp)
qed

lemma mkdir_all_ok:
  assumes "tree_wf s" and "fs_denied s = []" and "no_file (r, rev es) s"
  shows "\<exists>s'. mkdir_all r es s = (None, s') \<and> tree_wf s' \<and> fs_denied s' = [] \<and> fs_locked s' = fs_locked s \<and>
    map_of (fs_nodes s') = (\<lambda>k. if snd k \<noteq> [] \<and> below k (r, rev es) then Some DirNode else map_of (fs_nodes s) k)"
  using assms(3)
proof (induction es)
  case Nil
  have "(\<lambda>k. if snd k \<noteq> [] \<and> below k (r, []) then Some DirNode else map_of (fs_nodes s) k) = map_of (fs_nodes s)"
    by (rule ext) (auto simp: below_Nil)
  then show ?case using assms by simp
next
  case (Cons e es)
  show ?case
  proof (cases "map_of (fs_nodes s) (r, rev (e # es))")
    case (Some n)
    then have n: "n = DirNode" using Cons.prems by (cases n) (auto simp: no_file_def)
    have "map_of (fs_nodes s) k = Some DirNode" if "snd k \<noteq> []" "below k (r, rev (e # es))" for k
      using wf_dirs_above [OF assms(1) Some that(2)] that(1) Some n by (auto simp: is_dir_def)
    then show ?thesis using Some n assms by auto
  next
    case None
    have "no_file (r, rev es) s" using Cons.prems by (auto simp: no_file_def below_snoc)
    from Cons.IH [OF this] obtain s' where s': "mkdir_all r es s = (None, s')" "tree_wf s'" "fs_denied s' = []"
      "fs_locked s' = fs_locked s" "map_of (fs_nodes s') =
        (\<lambda>k. if snd k \<noteq> [] \<and> below k (r, rev es) then Some DirNode else map_of (fs_nodes s) k)"
      by auto
    let ?k = "(r, rev (e # es))"
    have new: "map_of (fs_nodes s') ?k = None"
      using None s'(5) by (auto simp: below_def dest: arg_cong [of _ _ length])
    have d: "is_dir (parent ?k) s'" using s'(5) by (simp add: is_dir_def)
    let ?s = "s'\<lparr>fs_nodes := fs_nodes s' @ [(?k, DirNode)]\<rparr>"
    have "mkdir_all r (e # es) s = (None, ?s)"
      using None s' d new by (simp add: Mkdir_def update_new_key)
    moreover have "tree_wf ?s" using update_tree_wf [OF s'(2) _ d new] by simp
    moreover have "map_of (fs_nodes ?s) = (\<lambda>k. if snd k \<noteq> [] \<and> below k ?k then Some DirNode else map_of (fs_nodes s) k)"
      using new s'(5) None by (auto simp: map_add_def below_snoc fun_eq_iff split: option.splits)
    ultimately show ?thesis using s' by auto
  qed
qed

text \<open>Touching a directory with no \<open>.touch\<close> in it leaves the tree as it was.\<close>

lemma IsDirWriteable_ok:
  assumes "tree_wf s" and "fs_denied s = []" and "is_dir (locate dir) s"
    and "locate (path_Join [dir, ''.touch'']) = (r, es @ [''.touch''])" and "locate dir = (r, es)"
    and "map_of (fs_nodes s) (r, es @ [''.touch'']) = None"
  shows "IsDirWriteable dir s = (None, s)"
proof -
  let ?k = "(r, es @ [''.touch''])"
  have nd: "\<not> is_dir ?k s" using assms(6) by (simp add: is_dir_def)
  have dp: "is_dir (r, es) s" using assms(3,5) by simp
  have "WriteFile (path_Join [dir, ''.touch'']) [] s = (None, s\<lparr>fs_nodes := fs_nodes s @ [(?k, FileNode [])]\<rparr>)"
    using nd dp assms by (simp add: WriteFile_def open_create_def update_new_key update_last_key)
  moreover have "children ?k (s\<lparr>fs_nodes := fs_nodes s @ [(?k, FileNode [])]\<rparr>) = []"
    using assms(1) nd parent_neq [of ?k]
    by (auto simp: children_def filter_empty_conv tree_wf_def)
  moreover have "map_of (fs_nodes s @ [(?k, FileNode [])]) ?k \<noteq> None" using assms(6) by (simp add: map_add_def)
  ultimately show ?thesis
    using assms by (simp add: IsDirWriteable_def Remove_def Let_def delete_last_key)
qed

section \<open>Creating the log\<close>

lemma locate_rooted: "\<forall>e \<in> set es. path_elem e \<Longrightarrow> locate (rooted es) = (True, es)"
  by (cases "es = []")
    (auto simp: locate_def HasPrefix_def rooted_def split_elems clean_elems_plain)

lemma tmp_path:
  assumes "\<forall>e \<in> set ds. path_elem e" and "path_elem d"
  shows "path_Clean (rooted (ds @ [d])) @ ''.tmp'' = rooted (ds @ [d @ ''.tmp''])" and "path_elem (d @ ''.tmp'')"
proof -
  show "path_Clean (rooted (ds @ [d])) @ ''.tmp'' = rooted (ds @ [d @ ''.tmp''])"
    using clean_rooted [of "ds @ [d]"] assms by (simp add: rooted_def join_snoc)
  show "path_elem (d @ ''.tmp'')" using assms(2) by (auto simp: path_elem_def)
qed

lemma RemoveAll_ok:
  assumes "tree_wf s" and "fs_denied s = []" and "snd (locate p) \<noteq> []"
  shows "\<exists>s'. RemoveAll p s = (None, s') \<and> tree_wf s' \<and> fs_denied s' = [] \<and> fs_locked s' = fs_locked s \<and>
    map_of (fs_nodes s') = (\<lambda>k. if below (locate p) k then None else map_of (fs_nodes s) k)"
proof -
  let ?s = "s\<lparr>fs_nodes := filter (\<lambda>(c, n). \<not> below (locate p) c) (fs_nodes s)\<rparr>"
  have mo: "map_of (fs_nodes ?s) = (\<lambda>k. if below (locate p) k then None else map_of (fs_nodes s) k)"
    by (auto simp: map_of_filter_key restrict_map_def fun_eq_iff)
  have "is_dir (parent k) ?s" if k: "(k, n) \<in> set (fs_nodes s)" "\<not> below (locate p) k" for k n
  proof -
    obtain r es where kk: "k = (r, es)" by (cases k)
    have d: "is_dir (parent k) s" "es \<noteq> []" using assms(1) k(1) kk by (force simp: tree_wf_def)+
    then have "\<not> below (locate p) (parent k)"
      using k(2) kk below_snoc [of "locate p" r "butlast es" "last es"] by (simp add: parent_def)
    then show ?thesis using d mo by (simp add: is_dir_def)
  qed
  then have "tree_wf ?s" using assms(1) by (auto simp: tree_wf_def distinct_map_filter)
  moreover have "RemoveAll p s = (None, ?s)" using assms(2) by (simp add: RemoveAll_def Let_def list_ex_iff)
  ultimately show ?thesis using assms(2) mo by auto
qed

lemma touch_path:
  assumes "es \<noteq> []" and "\<forall>e \<in> set es. path_elem e"
  shows "locate (path_Join [rooted es, ''.touch'']) = (True, es @ [''.touch''])"
proof -
  have te: "path_elem ''.touch''" by code_simp
  show ?thesis using path_Join_rooted [OF assms te] locate_rooted [of "es @ [''.touch'']"] assms(2) te by simp
qed

lemma TouchDirAll_ok:
  assumes "tree_wf s" and "fs_denied s = []" and "es \<noteq> []" and "\<forall>e \<in> set es. path_elem e"
    and "no_file (True, es) s" and "map_of (fs_nodes s) (True, es @ [''.touch'']) = None"
  shows "\<exists>s'. TouchDirAll (rooted es) s = (None, s') \<and> tree_wf s' \<and> fs_denied s' = [] \<and> fs_locked s' = fs_locked s \<and>
    map_of (fs_nodes s') = (\<lambda>k. if snd k \<noteq> [] \<and> below k (True, es) then Some DirNode else map_of (fs_nodes s) k)"
proof -
  have loc: "locate (rooted es) = (True, es)" by (rule locate_rooted [OF assms(4)])
  obtain s' where s': "mkdir_all True (rev es) s = (None, s')" "tree_wf s'" "fs_denied s' = []"
    "fs_locked s' = fs_locked s" "map_of (fs_nodes s') =
       (\<lambda>k. if snd k \<noteq> [] \<and> below k (True, es) then Some DirNode else map_of (fs_nodes s) k)"
    using mkdir_all_ok [OF assms(1,2), of True "rev es"] assms(5) by auto
  have free: "map_of (fs_nodes s') (True, es @ [''.touch'']) = None" using assms(6) s'(5) by (auto simp: below_def)
  have d: "is_dir (locate (rooted es)) s'" using s'(5) loc by (simp add: is_dir_def)
  have "IsDirWriteable (rooted es) s' = (None, s')"
    by (rule IsDirWriteable_ok [OF s'(2,3) d touch_path [OF assms(3,4)] loc free])
  then have "TouchDirAll (rooted es) s = (None, s')" using s'(1) loc by (simp add: TouchDirAll_def MkdirAll_def)
  then show ?thesis using s' by auto
qed

lemma CreateDirAll_ok:
  assumes "tree_wf s" and "fs_denied s = []" and "es \<noteq> []" and "\<forall>e \<in> set es. path_elem e"
    and "no_file (True, es) s" and "\<forall>k. below (True, es) k \<longrightarrow> map_of (fs_nodes s) k = None"
  shows "\<exists>s'. CreateDirAll (rooted es) s = (None, s') \<and> tree_wf s' \<and> fs_denied s' = [] \<and> fs_locked s' = fs_locked s \<and>
    map_of (fs_nodes s') = (\<lambda>k. if snd k \<noteq> [] \<and> below k (True, es) then Some DirNode else map_of (fs_nodes s) k)"
proof -
  have loc: "locate (rooted es) = (True, es)" by (rule locate_rooted [OF assms(4)])
  have "map_of (fs_nodes s) (True, es @ [''.touch'']) = None" using assms(6) by (auto simp: below_def)
  then obtain s' where s': "TouchDirAll (rooted es) s = (None, s')" "tree_wf s'" "fs_denied s' = []"
    "fs_locked s' = fs_locked s" "map_of (fs_nodes s') =
       (\<lambda>k. if snd k \<noteq> [] \<and> below k (True, es) then Some DirNode else map_of (fs_nodes s) k)"
    using TouchDirAll_ok [OF assms(1-5)] by blast
  have "map_of (fs_nodes s') (True, es @ [e]) = None" for e using assms(6) s'(5) by (auto simp: below_def)
  then have "children (True, es) s' = []" using set_children(1) [OF s'(2), of "(True, es)"] by simp
  moreover have "is_dir (True, es) s'" using s'(5) by (simp add: is_dir_def)
  ultimately have "CreateDirAll (rooted es) s = (None, s')"
    using s'(1) loc by (simp add: CreateDirAll_def ReadDir_all)
  then show ?thesis using s' by auto
qed

text \<open>Clearing the temporary directory: afterwards nothing is at or below it.\<close>

lemma clear_tmp_ok:
  assumes "tree_wf s" and "fs_denied s = []" and "locate p = (r, es)" and "es \<noteq> []"
  shows "\<exists>s'. (if fileutil_Exist p s then RemoveAll p s else (None, s)) = (None, s') \<and> tree_wf s' \<and>
    fs_denied s' = [] \<and> fs_locked s' = fs_locked s \<and>
    map_of (fs_nodes s') = (\<lambda>k. if below (r, es) k then None else map_of (fs_nodes s) k)"
proof (cases "fileutil_Exist p s")
  case True
  then show ?thesis using RemoveAll_ok [OF assms(1,2), of p] assms(3,4) by auto
next
  case False
  then have none: "map_of (fs_nodes s) (r, es) = None" using assms(3) by (simp add: fileutil_Exist_def Stat_def)
  have "map_of (fs_nodes s) k = None" if "below (r, es) k" for k
  proof (rule ccontr)
    assume "map_of (fs_nodes s) k \<noteq> None"
    then obtain n where n: "map_of (fs_nodes s) (fst k, snd k) = Some n" by auto
    have "(r, es) \<noteq> (fst k, snd k)" using none n by auto
    with wf_dirs_above [OF assms(1) n, of "(r, es)"] that have "is_dir (r, es) s" by simp
    with none assms(4) show False by (simp add: is_dir_def)
  qed
  then have "map_of (fs_nodes s) = (\<lambda>k. if below (r, es) k then None else map_of (fs_nodes s) k)"
    by (auto simp: fun_eq_iff)
  with False assms show ?thesis by auto
qed

lemma tmp_apart: "\<not> below (r, ds @ [d @ ''.tmp'']) (r, ds @ d # es)" "\<not> below (r, ds @ d # es) (r, ds @ [d @ ''.tmp''])"
  by (auto simp: below_def take_Cons' split: if_splits)

lemma wal_Create_tree:
  assumes "tree_wf s" and "fs_denied s = []" and "\<forall>e \<in> set ds. path_elem e" and "path_elem d"
    and "no_file (True, ds) s" and "(True, ds @ [d @ ''.tmp'', walName 0 0]) \<notin> set (fs_locked s)"
    and "\<not> wal_Exist (rooted (ds @ [d])) s"
  shows "\<exists>w s'. wal_Create (rooted (ds @ [d])) md s = Some (Inr w, s') \<and> tree_wf s' \<and> fs_denied s' = [] \<and>
    pw_pageOffset (en_bw (wal_encoder w)) = 0 \<and> wal_metadata w = md \<and>
    map_of (fs_nodes s') =
      (\<lambda>k. if k = (True, ds @ [d @ ''.tmp'', walName 0 0]) then Some (FileNode [])
           else if snd k \<noteq> [] \<and> below k (True, ds @ [d @ ''.tmp'']) then Some DirNode
           else if below (True, ds @ [d @ ''.tmp'']) k then None else map_of (fs_nodes s) k)"
proof -
  let ?t = "ds @ [d @ ''.tmp'']" and ?wn = "walName 0 0"
  have es: "\<forall>e \<in> set ?t. path_elem e" using assms(3) tmp_path(2) [OF assms(3,4)] by simp
  have wn: "path_elem ?wn" by code_simp
  have lw: "locate (path_Join [rooted ?t, ?wn]) = (True, ?t @ [?wn])"
    using path_Join_rooted [OF _ es wn] locate_rooted [of "?t @ [?wn]"] es wn by simp
  obtain s1 where s1: "(if fileutil_Exist (rooted ?t) s then RemoveAll (rooted ?t) s else (None, s)) = (None, s1)"
    "tree_wf s1" "fs_denied s1 = []" "fs_locked s1 = fs_locked s"
    "map_of (fs_nodes s1) = (\<lambda>k. if below (True, ?t) k then None else map_of (fs_nodes s) k)"
    using clear_tmp_ok [OF assms(1,2) locate_rooted [OF es]] by auto
  have "no_file (True, ?t) s1" using assms(5) s1(5) by (auto simp: no_file_def below_snoc)
  then obtain s2 where s2: "CreateDirAll (rooted ?t) s1 = (None, s2)" "tree_wf s2" "fs_denied s2 = []"
    "fs_locked s2 = fs_locked s1"
    "map_of (fs_nodes s2) = (\<lambda>k. if snd k \<noteq> [] \<and> below k (True, ?t) then Some DirNode else map_of (fs_nodes s1) k)"
    using CreateDirAll_ok [OF s1(2,3) _ es] s1(5) by auto
  have new: "map_of (fs_nodes s2) (True, ?t @ [?wn]) = None" using s2(5) s1(5) by (simp add: below_def)
  have dir: "is_dir (True, ?t) s2" using s2(5) by (simp add: is_dir_def)
  have par: "is_dir (parent (True, ?t @ [?wn])) s2" using dir by (simp only: parent_snoc)
  let ?f = "\<lparr>lf_place = (True, ?t @ [?wn]), lf_size = 0, lf_offset = 0\<rparr>"
  let ?s = "s2\<lparr>fs_nodes := fs_nodes s2 @ [((True, ?t @ [?wn]), FileNode [])],
                fs_locked := (True, ?t @ [?wn]) # fs_locked s2\<rparr>"
  have "\<not> is_dir (True, ?t @ [?wn]) s2" using new by (simp add: is_dir_def)
  then have "flockLockFile (path_Join [rooted ?t, ?wn]) s2 = Some (Inr ?f, ?s)"
    using lw new par s2(3,4) s1(4) assms(6)
    by (simp add: flockLockFile_def open_create_def update_new_key Let_def)
  then have "wal_Create (rooted (ds @ [d])) md s =
      Some (Inr \<lparr>wal_dir = rooted (ds @ [d]), wal_metadata = md, wal_enti = 0,
                  wal_encoder = newFileEncoder ?f, wal_locks = [?f]\<rparr>, ?s)"
    using assms(7) s1(1) s2(1) by (simp add: wal_Create_def tmp_path(1) [OF assms(3,4)] Let_def)
  moreover have "tree_wf ?s"
    using update_tree_wf [OF s2(2) _ par new, of "FileNode []"] by simp
  moreover have "map_of (fs_nodes ?s) = (map_of (fs_nodes s2))((True, ?t @ [?wn]) \<mapsto> FileNode [])"
    using map_of_snoc_new [OF new, of "FileNode []"] by simp
  then have "map_of (fs_nodes ?s) =
      (\<lambda>k. if k = (True, ?t @ [?wn]) then Some (FileNode [])
           else if snd k \<noteq> [] \<and> below k (True, ?t) then Some DirNode
           else if below (True, ?t) k then None else map_of (fs_nodes s) k)"
    unfolding s2(5) s1(5) by (auto simp: fun_eq_iff simp del: map_of_append)
  moreover have "fs_denied ?s = []" using s2(3) by simp
  moreover have "pw_pageOffset (en_bw (newFileEncoder ?f)) = 0"
    by (simp add: newFileEncoder_def newEncoder_def NewPageWriter_def)
  ultimately show ?thesis
    by (intro exI [of _ "\<lparr>wal_dir = rooted (ds @ [d]), wal_metadata = md, wal_enti = 0,
                  wal_encoder = newFileEncoder ?f, wal_locks = [?f]\<rparr>"] exI [of _ ?s]) simp
qed

lemma wal_Exist_same:
  assumes "tree_wf s" and "tree_wf s'" and "locate p = (r, es)"
    and "\<forall>k. below (r, es) k \<longrightarrow> map_of (fs_nodes s') k = map_of (fs_nodes s) k"
  shows "wal_Exist p s' = wal_Exist p s"
proof -
  have "below (r, es) (r, es @ [n])" for n by (simp add: below_snoc)
  then show ?thesis using assms by (simp add: wal_Exist_iff is_dir_def)
qed

section \<open>Properties\<close>


definition example_fs :: fsys where
  "example_fs =
     \<lparr>fs_nodes = [((True, [''data'']), DirNode), ((True, [''data'', ''wal.tmp'']), DirNode),
        ((True, [''data'', ''wal.tmp'', ''old'']), FileNode [1, 2]), ((True, [''data'', ''db'']), FileNode [7])],
      fs_denied = [], fs_locked = []\<rparr>"


end
