(* ===== verification/Backend_Tx.thy ===== *)
theory Backend_Tx
  imports Etcd_Prelude
begin

text \<open>
  \<open>mvcc/backend\<close>: the transaction buffers, the batch and read transactions, the backend with its
  commit loop, and snapshots. The database bolt is not part of the repository: its operations are
  the record \<open>bolt_ops\<close>, an argument of what calls them. A nil pointer to a database or transaction is
  \<open>None\<close>, and calling a method of it panics. A logger is present or not (\<open>lg\<close>); with one, a failure to
  open the database panics and other failures end the process. Both are \<open>None\<close> here.

  Mutexes: a call that finds a lock taken waits. Calls that may wait return \<open>Waits\<close> then.
\<close>

section \<open>Transaction buffers\<close>

record kv =
  kv_key :: bytes
  kv_val :: bytes

record bucketBuffer =
  bb_buf :: "kv list"
  bb_used :: nat

type_synonym txBuffer = "(string, bucketBuffer) gomap"

text \<open>The loop of \<open>reset\<close> over the entries; deleting the entry being visited is allowed in Go. The
  counter of a deleted bucket is reset too, which nobody sees.\<close>

fun reset_buckets :: "(string \<times> bucketBuffer) list \<Rightarrow> txBuffer \<Rightarrow> txBuffer" where
  "reset_buckets [] m = m"
| "reset_buckets ((k, v) # es) m =
     reset_buckets es
       (if bb_used v = 0 then AList.delete k m else AList.update k (v\<lparr>bb_used := 0\<rparr>) m)"

definition txBuffer_reset :: "txBuffer \<Rightarrow> txBuffer" where
  "txBuffer_reset b = reset_buckets b b"

record txWriteBuffer =
  wb_buckets :: txBuffer
  wb_seq :: bool

section \<open>Bolt\<close>

record bolt_Options =
  bo_MmapFlags :: nat
  bo_NoFreelistSync :: bool
  bo_InitialMmapSize :: int
  bo_FreelistType :: string

record ('db, 'tx, 'e) bolt_ops =
  bolt_Open :: "string \<Rightarrow> bolt_Options \<Rightarrow> 'e + 'db"
  bolt_Begin :: "'db \<Rightarrow> 'e + 'tx"
  bolt_Size :: "'tx \<Rightarrow> int"
  bolt_CreateBucket :: "bytes \<Rightarrow> 'tx \<Rightarrow> 'e option \<times> 'tx"
  bolt_bucket_exists :: "'e \<Rightarrow> bool"
  bolt_Rollback :: "'tx \<Rightarrow> 'e option \<times> 'tx"
  bolt_Close :: "'db \<Rightarrow> 'e option \<times> 'db"

definition MAP_POPULATE :: nat where
  "MAP_POPULATE = 0x8000"

definition boltOpenOptions_linux :: "bolt_Options option" where
  "boltOpenOptions_linux =
     Some \<lparr>bo_MmapFlags = MAP_POPULATE, bo_NoFreelistSync = True, bo_InitialMmapSize = 0, bo_FreelistType = []\<rparr>"

definition boltOpenOptions_default :: "bolt_Options option" where
  "boltOpenOptions_default = None"

section \<open>The state\<close>

datatype 'a call_result = Returned 'a | Waits | Panics

record rwmutex =
  rw_writer :: bool
  rw_readers :: nat

definition unlocked :: rwmutex where
  "unlocked = \<lparr>rw_writer = False, rw_readers = 0\<rparr>"

record ('tx, 'b) readTx =
  rt_mu :: rwmutex
  rt_buf :: txBuffer
  rt_tx :: "'tx option"
  rt_buckets :: "(string, 'b) gomap"
  rt_txWg :: nat

record 'tx batchTx =
  bt_locked :: bool
  bt_tx :: "'tx option"
  bt_pending :: int
  bt_buf :: txWriteBuffer

record ('db, 'tx, 'b) backend =
  be_size :: int
  be_sizeInUse :: int
  be_commits :: int
  be_openReadTxN :: int
  be_db :: "'db option"
  be_batchInterval :: int
  be_batchLimit :: int
  be_batchTx :: "'tx batchTx"
  be_readTx :: "('tx, 'b) readTx"
  be_stopc :: bool
  be_donec :: bool
  be_lg :: bool

record BackendConfig =
  bc_Path :: string
  bc_BatchInterval :: int
  bc_BatchLimit :: int
  bc_FreelistType :: string
  bc_MmapSize :: u64
  bc_Logger :: bool

definition defaultBatchLimit :: int where
  "defaultBatchLimit = 10000"

definition defaultBatchInterval :: int where
  "defaultBatchInterval = 100 * 1000000"

definition initialMmapSize :: u64 where
  "initialMmapSize = 10 * 1024 * 1024 * 1024"

definition DefaultBackendConfig :: BackendConfig where
  "DefaultBackendConfig =
     \<lparr>bc_Path = [], bc_BatchInterval = defaultBatchInterval, bc_BatchLimit = defaultBatchLimit,
      bc_FreelistType = [], bc_MmapSize = initialMmapSize, bc_Logger = False\<rparr>"

definition mmapSize :: "BackendConfig \<Rightarrow> int" where
  "mmapSize bcfg = sint (bc_MmapSize bcfg)"

section \<open>Read transactions\<close>

definition readTx_Lock :: "('tx, 'b) readTx \<Rightarrow> ('tx, 'b) readTx call_result" where
  "readTx_Lock rt =
     (if rw_writer (rt_mu rt) \<or> 0 < rw_readers (rt_mu rt) then Waits
      else Returned (rt\<lparr>rt_mu := \<lparr>rw_writer = True, rw_readers = 0\<rparr>\<rparr>))"

text \<open>Releasing a lock that is not held is a fatal error.\<close>

definition readTx_Unlock :: "('tx, 'b) readTx \<Rightarrow> ('tx, 'b) readTx call_result" where
  "readTx_Unlock rt =
     (if rw_writer (rt_mu rt) then Returned (rt\<lparr>rt_mu := unlocked\<rparr>) else Panics)"

definition readTx_RLock :: "('tx, 'b) readTx \<Rightarrow> ('tx, 'b) readTx call_result" where
  "readTx_RLock rt =
     (if rw_writer (rt_mu rt) then Waits
      else Returned (rt\<lparr>rt_mu := (rt_mu rt)\<lparr>rw_readers := rw_readers (rt_mu rt) + 1\<rparr>\<rparr>))"

definition readTx_RUnlock :: "('tx, 'b) readTx \<Rightarrow> ('tx, 'b) readTx call_result" where
  "readTx_RUnlock rt =
     (if rw_readers (rt_mu rt) = 0 then Panics
      else Returned (rt\<lparr>rt_mu := (rt_mu rt)\<lparr>rw_readers := rw_readers (rt_mu rt) - 1\<rparr>\<rparr>))"

definition readTx_reset :: "('tx, 'b) readTx \<Rightarrow> ('tx, 'b) readTx" where
  "readTx_reset rt = rt\<lparr>rt_buf := txBuffer_reset (rt_buf rt), rt_buckets := [], rt_tx := None, rt_txWg := 0\<rparr>"

section \<open>Batch transactions\<close>

definition batchTx_Lock :: "('db, 'tx, 'b) backend \<Rightarrow> ('db, 'tx, 'b) backend call_result" where
  "batchTx_Lock b =
     (if bt_locked (be_batchTx b) then Waits
      else Returned (b\<lparr>be_batchTx := (be_batchTx b)\<lparr>bt_locked := True\<rparr>\<rparr>))"

definition batchTx_Unlock :: "('db, 'tx, 'b) backend \<Rightarrow> ('db, 'tx, 'b) backend call_result" where
  "batchTx_Unlock b =
     (if bt_locked (be_batchTx b) then Returned (b\<lparr>be_batchTx := (be_batchTx b)\<lparr>bt_locked := False\<rparr>\<rparr>)
      else Panics)"

definition batchTx_RLock :: "('db, 'tx, 'b) backend \<Rightarrow> ('db, 'tx, 'b) backend call_result" where
  "batchTx_RLock b = Panics"

definition batchTx_RUnlock :: "('db, 'tx, 'b) backend \<Rightarrow> ('db, 'tx, 'b) backend call_result" where
  "batchTx_RUnlock b = Panics"

text \<open>\<open>UnsafeCreateBucket\<close>: a nil transaction panics; an error other than an existing bucket ends the
  process when there is a logger and is ignored without one.\<close>

definition UnsafeCreateBucket ::
  "('db, 'tx, 'e) bolt_ops \<Rightarrow> bytes \<Rightarrow> ('db, 'tx, 'b) backend \<Rightarrow> ('db, 'tx, 'b) backend call_result" where
  "UnsafeCreateBucket ops name b =
     (case bt_tx (be_batchTx b) of
        None \<Rightarrow> Panics
      | Some tx \<Rightarrow>
          (case bolt_CreateBucket ops name tx of
             (err, tx') \<Rightarrow>
               if (case err of None \<Rightarrow> False | Some e \<Rightarrow> \<not> bolt_bucket_exists ops e) \<and> be_lg b then Panics
               else Returned (b\<lparr>be_batchTx := (be_batchTx b)\<lparr>bt_tx := Some tx',
                                   bt_pending := bt_pending (be_batchTx b) + 1\<rparr>\<rparr>)))"

text \<open>\<open>unsafeCommit\<close>: an open read transaction is rolled back in the background once its readers are
  done, and the read buffer is reset; nothing is written and no new transaction is begun.\<close>

definition unsafeCommit :: "bool \<Rightarrow> ('db, 'tx, 'b) backend \<Rightarrow> ('db, 'tx, 'b) backend" where
  "unsafeCommit stop b =
     (if rt_tx (be_readTx b) \<noteq> None then b\<lparr>be_readTx := readTx_reset (be_readTx b)\<rparr> else b)"

definition batchTx_commit :: "bool \<Rightarrow> ('db, 'tx, 'b) backend \<Rightarrow> ('db, 'tx, 'b) backend call_result" where
  "batchTx_commit stop b =
     (case readTx_Lock (be_readTx b) of
        Returned rt \<Rightarrow>
          (let b = unsafeCommit stop (b\<lparr>be_readTx := rt\<rparr>)
           in case readTx_Unlock (be_readTx b) of
                Returned rt \<Rightarrow> Returned (b\<lparr>be_readTx := rt\<rparr>)
              | Waits \<Rightarrow> Waits | Panics \<Rightarrow> Panics)
      | Waits \<Rightarrow> Waits | Panics \<Rightarrow> Panics)"

definition Commit :: "('db, 'tx, 'b) backend \<Rightarrow> ('db, 'tx, 'b) backend call_result" where
  "Commit b =
     (case batchTx_Lock b of
        Returned b \<Rightarrow>
          (case batchTx_commit False b of
             Returned b \<Rightarrow> batchTx_Unlock b
           | Waits \<Rightarrow> Waits | Panics \<Rightarrow> Panics)
      | Waits \<Rightarrow> Waits | Panics \<Rightarrow> Panics)"

definition newBatchTxBuffered :: "'tx batchTx" where
  "newBatchTxBuffered =
     \<lparr>bt_locked = False, bt_tx = None, bt_pending = 0, bt_buf = \<lparr>wb_buckets = [], wb_seq = True\<rparr>\<rparr>"

section \<open>The backend\<close>

definition newBackend ::
  "('db, 'tx, 'e) bolt_ops \<Rightarrow> bolt_Options option \<Rightarrow> BackendConfig \<Rightarrow> ('db, 'tx, 'b) backend call_result" where
  "newBackend ops boltOpenOptions bcfg =
     (let bopts = (case boltOpenOptions of
                     Some o' \<Rightarrow> o'
                   | None \<Rightarrow> \<lparr>bo_MmapFlags = 0, bo_NoFreelistSync = False, bo_InitialMmapSize = 0, bo_FreelistType = []\<rparr>);
          bopts = bopts\<lparr>bo_InitialMmapSize := mmapSize bcfg, bo_FreelistType := bc_FreelistType bcfg\<rparr>;
          db = bolt_Open ops (bc_Path bcfg) bopts
      in if (case db of Inl e \<Rightarrow> True | Inr d \<Rightarrow> False) \<and> bc_Logger bcfg then Panics
         else Commit
           \<lparr>be_size = 0, be_sizeInUse = 0, be_commits = 0, be_openReadTxN = 0,
            be_db = (case db of Inl e \<Rightarrow> None | Inr d \<Rightarrow> Some d),
            be_batchInterval = bc_BatchInterval bcfg, be_batchLimit = bc_BatchLimit bcfg,
            be_batchTx = newBatchTxBuffered,
            be_readTx = \<lparr>rt_mu = unlocked, rt_buf = [], rt_tx = None, rt_buckets = [], rt_txWg = 0\<rparr>,
            be_stopc = False, be_donec = False, be_lg = bc_Logger bcfg\<rparr>)"

definition NewDefaultBackend ::
  "('db, 'tx, 'e) bolt_ops \<Rightarrow> bolt_Options option \<Rightarrow> string \<Rightarrow> ('db, 'tx, 'b) backend call_result" where
  "NewDefaultBackend ops oo path = newBackend ops oo (DefaultBackendConfig\<lparr>bc_Path := path\<rparr>)"

definition ForceCommit :: "('db, 'tx, 'b) backend \<Rightarrow> ('db, 'tx, 'b) backend call_result" where
  "ForceCommit b = Commit b"

definition backend_Size :: "('db, 'tx, 'b) backend \<Rightarrow> int" where
  "backend_Size b = be_size b"

definition backend_Commits :: "('db, 'tx, 'b) backend \<Rightarrow> int" where
  "backend_Commits b = be_commits b"

section \<open>Snapshots\<close>

definition minSnapshotWarningTimeout :: int where
  "minSnapshotWarningTimeout = 30 * 1000000000"

definition sendRateBytes :: int where
  "sendRateBytes = 100 * 1024 * 1014"

text \<open>The argument \<open>seconds\<close> is the floating point quotient converted to nanoseconds.\<close>

definition warningTimeout :: "(int \<Rightarrow> int \<Rightarrow> int) \<Rightarrow> int \<Rightarrow> int" where
  "warningTimeout seconds dbBytes =
     (let w = seconds dbBytes sendRateBytes
      in if w < minSnapshotWarningTimeout then minSnapshotWarningTimeout else w)"

record 'tx snapshot =
  sn_tx :: 'tx
  sn_timeout :: int
  sn_stopc :: bool
  sn_donec :: bool

definition backend_Snapshot ::
  "('db, 'tx, 'e) bolt_ops \<Rightarrow> (int \<Rightarrow> int \<Rightarrow> int) \<Rightarrow> ('db, 'tx, 'b) backend \<Rightarrow>
   ('tx snapshot \<times> ('db, 'tx, 'b) backend) call_result" where
  "backend_Snapshot ops seconds b =
     (case Commit b of
        Returned b \<Rightarrow>
          (case be_db b of
             None \<Rightarrow> Panics
           | Some db \<Rightarrow>
               (case bolt_Begin ops db of
                  Inl e \<Rightarrow> Panics
                | Inr tx \<Rightarrow>
                    Returned (\<lparr>sn_tx = tx, sn_timeout = warningTimeout seconds (bolt_Size ops tx),
                               sn_stopc = False, sn_donec = False\<rparr>, b)))
      | Waits \<Rightarrow> Waits | Panics \<Rightarrow> Panics)"

section \<open>Stopping a goroutine\<close>

text \<open>
  The loop of the backend and the goroutine of a snapshot are stopped in the same way. The loop
  waits for its timer or for \<open>stopc\<close>; when it returns, its deferred call closes \<open>donec\<close>. Closing closes
  \<open>stopc\<close> (closing it twice panics), waits for \<open>donec\<close> and then releases what the loop used. One
  goroutine closes; the relation interleaves it with the loop.
\<close>

datatype closer = NotCalled | Waiting | Finished

inductive close_step ::
  "('s \<Rightarrow> bool) \<Rightarrow> ('s \<Rightarrow> bool) \<Rightarrow> ('s \<Rightarrow> 's) \<Rightarrow> ('s \<Rightarrow> 's) \<Rightarrow> ('s \<Rightarrow> 's option) \<Rightarrow> ('s \<Rightarrow> 's option) \<Rightarrow>
   's \<times> closer \<Rightarrow> 's \<times> closer \<Rightarrow> bool"
  for stopped ended timer exits begins ends where
  timer: "\<not> ended s \<Longrightarrow> close_step stopped ended timer exits begins ends (s, c) (timer s, c)"
| exit: "stopped s \<Longrightarrow> \<not> ended s \<Longrightarrow> close_step stopped ended timer exits begins ends (s, c) (exits s, c)"
| call: "begins s = Some s' \<Longrightarrow> close_step stopped ended timer exits begins ends (s, NotCalled) (s', Waiting)"
| return: "ended s \<Longrightarrow> ends s = Some s' \<Longrightarrow>
    close_step stopped ended timer exits begins ends (s, Waiting) (s', Finished)"

text \<open>The parts for the backend: the loop only resets its timer.\<close>

definition run_timer :: "('db, 'tx, 'b) backend \<Rightarrow> ('db, 'tx, 'b) backend" where
  "run_timer b = b"

definition run_exit :: "('db, 'tx, 'b) backend \<Rightarrow> ('db, 'tx, 'b) backend" where
  "run_exit b = b\<lparr>be_donec := True\<rparr>"

definition Close_begin :: "('db, 'tx, 'b) backend \<Rightarrow> ('db, 'tx, 'b) backend option" where
  "Close_begin b = (if be_stopc b then None else Some (b\<lparr>be_stopc := True\<rparr>))"

definition Close_end :: "('db, 'tx, 'e) bolt_ops \<Rightarrow> ('db, 'tx, 'b) backend \<Rightarrow> ('db, 'tx, 'b) backend option" where
  "Close_end ops b = do { db \<leftarrow> be_db b; Some (b\<lparr>be_db := Some (snd (bolt_Close ops db))\<rparr>) }"

text \<open>The parts for a snapshot; its ticker only logs a warning.\<close>

definition snapshot_ticker :: "'tx snapshot \<Rightarrow> 'tx snapshot" where
  "snapshot_ticker s = s"

definition snapshot_exit :: "'tx snapshot \<Rightarrow> 'tx snapshot" where
  "snapshot_exit s = s\<lparr>sn_donec := True\<rparr>"

definition snapshot_Close_begin :: "'tx snapshot \<Rightarrow> 'tx snapshot option" where
  "snapshot_Close_begin s = (if sn_stopc s then None else Some (s\<lparr>sn_stopc := True\<rparr>))"

definition snapshot_Close_end :: "('db, 'tx, 'e) bolt_ops \<Rightarrow> 'tx snapshot \<Rightarrow> 'tx snapshot option" where
  "snapshot_Close_end ops s = Some (s\<lparr>sn_tx := snd (bolt_Rollback ops (sn_tx s))\<rparr>)"

text \<open>What both have in common, and what follows from it for any interleaving with one closer.\<close>

locale stop_protocol =
  fixes stopped ended live :: "'s \<Rightarrow> bool" and timer exits :: "'s \<Rightarrow> 's" and begins ends :: "'s \<Rightarrow> 's option"
  assumes timer_keeps: "stopped (timer s) = stopped s" "ended (timer s) = ended s" "live (timer s) = live s"
    and exits_keeps: "stopped (exits s) = stopped s" "ended (exits s)" "live (exits s) = live s"
    and begins_stops: "\<not> stopped s \<Longrightarrow> \<exists>s'. begins s = Some s' \<and> stopped s' \<and> ended s' = ended s \<and> live s' = live s"
    and begins_once: "stopped s \<Longrightarrow> begins s = None"
    and ends_keeps: "live s \<Longrightarrow> \<exists>s'. ends s = Some s' \<and> stopped s' = stopped s \<and> ended s' = ended s \<and> live s'"
begin

abbreviation steps :: "'s \<times> closer \<Rightarrow> 's \<times> closer \<Rightarrow> bool" where
  "steps \<equiv> close_step stopped ended timer exits begins ends"

definition protocol_inv :: "'s \<times> closer \<Rightarrow> bool" where
  "protocol_inv sc \<longleftrightarrow> (case sc of (s, c) \<Rightarrow>
     live s \<and> (stopped s \<longleftrightarrow> c \<noteq> NotCalled) \<and> (ended s \<longrightarrow> stopped s) \<and> (c = Finished \<longrightarrow> ended s))"

lemma protocol_step: "steps sc sc' \<Longrightarrow> protocol_inv sc \<Longrightarrow> protocol_inv sc'"
proof (induction rule: close_step.induct)
  case (call s s')
  then show ?case using begins_stops [of s] by (auto simp: protocol_inv_def)
next
  case (return s s')
  then show ?case using ends_keeps [of s] by (auto simp: protocol_inv_def)
qed (auto simp: protocol_inv_def timer_keeps exits_keeps)

lemma protocol_reach: "steps\<^sup>*\<^sup>* sc sc' \<Longrightarrow> protocol_inv sc \<Longrightarrow> protocol_inv sc'"
  by (induction rule: rtranclp_induct) (auto intro: protocol_step)

lemma call_never_panics: "steps\<^sup>*\<^sup>* (s0, NotCalled) (s, NotCalled) \<Longrightarrow> protocol_inv (s0, NotCalled) \<Longrightarrow> begins s \<noteq> None"
  using protocol_reach begins_stops by (fastforce simp: protocol_inv_def)

lemma second_call_panics: "steps\<^sup>*\<^sup>* (s0, NotCalled) (s, c) \<Longrightarrow> protocol_inv (s0, NotCalled) \<Longrightarrow> c \<noteq> NotCalled \<Longrightarrow> begins s = None"
  using protocol_reach begins_once by (fastforce simp: protocol_inv_def)

lemma waiting_completes:
  assumes "steps\<^sup>*\<^sup>* (s0, NotCalled) (s, Waiting)" and "protocol_inv (s0, NotCalled)"
  shows "\<exists>s'. steps\<^sup>*\<^sup>* (s, Waiting) (s', Finished) \<and> ended s'"
proof -
  have s: "live s" "stopped s" using protocol_reach [OF assms] by (simp_all add: protocol_inv_def)
  obtain s1 where s1: "steps\<^sup>*\<^sup>* (s, Waiting) (s1, Waiting)" "ended s1" "live s1"
  proof (cases "ended s")
    case True
    then show ?thesis using that [of s] s by simp
  next
    case False
    then show ?thesis using that [of "exits s"] s exits_keeps by (blast intro: r_into_rtranclp close_step.exit)
  qed
  with ends_keeps [of s1] obtain s' where "ends s1 = Some s'" "ended s'" by auto
  with s1 show ?thesis by (blast intro: rtranclp.rtrancl_into_rtrancl close_step.return)
qed

lemma finished_after_loop:
  "steps\<^sup>*\<^sup>* (s0, NotCalled) (s, Finished) \<Longrightarrow> protocol_inv (s0, NotCalled) \<Longrightarrow> ended s"
  using protocol_reach by (fastforce simp: protocol_inv_def)

end

interpretation backend_stop: stop_protocol be_stopc be_donec "\<lambda>b. be_db b \<noteq> None" run_timer run_exit Close_begin "Close_end ops"
  for ops :: "('db, 'tx, 'e) bolt_ops"
  by unfold_locales (auto simp: run_timer_def run_exit_def Close_begin_def Close_end_def)

interpretation snapshot_stop: stop_protocol sn_stopc sn_donec "\<lambda>s. True" snapshot_ticker snapshot_exit snapshot_Close_begin "snapshot_Close_end ops"
  for ops :: "('db, 'tx, 'e) bolt_ops"
  by unfold_locales (auto simp: snapshot_ticker_def snapshot_exit_def snapshot_Close_begin_def snapshot_Close_end_def)

section \<open>Lemmas on the buffers and on commits\<close>

lemma reset_buckets_map:
  "distinct (map_keys es) \<Longrightarrow> map_of (reset_buckets es m) k =
    (case map_of es k of
       None \<Rightarrow> map_of m k
     | Some v \<Rightarrow> if bb_used v = 0 then None else Some (v\<lparr>bb_used := 0\<rparr>))"
proof (induction es m rule: reset_buckets.induct)
  case (2 k' v es m)
  then have "map_of es k' = None" by (simp add: map_of_None_keys)
  with 2 show ?case by (cases "bb_used v = 0") (auto simp: delete_conv' update_conv' split: option.splits)
qed simp

lemma reset_buckets_distinct: "distinct (map_keys m) \<Longrightarrow> distinct (map_keys (reset_buckets es m))"
  by (induction es m rule: reset_buckets.induct) (auto simp: distinct_update distinct_delete)

lemma reset_map:
  "distinct (map_keys b) \<Longrightarrow> map_of (txBuffer_reset b) k =
    (case map_of b k of
       None \<Rightarrow> None
     | Some v \<Rightarrow> if bb_used v = 0 then None else Some (v\<lparr>bb_used := 0\<rparr>))"
  by (simp add: txBuffer_reset_def reset_buckets_map split: option.splits)

lemma reset_unused: "(\<And>k v. map_of b k = Some v \<Longrightarrow> bb_used v = 0) \<Longrightarrow> distinct (map_keys b) \<Longrightarrow> txBuffer_reset b = []"
proof -
  assume "\<And>k v. map_of b k = Some v \<Longrightarrow> bb_used v = 0" and "distinct (map_keys b)"
  then have "map_of (txBuffer_reset b) = Map.empty"
    by (auto simp: reset_map fun_eq_iff split: option.splits)
  then show "txBuffer_reset b = []" by simp
qed

text \<open>The states a backend goes through, while nobody stops it.\<close>

inductive backend_reachable :: "('db, 'tx, 'e) bolt_ops \<Rightarrow> ('db, 'tx, 'b) backend \<Rightarrow> bool" for ops where
  new: "newBackend ops oo bcfg = Returned b \<Longrightarrow> backend_reachable ops b"
| commit: "backend_reachable ops b \<Longrightarrow> Commit b = Returned b' \<Longrightarrow> backend_reachable ops b'"
| lock: "backend_reachable ops b \<Longrightarrow> batchTx_Lock b = Returned b' \<Longrightarrow> backend_reachable ops b'"
| unlock: "backend_reachable ops b \<Longrightarrow> batchTx_Unlock b = Returned b' \<Longrightarrow> backend_reachable ops b'"
| rlock: "backend_reachable ops b \<Longrightarrow> readTx_RLock (be_readTx b) = Returned rt \<Longrightarrow>
    backend_reachable ops (b\<lparr>be_readTx := rt\<rparr>)"
| runlock: "backend_reachable ops b \<Longrightarrow> readTx_RUnlock (be_readTx b) = Returned rt \<Longrightarrow>
    backend_reachable ops (b\<lparr>be_readTx := rt\<rparr>)"
| bucket: "backend_reachable ops b \<Longrightarrow> UnsafeCreateBucket ops name b = Returned b' \<Longrightarrow> backend_reachable ops b'"
| snapshot: "backend_reachable ops b \<Longrightarrow> backend_Snapshot ops secs b = Returned (sn, b') \<Longrightarrow> backend_reachable ops b'"

definition no_tx :: "('db, 'tx, 'b) backend \<Rightarrow> bool" where
  "no_tx b \<longleftrightarrow> bt_tx (be_batchTx b) = None \<and> rt_tx (be_readTx b) = None \<and> be_commits b = 0"

text \<open>Without a transaction a commit either waits for a lock or gives the backend back as it was.\<close>

lemma Commit_no_tx:
  assumes "no_tx b"
  shows "Commit b = (if bt_locked (be_batchTx b) \<or> rt_mu (be_readTx b) \<noteq> unlocked then Waits else Returned b)"
proof (cases "bt_locked (be_batchTx b) \<or> rt_mu (be_readTx b) \<noteq> unlocked")
  case True
  then show ?thesis
    by (auto simp: Commit_def batchTx_Lock_def batchTx_commit_def readTx_Lock_def unlocked_def
        intro: rwmutex.equality)
next
  case False
  then have "b\<lparr>be_batchTx := (be_batchTx b)\<lparr>bt_locked := False\<rparr>, be_readTx := (be_readTx b)\<lparr>rt_mu := unlocked\<rparr>\<rparr> = b"
    by (intro backend.equality batchTx.equality readTx.equality) auto
  with False assms show ?thesis
    by (simp add: Commit_def batchTx_Lock_def batchTx_commit_def readTx_Lock_def readTx_Unlock_def unsafeCommit_def
        batchTx_Unlock_def no_tx_def unlocked_def)
qed

lemma newBackend_eq:
  assumes "newBackend ops oo bcfg = Returned b"
  shows "no_tx b \<and> \<not> be_stopc b \<and> \<not> be_donec b"
  using assms
  by (auto simp: newBackend_def Let_def Commit_no_tx no_tx_def newBatchTxBuffered_def unlocked_def split: if_splits)

lemma reachable_no_tx: "backend_reachable ops b \<Longrightarrow> no_tx b"
proof (induction rule: backend_reachable.induct)
  case (new oo bcfg b)
  then show ?case using newBackend_eq by auto
next
  case (commit b b')
  then show ?case by (simp add: Commit_no_tx split: if_splits)
next
  case (snapshot b secs sn b')
  then show ?case
    by (auto simp: backend_Snapshot_def Commit_no_tx split: if_splits option.splits sum.splits)
qed (auto simp: no_tx_def batchTx_Lock_def batchTx_Unlock_def readTx_RLock_def readTx_RUnlock_def
    UnsafeCreateBucket_def split: if_splits)

section \<open>Properties\<close>

text \<open>Resetting a transaction buffer keeps exactly the buckets that were written since the last
  reset, each with its space and marked empty; a bucket that two resets find unused is gone, so a
  second reset right after the first leaves nothing.\<close>

lemma txBuffer_reset_result:
  assumes "distinct (map_keys b)"
  shows "map_of (txBuffer_reset b) k =
      (case map_of b k of
         None \<Rightarrow> None
       | Some v \<Rightarrow> if bb_used v = 0 then None else Some \<lparr>bb_buf = bb_buf v, bb_used = 0\<rparr>) \<and>
    txBuffer_reset (txBuffer_reset b) = []"
proof -
  have "bb_used v = 0" if "map_of (txBuffer_reset b) k = Some v" for k v
    using that by (auto simp: reset_map [OF assms] split: option.splits if_splits)
  moreover have "distinct (map_keys (txBuffer_reset b))"
    using assms by (simp add: txBuffer_reset_def reset_buckets_distinct)
  ultimately have "txBuffer_reset (txBuffer_reset b) = []" by (rule reset_unused)
  then show ?thesis by (auto simp: reset_map [OF assms] split: option.splits)
qed


definition example_bolt :: "(nat, nat, string) bolt_ops" where
  "example_bolt =
     \<lparr>bolt_Open = (\<lambda>p o'. if p = [] then Inl ''no path'' else Inr 0), bolt_Begin = (\<lambda>db. Inr 0), bolt_Size = (\<lambda>tx. 4096),
      bolt_CreateBucket = (\<lambda>n tx. (None, tx + 1)), bolt_bucket_exists = (\<lambda>e. False),
      bolt_Rollback = (\<lambda>tx. (None, tx)), bolt_Close = (\<lambda>db. (None, db + 1))\<rparr>"

definition example_backend :: "(nat, nat, nat) backend" where
  "example_backend =
     \<lparr>be_size = 0, be_sizeInUse = 0, be_commits = 0, be_openReadTxN = 0, be_db = Some 0,
      be_batchInterval = 100000000, be_batchLimit = 10000, be_batchTx = newBatchTxBuffered,
      be_readTx = \<lparr>rt_mu = unlocked, rt_buf = [], rt_tx = None, rt_buckets = [], rt_txWg = 0\<rparr>,
      be_stopc = False, be_donec = False, be_lg = False\<rparr>"

lemma example_backend_new: "NewDefaultBackend example_bolt boltOpenOptions_linux ''db'' = Returned example_backend"
  by code_simp


text \<open>No transaction is ever open in a running backend: a commit that returns leaves the backend
  as it was, nothing is counted as committed, and creating a bucket panics whatever bolt does.\<close>

lemma backend_has_no_transaction:
  assumes "backend_reachable ops b"
  shows "(case Commit b of Returned b' \<Rightarrow> b' = b | Waits \<Rightarrow> bt_locked (be_batchTx b) \<or> rt_mu (be_readTx b) \<noteq> unlocked
          | Panics \<Rightarrow> False) \<and>
    backend_Commits b = 0 \<and> UnsafeCreateBucket ops name b = Panics"
  using reachable_no_tx [OF assms]
  by (simp add: Commit_no_tx backend_Commits_def UnsafeCreateBucket_def no_tx_def)

end
