(* ===== verification/Server_Config.thy ===== *)
theory Server_Config
  imports Membership Wal_Files Backend_Tx
begin

text \<open>
  \<open>etcdserver/config.go\<close>, \<open>etcdserver/backend.go\<close>, \<open>etcdserver/quota.go\<close> and \<open>etcdserver/cluster_util.go\<close>:
  the configuration of a server with the paths and timeouts derived from it, the configuration of
  its backend, the quota, and the query of remote peers.

  Durations are nanoseconds in 64-bit integers; every product and sum wraps as in Go. Loggers are
  present or not. TLS settings are an argument type. In \<open>InitialPeerURLsMap\<close> the empty list stands for the
  nil slice: the parser of the setting never produces an empty one.
\<close>

section \<open>ServerConfig\<close>

record ('u, 'tls) ServerConfig =
  sc_Name :: string
  sc_DiscoveryURL :: string
  sc_DiscoveryProxy :: string
  sc_ClientURLs :: "'u URLs"
  sc_PeerURLs :: "'u URLs"
  sc_DataDir :: string
  sc_DedicatedWALDir :: string
  sc_SnapshotCount :: u64
  sc_SnapshotCatchUpEntries :: u64
  sc_MaxSnapFiles :: u64
  sc_MaxWALFiles :: u64
  sc_BackendBatchInterval :: int
  sc_BackendBatchLimit :: int
  sc_BackendFreelistType :: string
  sc_InitialPeerURLsMap :: "'u URLsMap"
  sc_InitialClusterToken :: string
  sc_NewCluster :: bool
  sc_PeerTLSInfo :: 'tls
  sc_CORS :: "string list"
  sc_HostWhitelist :: "string list"
  sc_TickMs :: u64
  sc_ElectionTicks :: int
  sc_InitialElectionTickAdvance :: bool
  sc_BootstrapTimeout :: int
  sc_AutoCompactionRetention :: int
  sc_AutoCompactionMode :: string
  sc_QuotaBackendBytes :: int
  sc_MaxTxnOps :: u64
  sc_MaxRequestBytes :: u64
  sc_StrictReconfigCheck :: bool
  sc_ClientCertAuthEnabled :: bool
  sc_AuthToken :: string
  sc_BcryptCost :: u64
  sc_InitialCorruptCheck :: bool
  sc_CorruptCheckTime :: int
  sc_PreVote :: bool
  sc_Logger :: bool
  sc_LoggerConfig :: bool
  sc_LoggerCore :: bool
  sc_LoggerWriteSyncer :: bool
  sc_Debug :: bool
  sc_ForceNewCluster :: bool
  sc_EnableLeaseCheckpoint :: bool
  sc_LeaseCheckpointInterval :: int
  sc_EnableGRPCGateway :: bool

datatype config_error = ErrNoLocalName string

definition hasLocalMember :: "('u, 'tls) ServerConfig \<Rightarrow> config_error option" where
  "hasLocalMember c =
     (case map_of (sc_InitialPeerURLsMap c) (sc_Name c) of
        None \<Rightarrow> Some (ErrNoLocalName (sc_Name c))
      | Some urls \<Rightarrow> if urls = [] then Some (ErrNoLocalName (sc_Name c)) else None)"

definition VerifyBootstrap :: "('u, 'tls) ServerConfig \<Rightarrow> config_error option" where
  "VerifyBootstrap c = (case hasLocalMember c of Some err \<Rightarrow> Some err | None \<Rightarrow> None)"

definition MemberDir :: "('u, 'tls) ServerConfig \<Rightarrow> string" where
  "MemberDir c = path_Join [sc_DataDir c, ''member'']"

definition WALDir :: "('u, 'tls) ServerConfig \<Rightarrow> string" where
  "WALDir c = (if sc_DedicatedWALDir c \<noteq> [] then sc_DedicatedWALDir c else path_Join [MemberDir c, ''wal''])"

definition SnapDir :: "('u, 'tls) ServerConfig \<Rightarrow> string" where
  "SnapDir c = path_Join [MemberDir c, ''snap'']"

definition ShouldDiscover :: "('u, 'tls) ServerConfig \<Rightarrow> bool" where
  "ShouldDiscover c = (sc_DiscoveryURL c \<noteq> [])"

text \<open>\<open>time.Duration(c.ElectionTicks*int(c.TickMs)) * time.Millisecond\<close>\<close>

definition electionTimeout :: "('u, 'tls) ServerConfig \<Rightarrow> int" where
  "electionTimeout c = wrap_int (wrap_int (sc_ElectionTicks c * sint (sc_TickMs c)) * 1000000)"

definition ReqTimeout :: "('u, 'tls) ServerConfig \<Rightarrow> int" where
  "ReqTimeout c =
     wrap_int (5 * 1000000000 +
       wrap_int (wrap_int (2 * wrap_int (sc_ElectionTicks c * sint (sc_TickMs c))) * 1000000))"

definition peerDialTimeout :: "('u, 'tls) ServerConfig \<Rightarrow> int" where
  "peerDialTimeout c =
     wrap_int (1000000000 + wrap_int (wrap_int (sc_ElectionTicks c * sint (sc_TickMs c)) * 1000000))"

fun dup_loop :: "'u url_ops \<Rightarrow> 'u list \<Rightarrow> string list \<Rightarrow> string list option" where
  "dup_loop ops [] um = Some um"
| "dup_loop ops (url # urls) um =
     (let u = url_String ops url in if u \<in> set um then None else dup_loop ops urls (u # um))"

fun dup_maps :: "'u url_ops \<Rightarrow> 'u URLsMap \<Rightarrow> string list \<Rightarrow> bool" where
  "dup_maps ops [] um = False"
| "dup_maps ops ((name, urls) # es) um =
     (case dup_loop ops urls um of None \<Rightarrow> True | Some um' \<Rightarrow> dup_maps ops es um')"

definition checkDuplicateURL :: "'u url_ops \<Rightarrow> 'u URLsMap \<Rightarrow> bool" where
  "checkDuplicateURL ops urlsmap = dup_maps ops urlsmap []"

definition bootstrapTimeout :: "('u, 'tls) ServerConfig \<Rightarrow> int" where
  "bootstrapTimeout c = (if sc_BootstrapTimeout c \<noteq> 0 then sc_BootstrapTimeout c else 1000000000)"

definition backendPath :: "('u, 'tls) ServerConfig \<Rightarrow> string" where
  "backendPath c = path_Join [SnapDir c, ''db'']"

section \<open>The backend of a server\<close>

definition DefaultQuotaBytes :: int where
  "DefaultQuotaBytes = 2 * 1024 * 1024 * 1024"

definition MaxQuotaBytes :: int where
  "MaxQuotaBytes = 8 * 1024 * 1024 * 1024"

text \<open>Go's division rounds towards zero; the quota is positive where it is divided.\<close>

definition server_backend_config :: "('u, 'tls) ServerConfig \<Rightarrow> BackendConfig" where
  "server_backend_config cfg =
     (let bcfg = DefaultBackendConfig\<lparr>bc_Path := backendPath cfg\<rparr>;
          bcfg = (if sc_BackendBatchLimit cfg \<noteq> 0 then bcfg\<lparr>bc_BatchLimit := sc_BackendBatchLimit cfg\<rparr> else bcfg);
          bcfg = (if sc_BackendBatchInterval cfg \<noteq> 0
                  then bcfg\<lparr>bc_BatchInterval := sc_BackendBatchInterval cfg\<rparr> else bcfg);
          bcfg = bcfg\<lparr>bc_FreelistType := sc_BackendFreelistType cfg, bc_Logger := sc_Logger cfg\<rparr>
      in if sc_QuotaBackendBytes cfg > 0 \<and> sc_QuotaBackendBytes cfg \<noteq> DefaultQuotaBytes
         then bcfg\<lparr>bc_MmapSize := of_int (sc_QuotaBackendBytes cfg + sc_QuotaBackendBytes cfg div 10)\<rparr>
         else bcfg)"

definition server_newBackend ::
  "('db, 'tx, 'e) bolt_ops \<Rightarrow> bolt_Options option \<Rightarrow> ('u, 'tls) ServerConfig \<Rightarrow> ('db, 'tx, 'b) backend call_result" where
  "server_newBackend ops oo cfg = newBackend ops oo (server_backend_config cfg)"

text \<open>\<open>openBackend\<close> starts \<open>newBackend\<close> in a goroutine, logs a line when it takes longer than ten
  seconds, and returns its result whenever that comes.\<close>

definition openBackend ::
  "('db, 'tx, 'e) bolt_ops \<Rightarrow> bolt_Options option \<Rightarrow> ('u, 'tls) ServerConfig \<Rightarrow> ('db, 'tx, 'b) backend call_result" where
  "openBackend ops oo cfg = server_newBackend ops oo cfg"

section \<open>Quota\<close>

datatype Quota = passthroughQuota

definition Quota_Available :: "Quota \<Rightarrow> bool" where
  "Quota_Available q = (case q of passthroughQuota \<Rightarrow> True)"

definition Quota_Cost :: "Quota \<Rightarrow> int" where
  "Quota_Cost q = (case q of passthroughQuota \<Rightarrow> 0)"

definition Quota_Remaining :: "Quota \<Rightarrow> int" where
  "Quota_Remaining q = (case q of passthroughQuota \<Rightarrow> 1)"

text \<open>The nil interface is \<open>None\<close>.\<close>

definition NewBackendQuota :: "('u, 'tls) ServerConfig \<Rightarrow> Quota option" where
  "NewBackendQuota cfg = (if sc_QuotaBackendBytes cfg < 0 then Some passthroughQuota else None)"

section \<open>Remote peers\<close>

definition getRemotePeerURLs :: "('v, 'b) RaftCluster \<Rightarrow> string \<Rightarrow> string list" where
  "getRemotePeerURLs cl local =
     sort (concat (map (\<lambda>m. if mb_Name m = local then [] else (case mb_PeerURLs m of None \<Rightarrow> [] | Some us \<Rightarrow> us))
       (cluster_Members cl)))"

text \<open>\<open>getClusterFromRemotePeers\<close> asks every address and prints what it gets; after the loop it always
  returns an error. The argument \<open>get\<close> is the HTTP client; a result is \<open>Inl\<close> of the addresses asked.\<close>

definition getClusterFromRemotePeers ::
  "(string \<Rightarrow> 'e + bytes) \<Rightarrow> string list \<Rightarrow> string list + ('v, 'b) RaftCluster" where
  "getClusterFromRemotePeers get urls = Inl (map (\<lambda>u. u @ ''/members'') urls)"

definition isMemberBootstrapped ::
  "(string \<Rightarrow> 'e + bytes) \<Rightarrow> bool \<Rightarrow> ('v, 'b) RaftCluster \<Rightarrow> string \<Rightarrow> bool option" where
  "isMemberBootstrapped get lg cl member =
     (case (getClusterFromRemotePeers get (getRemotePeerURLs cl member) :: string list + ('v, 'b) RaftCluster) of
        Inl err \<Rightarrow> Some False
      | Inr rcl \<Rightarrow>
          do { mo \<leftarrow> MemberByName lg member cl;
               mb \<leftarrow> mo;
               Some (case cluster_Member (mb_ID mb) rcl of
                       None \<Rightarrow> False
                     | Some m \<Rightarrow> (case mb_ClientURLs m of None \<Rightarrow> False | Some us \<Rightarrow> 0 < length us)) })"

section \<open>Lemmas\<close>

lemma not_bootstrapped: "isMemberBootstrapped get lg cl member = Some False"
  by (simp add: isMemberBootstrapped_def getClusterFromRemotePeers_def)

lemma dup_loop_result:
  "dup_loop ops urls um =
    (if distinct (map (url_String ops) urls) \<and> url_String ops ` set urls \<inter> set um = {}
     then Some (rev (map (url_String ops) urls) @ um) else None)"
  by (induction urls arbitrary: um) (auto simp: Let_def)

lemma dup_maps_result:
  "\<not> dup_maps ops es um \<longleftrightarrow>
    distinct (map (url_String ops) (concat (map snd es))) \<and> url_String ops ` set (concat (map snd es)) \<inter> set um = {}"
proof (induction es arbitrary: um)
  case (Cons e es)
  obtain name urls where e: "e = (name, urls)" by (cases e)
  show ?case
  proof (cases "distinct (map (url_String ops) urls) \<and> url_String ops ` set urls \<inter> set um = {}")
    case True
    then have "dup_maps ops (e # es) um = dup_maps ops es (rev (map (url_String ops) urls) @ um)"
      by (simp add: e dup_loop_result)
    with Cons.IH [of "rev (map (url_String ops) urls) @ um"] True show ?thesis
      by (simp add: e image_Un Int_Un_distrib Int_Un_distrib2 Int_commute conj_ac)
  next
    case False
    then have "dup_maps ops (e # es) um" unfolding e dup_maps.simps dup_loop_result by (simp only: if_False option.case)
    with False show ?thesis by (auto simp: e)
  qed
qed simp

lemma checkDuplicateURL_iff:
  "checkDuplicateURL ops m \<longleftrightarrow> \<not> distinct (map (url_String ops) (concat (map snd m)))"
  using dup_maps_result [of ops m "[]"] by (auto simp: checkDuplicateURL_def)

text \<open>The timeouts agree with unbounded arithmetic as long as the election timeout stays below the
  range of a duration.\<close>

lemma timeouts_exact:
  assumes "0 \<le> sc_ElectionTicks c * sint (sc_TickMs c)" and "sc_ElectionTicks c * sint (sc_TickMs c) < 2 ^ 41"
  shows "electionTimeout c = sc_ElectionTicks c * sint (sc_TickMs c) * 1000000"
    and "ReqTimeout c = 5 * 1000000000 + 2 * electionTimeout c"
    and "peerDialTimeout c = 1000000000 + electionTimeout c"
  using assms by (simp_all add: electionTimeout_def ReqTimeout_def peerDialTimeout_def)

end
