(* ===== verification/Proto_Wire.thy ===== *)
theory Proto_Wire
  imports Etcd_Prelude
begin

text \<open>
  The protocol-buffer wire format as the generated code of \<open>raft/raftpb/raft.pb.go\<close> writes
  and reads it: \<open>encodeVarintRaft\<close>, \<open>sovRaft\<close>, \<open>skipRaft\<close>, and the pieces every generated
  \<open>MarshalTo\<close> and \<open>Unmarshal\<close> is made of.

  Writing is modelled on the buffer the code writes into: \<open>MarshalTo\<close> stores byte by byte
  into a slice of fixed length and panics on a store past its end, so that \<open>Marshal\<close>
  returning the right bytes depends on \<open>Size\<close> being exact. Reading is modelled on the whole
  input and the position \<open>iNdEx\<close> in it. The generated \<open>Unmarshal\<close> functions differ only in
  the cases of their \<open>switch fieldNum\<close>; a case is one of the templates of the datatype
  \<open>field\<close>, and \<open>unmarshal_loop\<close> is the loop around the switch.
\<close>

unbundle bit_operations_syntax

named_theorems wire_writes \<open>what a writer stores\<close>

section \<open>Varints\<close>

datatype proto_error =
    ErrIntOverflowRaft
  | ErrUnexpectedEOF
  | ErrInvalidLengthRaft
  | ErrEndGroup
  | ErrIllegalTag
  | ErrWrongWireType
  | ErrIllegalWireType

lemma drop_bit_7_less: "(128 :: u64) \<le> v \<Longrightarrow> unat (drop_bit 7 v) < unat v"
proof -
  assume "128 \<le> v"
  then have "128 \<le> unat v" by (simp add: word_le_nat_alt)
  then show ?thesis by (simp add: drop_bit_eq_div unat_div)
qed

lemma drop_bit_7_less': "drop_bit 7 (v :: u64) \<noteq> 0 \<Longrightarrow> unat (drop_bit 7 v) < unat v"
proof -
  assume "drop_bit 7 v \<noteq> 0"
  then have "unat (drop_bit 7 v) \<noteq> 0" by (simp add: unsigned_eq_0_iff)
  then have "128 \<le> unat v" by (simp add: drop_bit_eq_div unat_div)
  then show ?thesis by (intro drop_bit_7_less) (simp add: word_le_nat_alt)
qed

text \<open>\<open>encodeVarintRaft\<close> stores at \<open>offset\<close> and returns the position after the last byte.\<close>

function encodeVarintRaft :: "bytes \<Rightarrow> nat \<Rightarrow> u64 \<Rightarrow> (bytes \<times> nat) option" where
  "encodeVarintRaft dAtA offset v =
     (if 128 \<le> v
      then do { dAtA' \<leftarrow> go_store dAtA offset (ucast ((v AND 127) OR 128));
                encodeVarintRaft dAtA' (offset + 1) (drop_bit 7 v) }
      else do { dAtA' \<leftarrow> go_store dAtA offset (ucast v);
                Some (dAtA', offset + 1) })"
  by pat_completeness auto
termination
  by (relation "measure (\<lambda>(d, off, v). unat v)") (auto intro: drop_bit_7_less)

text \<open>\<open>sovRaft\<close>: the number of bytes a varint takes.\<close>

function sovRaft :: "u64 \<Rightarrow> nat" where
  "sovRaft x = (let x' = drop_bit 7 x in if x' = 0 then 1 else 1 + sovRaft x')"
  by pat_completeness auto
termination
  by (relation "measure unat") (auto intro: drop_bit_7_less')

text \<open>The byte sequence of a varint, least significant group first.\<close>

function varint :: "u64 \<Rightarrow> bytes" where
  "varint v = (if 128 \<le> v then ucast ((v AND 127) OR 128) # varint (drop_bit 7 v)
               else [ucast v])"
  by pat_completeness auto
termination
  by (relation "measure unat") (auto intro: drop_bit_7_less)

text \<open>
  The reading loop \<open>for shift := uint(0); ; shift += 7\<close>. The accumulator's type is that of
  the variable the code accumulates into: \<open>uint64\<close>, an \<open>int32\<close> enum, or \<open>int\<close>; bits
  shifted past its width are lost, as in Go.
\<close>

function varint_loop ::
  "bytes \<Rightarrow> nat \<Rightarrow> nat \<Rightarrow> 'a::len word \<Rightarrow> proto_error + 'a word \<times> nat" where
  "varint_loop dAtA iNdEx shift acc =
     (if 64 \<le> shift then Inl ErrIntOverflowRaft
      else if length dAtA \<le> iNdEx then Inl ErrUnexpectedEOF
      else let b = dAtA ! iNdEx;
               acc' = acc OR push_bit shift (ucast b AND 127)
           in if b < 128 then Inr (acc', iNdEx + 1)
              else varint_loop dAtA (iNdEx + 1) (shift + 7) acc')"
  by pat_completeness auto
termination
  by (relation "measure (\<lambda>(d, i, shift, acc). 64 - shift)") auto

declare encodeVarintRaft.simps [simp del] sovRaft.simps [simp del] varint.simps [simp del]
  varint_loop.simps [simp del]

definition read_varint :: "bytes \<Rightarrow> nat \<Rightarrow> proto_error + 'a::len word \<times> nat" where
  "read_varint dAtA iNdEx = varint_loop dAtA iNdEx 0 0"

lemma varint_loop_progress:
  "varint_loop dAtA i shift acc = Inr (v, i') \<Longrightarrow> i < i' \<and> i' \<le> length dAtA"
proof (induction dAtA i shift acc rule: varint_loop.induct)
  case (1 dAtA i shift acc)
  show ?case
  proof (cases "64 \<le> shift \<or> length dAtA \<le> i \<or> dAtA ! i < 128")
    case True
    with "1.prems" show ?thesis
      by (auto simp: varint_loop.simps [of dAtA i shift acc] Let_def split: if_splits)
  next
    case False
    with "1.prems" have
      "varint_loop dAtA (i + 1) (shift + 7) (acc OR push_bit shift (ucast (dAtA ! i) AND 127))
         = Inr (v, i')"
      by (simp add: varint_loop.simps [of dAtA i shift acc] Let_def)
    with "1.IH" False show ?thesis by fastforce
  qed
qed

lemma read_varint_progress:
  "read_varint dAtA i = Inr (v, i') \<Longrightarrow> i < i' \<and> i' \<le> length dAtA"
  unfolding read_varint_def by (rule varint_loop_progress)

section \<open>Skipping an unknown field\<close>

text \<open>
  The wire type 0 branch of \<open>skipRaft\<close>: the loop that passes over a varint without keeping it.
\<close>

definition skip_varint :: "bytes \<Rightarrow> nat \<Rightarrow> proto_error + nat" where
  "skip_varint dAtA iNdEx =
     (case (read_varint dAtA iNdEx :: proto_error + u64 \<times> nat) of
        Inl e \<Rightarrow> Inl e | Inr (_, i) \<Rightarrow> Inr i)"

text \<open>
  \<open>skipRaft\<close> returns the length of the field that starts the input, and \<open>skip_group\<close> is its
  loop for wire type 3, from position \<open>iNdEx\<close> to the matching end of group. The length of a
  length-delimited field is added without an overflow check, so the result can be negative;
  inside a group a negative position then panics at the next read.
\<close>

function skipRaft :: "bytes \<Rightarrow> (proto_error + int) option"
  and skip_group :: "bytes \<Rightarrow> nat \<Rightarrow> (proto_error + int) option" where
  "skipRaft dAtA =
     (if dAtA = [] then None
      else case (read_varint dAtA 0 :: proto_error + u64 \<times> nat) of
        Inl e \<Rightarrow> Some (Inl e)
      | Inr (wire, i) \<Rightarrow>
          (let wireType = wire AND 7 in
           if wireType = 0 then
             (case skip_varint dAtA i of Inl e \<Rightarrow> Some (Inl e) | Inr i' \<Rightarrow> Some (Inr (int i')))
           else if wireType = 1 then Some (Inr (int i + 8))
           else if wireType = 2 then
             (case (read_varint dAtA i :: proto_error + u64 \<times> nat) of
                Inl e \<Rightarrow> Some (Inl e)
              | Inr (len, i') \<Rightarrow>
                  (if sint len < 0 then Some (Inl ErrInvalidLengthRaft)
                   else Some (Inr (wrap_int (int i' + sint len)))))
           else if wireType = 3 then skip_group dAtA i
           else if wireType = 4 then Some (Inr (int i))
           else if wireType = 5 then Some (Inr (int i + 4))
           else Some (Inl ErrIllegalWireType)))"
| "skip_group dAtA start =
     (case (read_varint dAtA start :: proto_error + u64 \<times> nat) of
        Inl e \<Rightarrow> Some (Inl e)
      | Inr (innerWire, i) \<Rightarrow>
          (if innerWire AND 7 = 4 then Some (Inr (int i))
           else case skipRaft (drop start dAtA) of
                  None \<Rightarrow> None
                | Some (Inl e) \<Rightarrow> Some (Inl e)
                | Some (Inr next) \<Rightarrow>
                    (if 0 < next then skip_group dAtA (start + nat next) else None)))"
  by pat_completeness auto
termination
  by (relation "measure (\<lambda>s. case s of Inl d \<Rightarrow> 2 * length d
                              | Inr (d, i) \<Rightarrow> 2 * (length d - i) + 1)")
    (auto dest!: read_varint_progress)

declare skipRaft.simps [simp del] skip_group.simps [simp del]

section \<open>Reading one field, and the loop of a generated Unmarshal\<close>

text \<open>
  The templates of a \<open>case\<close> in \<open>switch fieldNum\<close>: a \<open>uint64\<close>, an enum of 32 bits, a bool,
  a byte string, an embedded message and a repeated \<open>uint64\<close> that may also arrive packed.
  Each carries what the case does to the message with the value it read.
\<close>

datatype 'm field =
    FUint64 "u64 \<Rightarrow> 'm \<Rightarrow> 'm"
  | FEnum "int32 \<Rightarrow> 'm \<Rightarrow> 'm"
  | FBool "bool \<Rightarrow> 'm \<Rightarrow> 'm"
  | FBytes "bytes \<Rightarrow> 'm \<Rightarrow> 'm"
  | FMessage "bytes \<Rightarrow> 'm \<Rightarrow> (proto_error + 'm) option"
  | FRepeated64 "u64 \<Rightarrow> 'm \<Rightarrow> 'm"

text \<open>A length prefix: the position after it and \<open>postIndex\<close>, the sum that may wrap.\<close>

definition read_length :: "bytes \<Rightarrow> nat \<Rightarrow> proto_error + nat \<times> int" where
  "read_length dAtA iNdEx =
     (case (read_varint dAtA iNdEx :: proto_error + u64 \<times> nat) of
        Inl e \<Rightarrow> Inl e
      | Inr (len, i) \<Rightarrow>
          (if sint len < 0 then Inl ErrInvalidLengthRaft
           else let postIndex = wrap_int (int i + sint len)
                in if int (length dAtA) < postIndex then Inl ErrUnexpectedEOF
                   else Inr (i, postIndex)))"

text \<open>\<open>dAtA[iNdEx:postIndex]\<close> panics when \<open>postIndex\<close> wrapped below \<open>iNdEx\<close>.\<close>

definition byte_range :: "bytes \<Rightarrow> nat \<Rightarrow> int \<Rightarrow> bytes option" where
  "byte_range dAtA i postIndex =
     (if int i \<le> postIndex then go_slice dAtA i (nat postIndex) else None)"

function read_packed ::
  "(u64 \<Rightarrow> 'm \<Rightarrow> 'm) \<Rightarrow> bytes \<Rightarrow> int \<Rightarrow> nat \<Rightarrow> 'm \<Rightarrow> proto_error + 'm \<times> nat" where
  "read_packed add dAtA postIndex i m =
     (if int i < postIndex then
        (case read_varint dAtA i of
           Inl e \<Rightarrow> Inl e
         | Inr (v, i') \<Rightarrow> read_packed add dAtA postIndex i' (add v m))
      else Inr (m, i))"
  by pat_completeness auto
termination
  by (relation "measure (\<lambda>(a, d, p, i, m). length d - i)") (auto dest!: read_varint_progress)

declare read_packed.simps [simp del]

fun read_field ::
  "'m field \<Rightarrow> u64 \<Rightarrow> bytes \<Rightarrow> nat \<Rightarrow> 'm \<Rightarrow> (proto_error + 'm \<times> nat) option" where
  "read_field (FUint64 put) wireType dAtA i m =
     (if wireType \<noteq> 0 then Some (Inl ErrWrongWireType)
      else case read_varint dAtA i of
             Inl e \<Rightarrow> Some (Inl e) | Inr (v, i') \<Rightarrow> Some (Inr (put v m, i')))"
| "read_field (FEnum put) wireType dAtA i m =
     (if wireType \<noteq> 0 then Some (Inl ErrWrongWireType)
      else case read_varint dAtA i of
             Inl e \<Rightarrow> Some (Inl e) | Inr (v, i') \<Rightarrow> Some (Inr (put v m, i')))"
| "read_field (FBool put) wireType dAtA i m =
     (if wireType \<noteq> 0 then Some (Inl ErrWrongWireType)
      else case (read_varint dAtA i :: proto_error + u64 \<times> nat) of
             Inl e \<Rightarrow> Some (Inl e) | Inr (v, i') \<Rightarrow> Some (Inr (put (v \<noteq> 0) m, i')))"
| "read_field (FBytes put) wireType dAtA i m =
     (if wireType \<noteq> 2 then Some (Inl ErrWrongWireType)
      else case read_length dAtA i of
             Inl e \<Rightarrow> Some (Inl e)
           | Inr (i', postIndex) \<Rightarrow>
               do { bs \<leftarrow> byte_range dAtA i' postIndex;
                    Some (Inr (put bs m, nat postIndex)) })"
| "read_field (FMessage put) wireType dAtA i m =
     (if wireType \<noteq> 2 then Some (Inl ErrWrongWireType)
      else case read_length dAtA i of
             Inl e \<Rightarrow> Some (Inl e)
           | Inr (i', postIndex) \<Rightarrow>
               do { bs \<leftarrow> byte_range dAtA i' postIndex;
                    r \<leftarrow> put bs m;
                    (case r of Inl e \<Rightarrow> Some (Inl e)
                     | Inr m' \<Rightarrow> Some (Inr (m', nat postIndex))) })"
| "read_field (FRepeated64 add) wireType dAtA i m =
     (if wireType = 0 then
        (case read_varint dAtA i of
           Inl e \<Rightarrow> Some (Inl e) | Inr (v, i') \<Rightarrow> Some (Inr (add v m, i')))
      else if wireType = 2 then
        (case read_length dAtA i of
           Inl e \<Rightarrow> Some (Inl e)
         | Inr (i', postIndex) \<Rightarrow> Some (read_packed add dAtA postIndex i' m))
      else Some (Inl ErrWrongWireType))"

lemma read_length_progress: "read_length dAtA i = Inr (i', p) \<Longrightarrow> i < i' \<and> i' \<le> length dAtA"
  by (auto simp: read_length_def Let_def dest!: read_varint_progress
      split: sum.splits prod.splits if_splits)

lemma read_packed_progress:
  "read_packed add dAtA p i m = Inr (m', i') \<Longrightarrow> i \<le> i' \<and> (i \<le> length dAtA \<longrightarrow> i' \<le> length dAtA)"
proof (induction add dAtA p i m rule: read_packed.induct)
  case (1 add dAtA p i m)
  then show ?case
    by (subst (asm) (2) read_packed.simps)
      (fastforce dest!: read_varint_progress split: if_splits sum.splits prod.splits)
qed

lemma byte_range_Some:
  "byte_range dAtA i p = Some bs \<Longrightarrow> int i \<le> p \<and> p \<le> int (length dAtA)"
  by (auto simp: byte_range_def go_slice_def split: if_splits)

lemma case_message_result:
  "(case r of Inl e \<Rightarrow> Some (Inl e) | Inr m' \<Rightarrow> Some (Inr (m', p))) = Some (Inr (x, y))
     \<longleftrightarrow> r = Inr x \<and> p = y"
  by (cases r) auto

lemma read_field_progress:
  "read_field f wt dAtA i m = Some (Inr (m', i')) \<Longrightarrow> i < i' \<and> i' \<le> length dAtA"
proof (cases f)
  case (FMessage put)
  moreover assume "read_field f wt dAtA i m = Some (Inr (m', i'))"
  ultimately obtain j p bs where "read_length dAtA i = Inr (j, p)" "byte_range dAtA j p = Some bs"
    "i' = nat p"
    by (auto simp: bind_eq_Some_conv case_message_result split: if_splits sum.splits)
  then show ?thesis by (auto dest!: read_length_progress byte_range_Some)
next
  case (FRepeated64 add)
  then show "read_field f wt dAtA i m = Some (Inr (m', i')) \<Longrightarrow> i < i' \<and> i' \<le> length dAtA"
    by (auto dest!: read_varint_progress split: if_splits sum.splits)
      (auto dest!: read_length_progress dest: read_packed_progress less_le_trans)
qed (auto dest!: read_varint_progress read_length_progress byte_range_Some
      simp: bind_eq_Some_conv split: if_splits sum.splits prod.splits)

text \<open>
  The loop of a generated \<open>Unmarshal\<close>: read the tag, refuse an end-group or an illegal tag,
  run the case of the field, and keep a field no case knows, tag included, with the message's
  unrecognized bytes (\<open>keep\<close>). \<open>skipRaft\<close> never returns 0 on an input shorter than
  \<open>2 ^ 63\<close> bytes, so \<open>dAtA[iNdEx:iNdEx+skippy]\<close> is empty only where the sum wrapped and
  the slice panics.
\<close>

function unmarshal_loop ::
  "(int32 \<Rightarrow> 'm field option) \<Rightarrow> (bytes \<Rightarrow> 'm \<Rightarrow> 'm) \<Rightarrow> bytes \<Rightarrow> 'm \<Rightarrow> nat
     \<Rightarrow> (proto_error + 'm) option" where
  "unmarshal_loop fields keep dAtA m iNdEx =
     (if length dAtA \<le> iNdEx then
        (if length dAtA < iNdEx then Some (Inl ErrUnexpectedEOF) else Some (Inr m))
      else case (read_varint dAtA iNdEx :: proto_error + u64 \<times> nat) of
        Inl e \<Rightarrow> Some (Inl e)
      | Inr (wire, i) \<Rightarrow>
          (let fieldNum = (ucast (drop_bit 3 wire) :: int32); wireType = wire AND 7 in
           if wireType = 4 then Some (Inl ErrEndGroup)
           else if sint fieldNum \<le> 0 then Some (Inl ErrIllegalTag)
           else case fields fieldNum of
                  Some f \<Rightarrow>
                    (case read_field f wireType dAtA i m of
                       None \<Rightarrow> None
                     | Some (Inl e) \<Rightarrow> Some (Inl e)
                     | Some (Inr (m', i')) \<Rightarrow> unmarshal_loop fields keep dAtA m' i')
                | None \<Rightarrow>
                    (case skipRaft (drop iNdEx dAtA) of
                       None \<Rightarrow> None
                     | Some (Inl e) \<Rightarrow> Some (Inl e)
                     | Some (Inr skippy) \<Rightarrow>
                         (let postIndex = wrap_int (int iNdEx + skippy) in
                          if skippy < 0 then Some (Inl ErrInvalidLengthRaft)
                          else if int (length dAtA) < postIndex then Some (Inl ErrUnexpectedEOF)
                          else if int iNdEx < postIndex then
                            unmarshal_loop fields keep dAtA
                              (keep (take (nat postIndex - iNdEx) (drop iNdEx dAtA)) m)
                              (nat postIndex)
                          else None))))"
  by pat_completeness auto
termination
  by (relation "measure (\<lambda>(f, k, d, m, i). length d - i)")
    (auto dest!: read_varint_progress read_field_progress)

declare unmarshal_loop.simps [simp del]

text \<open>\<open>append(m.XXX_unrecognized, \<dots>)\<close>\<close>

definition keep_bytes :: "bytes \<Rightarrow> bytes option \<Rightarrow> bytes option" where
  "keep_bytes bs x = Some ((case x of None \<Rightarrow> [] | Some old \<Rightarrow> old) @ bs)"

section \<open>Writing into a buffer\<close>

type_synonym writer = "bytes \<Rightarrow> nat \<Rightarrow> (bytes \<times> nat) option"

text \<open>\<open>dAtA[i] = b; i++\<close>\<close>

definition put_byte :: "byte \<Rightarrow> writer" where
  "put_byte b dAtA i = do { dAtA' \<leftarrow> go_store dAtA i b; Some (dAtA', i + 1) }"

text \<open>\<open>i = encodeVarintRaft(dAtA, i, v)\<close>\<close>

definition put_varint :: "u64 \<Rightarrow> writer" where
  "put_varint v dAtA i = encodeVarintRaft dAtA i v"

text \<open>\<open>i += copy(dAtA[i:], bs)\<close>: copies what fits.\<close>

definition put_copy :: "bytes \<Rightarrow> writer" where
  "put_copy bs dAtA i =
     (if length dAtA < i then None
      else let n = min (length bs) (length dAtA - i)
           in Some (take i dAtA @ take n bs @ drop (i + n) dAtA, i + n))"

text \<open>\<open>n, err := msg.MarshalTo(dAtA[i:]); i += n\<close>\<close>

definition put_message :: "(bytes \<Rightarrow> (bytes \<times> nat) option) \<Rightarrow> writer" where
  "put_message marshalTo dAtA i =
     (if length dAtA < i then None
      else do { (sub, n) \<leftarrow> marshalTo (drop i dAtA); Some (take i dAtA @ sub, i + n) })"

fun emit :: "writer list \<Rightarrow> writer" where
  "emit [] dAtA i = Some (dAtA, i)"
| "emit (w # ws) dAtA i = do { (dAtA', i') \<leftarrow> w dAtA i; emit ws dAtA' i' }"

text \<open>An optional byte field, written only when the slice is not nil.\<close>

definition opt_bytes :: "byte \<Rightarrow> bytes option \<Rightarrow> writer list" where
  "opt_bytes tag x =
     (case x of None \<Rightarrow> [] | Some bs \<Rightarrow> [put_byte tag, put_varint (of_nat (length bs)), put_copy bs])"

definition unrecognized :: "bytes option \<Rightarrow> writer list" where
  "unrecognized x = (case x of None \<Rightarrow> [] | Some bs \<Rightarrow> [put_copy bs])"

text \<open>Their share of \<open>Size\<close>.\<close>

definition opt_bytes_size :: "bytes option \<Rightarrow> nat" where
  "opt_bytes_size x =
     (case x of None \<Rightarrow> 0 | Some bs \<Rightarrow> 1 + length bs + sovRaft (of_nat (length bs)))"

definition unrecognized_size :: "bytes option \<Rightarrow> nat" where
  "unrecognized_size x = (case x of None \<Rightarrow> 0 | Some bs \<Rightarrow> length bs)"

text \<open>
  Every generated \<open>Marshal\<close>: allocate \<open>Size()\<close> bytes, run \<open>MarshalTo\<close>, return \<open>dAtA[:n]\<close>.
\<close>

definition marshal :: "nat \<Rightarrow> (bytes \<Rightarrow> (bytes \<times> nat) option) \<Rightarrow> bytes option" where
  "marshal sz marshalTo =
     do { (dAtA, n) \<leftarrow> marshalTo (replicate sz 0); go_slice dAtA 0 n }"

end
