(* ===== verification/Proto_Codec.thy ===== *)
theory Proto_Codec
  imports Proto_Wire
begin

text \<open>
  What the pieces of a generated codec promise, and the contract a message's codec owes to the
  messages that embed it.

  \<open>writes w bs\<close> says the writer \<open>w\<close> stores exactly \<open>bs\<close> wherever there is room for it and
  touches nothing else; \<open>decodes fields keep bs m m'\<close> says the loop of \<open>Unmarshal\<close>, reaching
  the bytes \<open>bs\<close> with the message in state \<open>m\<close>, passes them and leaves the message in state
  \<open>m'\<close>. Both compose along concatenation. The locale \<open>message_codec\<close> is the interface of one
  message: its lemmas give \<open>Marshal\<close>, the round trip and the embedded field once for all.
\<close>

unbundle bit_operations_syntax

section \<open>Varints\<close>

lemma length_varint: "length (varint v) = sovRaft v"
proof (induction v rule: varint.induct)
  case (1 v)
  have eq: "(128 \<le> v) = (drop_bit 7 v \<noteq> 0)"
  proof -
    have "(128 \<le> v) = (128 \<le> unat v)" by (simp add: word_le_nat_alt)
    also have "\<dots> = (unat (drop_bit 7 v) \<noteq> 0)"
      by (simp add: drop_bit_eq_div unat_div div_eq_0_iff not_less)
    finally show ?thesis by (simp add: unsigned_eq_0_iff)
  qed
  with "1" show ?case
    by (subst varint.simps, subst sovRaft.simps) (auto simp: Let_def)
qed

lemma sovRaft_pos [simp]: "0 < sovRaft v"
  by (subst sovRaft.simps) (simp add: Let_def)

lemma sovRaft_le: "unat v < 2 ^ (7 * k) \<Longrightarrow> 0 < k \<Longrightarrow> sovRaft v \<le> k"
proof (induction k arbitrary: v)
  case 0
  then show ?case by simp
next
  case (Suc k)
  show ?case
  proof (cases "drop_bit 7 v = 0")
    case True
    then show ?thesis by (subst sovRaft.simps) (simp add: Let_def)
  next
    case False
    have d: "unat (drop_bit 7 v) = unat v div 128" by (simp add: drop_bit_eq_div unat_div)
    from False have "0 < unat v div 128" using d by (metis unsigned_eq_0_iff gr0I)
    moreover have "unat v div 128 < 2 ^ (7 * k)"
      using Suc.prems(1) by (simp add: power_add less_mult_imp_div_less)
    ultimately have "0 < k" by (cases k) auto
    with Suc.IH [of "drop_bit 7 v"] d \<open>unat v div 128 < 2 ^ (7 * k)\<close>
    have "sovRaft (drop_bit 7 v) \<le> k" by simp
    with False show ?thesis by (subst sovRaft.simps) (simp add: Let_def)
  qed
qed

lemma sovRaft_max: "sovRaft v \<le> 10"
proof (rule sovRaft_le)
  have "unat v < 2 ^ 64" by simp
  also have "(2::nat) ^ 64 < 2 ^ (7 * 10)" by simp
  finally show "unat v < 2 ^ (7 * 10)" .
qed simp

lemma bit_127: "bit (127 :: int) k = (k < 7)"
  using bit_mask_iff [where ?'a = int, of 7 k] by (auto simp: mask_eq_exp_minus_1)

lemma bit_128: "bit (128 :: int) k = (k = 7)"
  using bit_exp_iff [where ?'a = int, of 7 k] by auto

lemmas bit_7_simps = bit_simps bit_127 bit_128

lemma bit_join_7:
  "push_bit s (ucast (w AND 127) :: 'a::len word) OR push_bit (s + 7) (ucast (drop_bit 7 w))
     = push_bit s (ucast (w :: u64))"
proof (rule bit_word_eqI)
  fix n
  show "bit (push_bit s (ucast (w AND 127) :: 'a word)
          OR push_bit (s + 7) (ucast (drop_bit 7 w))) n = bit (push_bit s (ucast w) :: 'a word) n"
    by (cases "s + 7 \<le> n")
      (auto simp: bit_7_simps not_le less_diff_conv2 add.commute dest: bit_imp_le_length)
qed

lemma and_127_or_128:
  "(ucast (ucast ((w AND 127) OR 128) :: byte) AND 127 :: 'a::len word) = ucast ((w :: u64) AND 127)"
  by (rule bit_word_eqI) (auto simp: bit_7_simps)

lemma byte_less_128: "(b :: byte) < 128 \<longleftrightarrow> \<not> bit b 7"
proof -
  have "(b < 128) = (take_bit 7 b = b)"
    by (simp add: word_less_nat_alt word_eq_iff_unsigned [where ?'a = nat] unsigned_take_bit_eq
        take_bit_nat_eq_self_iff)
  also have "\<dots> = (\<not> bit b 7)"
  proof
    assume "take_bit 7 b = b"
    then show "\<not> bit b 7" by (metis bit_take_bit_iff less_irrefl)
  next
    assume "\<not> bit b 7"
    then have "n < 8 \<Longrightarrow> bit b n \<Longrightarrow> n < 7" for n
      by (cases "n = 7") auto
    then show "take_bit 7 b = b" by (auto simp: bit_eq_iff bit_simps dest: bit_imp_le_length)
  qed
  finally show ?thesis .
qed

lemma high_byte: "\<not> (ucast (((w :: u64) AND 127) OR 128) :: byte) < 128"
  by (simp add: byte_less_128 bit_7_simps)

lemma low_byte: "(w :: u64) < 128 \<Longrightarrow> (ucast w :: byte) < 128"
  by (simp add: word_less_nat_alt unsigned_ucast_eq take_bit_eq_mod)

lemma low_and_127: "(w :: u64) < 128 \<Longrightarrow> w AND 127 = w"
proof -
  assume "w < 128"
  then have "take_bit 7 w = w"
    by (simp add: word_less_nat_alt word_eq_iff_unsigned [where ?'a = nat] unsigned_take_bit_eq
        take_bit_nat_eq_self_iff)
  then show ?thesis by (simp add: take_bit_eq_mask mask_eq_exp_minus_1)
qed

lemma low_ucast_and:
  assumes "(w :: u64) < 128"
  shows "(ucast (ucast w :: byte) AND 127 :: 'a::len word) = ucast w"
proof (rule bit_word_eqI)
  fix n
  have "bit w n \<Longrightarrow> n < 7"
    by (subst (asm) low_and_127 [OF assms, symmetric]) (simp add: bit_7_simps)
  then show "bit (ucast (ucast w :: byte) AND 127 :: 'a word) n = bit (ucast w :: 'a word) n"
    by (auto simp: bit_7_simps)
qed

lemma drop_Cons_nth: "drop i d = b # rest \<Longrightarrow> i < length d \<and> d ! i = b \<and> drop (i + 1) d = rest"
  by (metis Suc_eq_plus1 drop_Suc drop_eq_Nil list.discI list.sel(3) not_less nth_via_drop tl_drop)

lemma varint_loop_varint:
  "drop i d = varint w @ rest \<Longrightarrow> s < 64 \<Longrightarrow> unat w < 2 ^ (64 - s) \<Longrightarrow>
   varint_loop d i s acc = Inr (acc OR push_bit s (ucast w), i + length (varint w))"
proof (induction w arbitrary: i s acc rule: varint.induct)
  case (1 w)
  show ?case
  proof (cases "128 \<le> w")
    case True
    let ?b = "ucast ((w AND 127) OR 128) :: byte"
    from True have v: "varint w = ?b # varint (drop_bit 7 w)" by (subst varint.simps) simp
    with "1.prems"(1) have b: "i < length d" "d ! i = ?b"
      and rest: "drop (i + 1) d = varint (drop_bit 7 w) @ rest"
      using drop_Cons_nth [of i d ?b "varint (drop_bit 7 w) @ rest"] by simp_all
    have "(2::nat) ^ 7 \<le> unat w" using True by (simp add: word_le_nat_alt)
    with "1.prems"(3) have "(2::nat) ^ 7 < 2 ^ (64 - s)" by linarith
    then have s7: "s + 7 < 64" using power_less_imp_less_exp [of "2::nat" 7 "64 - s"] by linarith
    have "unat (drop_bit 7 w) < 2 ^ (64 - (s + 7))"
    proof -
      have "unat w < 2 ^ (64 - (s + 7)) * 128"
        using "1.prems"(3) s7 by (simp flip: power_add [where n = 7 and a = "2::nat", simplified])
      then show ?thesis by (simp add: drop_bit_eq_div unat_div less_mult_imp_div_less)
    qed
    then have "varint_loop d (i + 1) (s + 7) (acc OR push_bit s (ucast (w AND 127)))
      = Inr ((acc OR push_bit s (ucast (w AND 127))) OR push_bit (s + 7) (ucast (drop_bit 7 w)),
             i + 1 + length (varint (drop_bit 7 w)))"
      using "1.IH" [OF True rest s7] by simp
    moreover have "varint_loop d i s acc
      = varint_loop d (i + 1) (s + 7) (acc OR push_bit s (ucast (d ! i) AND 127))"
      using b high_byte [of w] "1.prems"(2) by (subst varint_loop.simps) (simp add: Let_def)
    ultimately show ?thesis
      by (simp only: b and_127_or_128 or.assoc bit_join_7 v) simp
  next
    case False
    then have v: "varint w = [ucast w]" by (subst varint.simps) simp
    with "1.prems"(1) have "i < length d" "d ! i = ucast w"
      using drop_Cons_nth [of i d "ucast w" rest] by simp_all
    moreover have "(ucast (ucast w :: byte) AND 127 :: 'a word) = ucast w"
      using False by (intro low_ucast_and) simp
    moreover have "varint_loop d i s acc = Inr (acc OR push_bit s (ucast (d ! i) AND 127), i + 1)"
      using calculation(1,2) False low_byte [of w] "1.prems"(2)
      by (subst varint_loop.simps) (simp add: Let_def)
    ultimately show ?thesis by (simp add: v del: push_bit_and)
  qed
qed

lemma read_varint_varint:
  "drop i d = varint w @ rest \<Longrightarrow> read_varint d i = Inr (ucast w, i + length (varint w))"
  using varint_loop_varint [of i d w rest 0 0] unsigned_less [of w, where ?'a = nat]
  by (simp add: read_varint_def)

lemma read_varint_u64:
  "drop i d = varint w @ rest \<Longrightarrow> read_varint d i = Inr (w, i + length (varint w))"
  using read_varint_varint [of i d w rest, where ?'a = 64] by simp

lemma read_varint_tag:
  assumes "drop i d = t # rest" and "t < 128"
  shows "read_varint d i = Inr (ucast t :: u64, i + 1)"
proof -
  have "unat t < 128" using assms(2) by (simp add: word_less_nat_alt)
  then have "\<not> 128 \<le> (ucast t :: u64)"
    by (simp add: word_le_nat_alt unsigned_ucast_eq take_bit_eq_mod)
  then have "varint (ucast t) = [ucast (ucast t :: u64)]" by (subst varint.simps) simp
  also have "\<dots> = [t]" by (simp, rule bit_word_eqI) (simp add: bit_simps)
  finally have v: "varint (ucast t) = [t]" .
  with assms(1) have "drop i d = varint (ucast t) @ rest" by simp
  from read_varint_u64 [OF this] v show ?thesis by simp
qed

section \<open>Writers\<close>

definition writes :: "writer \<Rightarrow> bytes \<Rightarrow> bool" where
  "writes w bs \<longleftrightarrow> (\<forall>buf i. i + length bs \<le> length buf \<longrightarrow>
     w buf i = Some (take i buf @ bs @ drop (i + length bs) buf, i + length bs))"

lemma writesD:
  "writes w bs \<Longrightarrow> i + length bs \<le> length buf \<Longrightarrow>
     w buf i = Some (take i buf @ bs @ drop (i + length bs) buf, i + length bs)"
  by (simp add: writes_def)

lemma writes_put_byte [wire_writes]: "writes (put_byte b) [b]"
  by (auto simp: writes_def put_byte_def go_simps upd_conv_take_nth_drop)

lemma writes_put_varint [wire_writes]: "writes (put_varint v) (varint v)"
proof -
  have "i + length (varint v) \<le> length buf \<Longrightarrow> encodeVarintRaft buf i v =
      Some (take i buf @ varint v @ drop (i + length (varint v)) buf, i + length (varint v))" for buf i
  proof (induction buf i v rule: encodeVarintRaft.induct)
    case (1 buf i v)
    show ?case
    proof (cases "128 \<le> v")
      case True
      let ?b = "ucast ((v AND 127) OR 128) :: byte"
      from True have v: "varint v = ?b # varint (drop_bit 7 v)" by (subst varint.simps) simp
      with "1.prems" have st: "go_store buf i ?b = Some (buf[i := ?b])" by (simp add: go_simps)
      have "encodeVarintRaft buf i v = encodeVarintRaft (buf[i := ?b]) (i + 1) (drop_bit 7 v)"
        using True st by (subst encodeVarintRaft.simps) simp
      also have "\<dots> = Some (take (i + 1) (buf[i := ?b]) @ varint (drop_bit 7 v)
          @ drop (i + 1 + length (varint (drop_bit 7 v))) (buf[i := ?b]),
          i + 1 + length (varint (drop_bit 7 v)))"
        using "1.prems" v by (intro "1.IH" [OF True st]) simp
      finally show ?thesis using "1.prems" v
        by (simp add: take_Suc_conv_app_nth take_update_cancel)
    next
      case False
      then have v: "varint v = [ucast v]" by (subst varint.simps) simp
      with "1.prems" False show ?thesis
        by (subst encodeVarintRaft.simps) (simp add: go_simps upd_conv_take_nth_drop)
    qed
  qed
  then show ?thesis by (simp add: writes_def put_varint_def)
qed

lemma writes_put_copy [wire_writes]: "writes (put_copy bs) bs"
  by (auto simp: writes_def put_copy_def Let_def)

lemma writes_put_message:
  assumes "\<And>buf. length bs \<le> length buf \<Longrightarrow>
     marshalTo buf = Some (bs @ drop (length bs) buf, length bs)"
  shows "writes (put_message marshalTo) bs"
  using assms by (auto simp: writes_def put_message_def add.commute)

lemma emit_append: "emit (ws @ ws') buf i = do { (buf', i') \<leftarrow> emit ws buf i; emit ws' buf' i' }"
  by (induction ws arbitrary: buf i) (auto simp: bind_assoc split_def)

lemma writes_emit_Nil [wire_writes]: "writes (emit []) []"
  by (simp add: writes_def)

lemma writes_emit_append:
  assumes "writes (emit ws) bs" and "writes (emit ws') bs'"
  shows "writes (emit (ws @ ws')) (bs @ bs')"
  unfolding writes_def
proof (intro allI impI)
  fix buf :: bytes and i
  assume len: "i + length (bs @ bs') \<le> length buf"
  let ?buf = "take i buf @ bs @ drop (i + length bs) buf"
  from len have "emit ws buf i = Some (?buf, i + length bs)"
    by (intro writesD [OF assms(1)]) simp
  moreover have "emit ws' ?buf (i + length bs) =
    Some (take (i + length bs) ?buf @ bs' @ drop (i + length bs + length bs') ?buf,
          i + length bs + length bs')"
    using len by (intro writesD [OF assms(2)]) simp
  ultimately show "emit (ws @ ws') buf i
    = Some (take i buf @ (bs @ bs') @ drop (i + length (bs @ bs')) buf, i + length (bs @ bs'))"
    using len by (simp add: emit_append ac_simps)
qed

lemma writes_emit_single: "writes w bs \<Longrightarrow> writes (emit [w]) bs"
  by (simp add: writes_def)

lemma writes_emit_Cons: "writes w bs \<Longrightarrow> writes (emit ws) bs' \<Longrightarrow> writes (emit (w # ws)) (bs @ bs')"
  using writes_emit_append [of "[w]" bs ws bs'] by (simp add: writes_emit_single)

lemma writes_emit_concat:
  assumes "\<And>x. x \<in> set xs \<Longrightarrow> writes (emit (f x)) (g x)"
  shows "writes (emit (concat (map f xs))) (concat (map g xs))"
  using assms by (induction xs) (auto intro: writes_emit_append writes_emit_Nil)

lemmas writes_intros = writes_emit_Cons writes_emit_append writes_emit_concat writes_emit_Nil
  writes_put_byte writes_put_varint writes_put_copy

section \<open>Readers\<close>

definition decodes ::
  "(int32 \<Rightarrow> 'm field option) \<Rightarrow> (bytes \<Rightarrow> 'm \<Rightarrow> 'm) \<Rightarrow> bytes \<Rightarrow> 'm \<Rightarrow> 'm \<Rightarrow> bool" where
  "decodes fields keep bs m m' \<longleftrightarrow>
     (\<forall>d i rest. drop i d = bs @ rest \<longrightarrow> i \<le> length d \<longrightarrow> length d < 2 ^ 63 \<longrightarrow>
        unmarshal_loop fields keep d m i = unmarshal_loop fields keep d m' (i + length bs))"

text \<open>A one-byte tag and what the loop reads from it.\<close>

definition tag_of :: "byte \<Rightarrow> int32 \<Rightarrow> u64 \<Rightarrow> bool" where
  "tag_of t fieldNum wireType \<longleftrightarrow>
     t < 128 \<and> ucast (drop_bit 3 (ucast t :: u64)) = fieldNum \<and> ucast t AND 7 = wireType \<and>
     wireType \<noteq> 4 \<and> 0 < sint fieldNum"

lemma decodes_Nil: "decodes fields keep [] m m"
  by (simp add: decodes_def)

lemma decodes_append:
  assumes "decodes fields keep bs m m'" and "decodes fields keep bs' m' m''"
  shows "decodes fields keep (bs @ bs') m m''"
  unfolding decodes_def
proof (intro allI impI)
  fix d :: bytes and i rest
  assume a: "drop i d = (bs @ bs') @ rest" "i \<le> length d" "length d < 2 ^ 63"
  have l: "length bs \<le> length d - i" using arg_cong [OF a(1), of length] by simp
  have "drop (i + length bs) d = bs' @ rest"
    using a(1) by (metis add.commute append.assoc append_eq_conv_conj drop_drop)
  moreover have "i + length bs \<le> length d" using l a(2) by simp
  ultimately show "unmarshal_loop fields keep d m i
      = unmarshal_loop fields keep d m'' (i + length (bs @ bs'))"
    using assms a by (simp add: decodes_def add.assoc)
qed

lemma decodes_concat:
  assumes "\<And>x m. x \<in> set xs \<Longrightarrow> decodes fields keep (f x) m (g x m)"
  shows "decodes fields keep (concat (map f xs)) m (fold g xs m)"
  using assms by (induction xs arbitrary: m) (auto intro: decodes_append decodes_Nil)

lemma decodes_run:
  assumes "decodes fields keep bs m m'" and "length bs < 2 ^ 63"
  shows "unmarshal_loop fields keep bs m 0 = Some (Inr m')"
proof -
  have "unmarshal_loop fields keep bs m 0 = unmarshal_loop fields keep bs m' (0 + length bs)"
    using assms unfolding decodes_def by (metis append_Nil2 drop0 le0)
  then show ?thesis by (subst (asm) (2) unmarshal_loop.simps) simp
qed

lemma decodes_field:
  assumes t: "tag_of t fieldNum wireType" and f: "fields fieldNum = Some f"
    and r: "\<And>d i rest. drop i d = bs @ rest \<Longrightarrow> i \<le> length d \<Longrightarrow> length d < 2 ^ 63 \<Longrightarrow>
      read_field f wireType d i m = Some (Inr (m', i + length bs))"
  shows "decodes fields keep (t # bs) m m'"
  unfolding decodes_def
proof (intro allI impI)
  fix d :: bytes and i rest
  assume a: "drop i d = (t # bs) @ rest" "i \<le> length d" "length d < 2 ^ 63"
  from a(1) have i: "i < length d" "drop (i + 1) d = bs @ rest"
    using drop_Cons_nth [of i d t "bs @ rest"] by simp_all
  from t a(1) have "read_varint d i = Inr (ucast t :: u64, i + 1)"
    by (intro read_varint_tag [of i d t "bs @ rest"]) (simp_all add: tag_of_def)
  moreover have "read_field f wireType d (i + 1) m = Some (Inr (m', i + 1 + length bs))"
    using i a(3) by (intro r) simp_all
  ultimately show "unmarshal_loop fields keep d m i
      = unmarshal_loop fields keep d m' (i + length (t # bs))"
    using t f i(1) by (subst unmarshal_loop.simps) (simp add: tag_of_def Let_def)
qed

lemma decodes_uint64:
  "tag_of t n 0 \<Longrightarrow> fields n = Some (FUint64 put) \<Longrightarrow> decodes fields keep (t # varint v) m (put v m)"
  by (rule decodes_field) (auto simp: read_varint_u64)

lemma decodes_repeated64:
  "tag_of t n 0 \<Longrightarrow> fields n = Some (FRepeated64 put) \<Longrightarrow> decodes fields keep (t # varint v) m (put v m)"
  by (rule decodes_field) (auto simp: read_varint_u64)

lemma ucast_scast_32: "(ucast (scast (x :: int32) :: u64) :: int32) = x"
  by (rule bit_word_eqI) (simp add: bit_simps)

lemma decodes_enum:
  "tag_of t n 0 \<Longrightarrow> fields n = Some (FEnum put) \<Longrightarrow>
     decodes fields keep (t # varint (scast v)) m (put v m)"
  by (rule decodes_field) (auto simp: read_varint_varint ucast_scast_32)

lemma decodes_bool:
  assumes t: "tag_of t n 0" and f: "fields n = Some (FBool put)"
  shows "decodes fields keep [t, if b then 1 else 0] m (put b m)"
proof (rule decodes_field [where fields = fields and fieldNum = n, OF t f])
  fix d :: bytes and i rest
  assume "drop i d = [if b then 1 else 0] @ rest"
  then have "read_varint d i = Inr (ucast (if b then 1 else 0 :: byte) :: u64, i + 1)"
    by (intro read_varint_tag [of i d _ rest]) simp_all
  then show "read_field (FBool put) 0 d i m = Some (Inr (put b m, i + length [if b then 1 else 0]))"
    by simp
qed

lemma read_length_prefix:
  assumes d: "drop i d = (varint (of_nat (length bs)) @ bs) @ rest" and i: "i \<le> length d"
    and l: "length d < 2 ^ 63"
  defines "j \<equiv> i + length (varint (of_nat (length bs)))"
  shows "read_length d i = Inr (j, int (j + length bs)) \<and> byte_range d j (int (j + length bs)) = Some bs"
proof -
  have dj: "drop j d = bs @ rest"
    using d unfolding j_def by (metis add.commute append.assoc append_eq_conv_conj drop_drop)
  have "length d - i = length (varint (of_nat (length bs))) + length bs + length rest"
    using arg_cong [OF d, of length] by simp
  then have jl: "j + length bs \<le> length d" using i unfolding j_def by simp
  have bl: "length bs < 2 ^ 63" using jl l by simp
  then have s: "sint (of_nat (length bs) :: u64) = int (length bs)"
    by (simp add: signed_of_nat signed_take_bit_int_eq_self)
  have rv: "read_varint d i = Inr (of_nat (length bs) :: u64, j)"
    unfolding j_def using d by (intro read_varint_u64 [of i d _ "bs @ rest"]) simp
  have "wrap_int (int j + int (length bs)) = int (j + length bs)"
    using jl l by (intro wrap_int_id [THEN trans]) simp_all
  then have "read_length d i = Inr (j, int (j + length bs))"
    using rv s jl by (simp add: read_length_def Let_def)
  moreover have "byte_range d j (int (j + length bs)) = Some bs"
    using dj jl by (simp add: byte_range_def go_simps nat_int_add)
  ultimately show ?thesis by simp
qed

lemma decodes_bytes:
  assumes "tag_of t n 2" and "fields n = Some (FBytes put)"
  shows "decodes fields keep (t # varint (of_nat (length bs)) @ bs) m (put bs m)"
proof (rule decodes_field [where fields = fields and fieldNum = n, OF assms])
  fix d :: bytes and i rest
  let ?j = "i + length (varint (of_nat (length bs)))"
  assume "drop i d = (varint (of_nat (length bs)) @ bs) @ rest" "i \<le> length d" "length d < 2 ^ 63"
  from read_length_prefix [OF this]
  have "read_length d i = Inr (?j, int (?j + length bs))"
    and "byte_range d ?j (int (?j + length bs)) = Some bs" by (rule conjunct1, rule conjunct2)
  then show "read_field (FBytes put) 2 d i m
      = Some (Inr (put bs m, i + length (varint (of_nat (length bs)) @ bs)))"
    by (simp del: of_nat_add)
qed

lemma decodes_message:
  assumes "tag_of t n 2" and "fields n = Some (FMessage put)"
    and "length bs < 2 ^ 63 \<Longrightarrow> put bs m = Some (Inr m')"
  shows "decodes fields keep (t # varint (of_nat (length bs)) @ bs) m m'"
proof (rule decodes_field [where fields = fields and fieldNum = n, OF assms(1,2)])
  fix d :: bytes and i rest
  let ?j = "i + length (varint (of_nat (length bs)))"
  assume "drop i d = (varint (of_nat (length bs)) @ bs) @ rest" "i \<le> length d" "length d < 2 ^ 63"
  from read_length_prefix [OF this]
  have r: "read_length d i = Inr (?j, int (?j + length bs))"
    and b: "byte_range d ?j (int (?j + length bs)) = Some bs" by (rule conjunct1, rule conjunct2)
  from byte_range_Some [OF b] \<open>length d < 2 ^ 63\<close> have "length bs < 2 ^ 63" by linarith
  with assms(3) r b show "read_field (FMessage put) 2 d i m
      = Some (Inr (m', i + length (varint (of_nat (length bs)) @ bs)))"
    by (simp del: of_nat_add)
qed

section \<open>The chunks of a message\<close>

definition bool_byte :: "bool \<Rightarrow> byte" where
  "bool_byte b = (if b then 1 else 0)"

text \<open>A length-delimited field, an optional one, and the unrecognized bytes at the end.\<close>

definition delimited :: "byte \<Rightarrow> bytes \<Rightarrow> bytes" where
  "delimited t bs = t # varint (of_nat (length bs)) @ bs"

definition opt_field :: "byte \<Rightarrow> bytes option \<Rightarrow> bytes" where
  "opt_field t x = (case x of None \<Rightarrow> [] | Some bs \<Rightarrow> delimited t bs)"

definition raw_bytes :: "bytes option \<Rightarrow> bytes" where
  "raw_bytes x = (case x of None \<Rightarrow> [] | Some bs \<Rightarrow> bs)"

named_theorems chunk_lengths \<open>the length of a chunk is its share of the size\<close>

lemma length_delimited [chunk_lengths]:
  "length (delimited t bs) = 1 + length bs + sovRaft (of_nat (length bs))"
  by (simp add: delimited_def length_varint)

lemma length_opt_field [chunk_lengths]: "length (opt_field t x) = opt_bytes_size x"
  by (simp add: opt_field_def opt_bytes_size_def length_delimited split: option.split)

lemma length_raw_bytes [chunk_lengths]: "length (raw_bytes x) = unrecognized_size x"
  by (simp add: raw_bytes_def unrecognized_size_def split: option.split)

declare length_varint [chunk_lengths]

lemma length_concat_map [chunk_lengths]: "length (concat (map f xs)) = (\<Sum>x\<leftarrow>xs. length (f x))"
  by (simp add: length_concat comp_def)

lemma writes_field:
  "writes w bs \<Longrightarrow> writes (emit ws) bs' \<Longrightarrow> writes (emit (put_byte t # w # ws)) ((t # bs) @ bs')"
  using writes_emit_Cons [OF writes_put_byte, of "w # ws" "bs @ bs'" t] writes_emit_Cons [of w bs ws bs']
  by simp

lemma writes_last_field: "writes w bs \<Longrightarrow> writes (emit [put_byte t, w]) (t # bs)"
  using writes_field [of w bs "[]" "[]"] writes_emit_Nil by simp

lemma writes_delimited:
  assumes "writes w bs" and "n = length bs" and "writes (emit ws) bs'"
  shows "writes (emit (put_byte t # put_varint (of_nat n) # w # ws)) (delimited t bs @ bs')"
  using writes_field [OF writes_put_varint writes_emit_Cons, OF assms(1,3), of t "of_nat n"] assms(2)
  by (simp add: delimited_def)

lemma writes_last_delimited:
  assumes "writes w bs" and "n = length bs"
  shows "writes (emit [put_byte t, put_varint (of_nat n), w]) (delimited t bs)"
  using writes_delimited [OF assms writes_emit_Nil] by simp

lemma writes_opt_bytes: "writes (emit (opt_bytes t x)) (opt_field t x)"
  by (cases x) (simp_all add: opt_bytes_def opt_field_def writes_emit_Nil
      writes_last_delimited writes_put_copy del: emit.simps)

lemma writes_unrecognized: "writes (emit (unrecognized x)) (raw_bytes x)"
  by (cases x) (simp_all add: unrecognized_def raw_bytes_def writes_emit_Nil
      writes_emit_single writes_put_copy del: emit.simps)

lemmas writes_message = writes_delimited writes_field writes_last_delimited writes_last_field
  writes_emit_append writes_emit_concat writes_opt_bytes writes_unrecognized
  writes_put_byte writes_put_varint

lemma emit_exact:
  assumes "writes (emit ws) bs" and "length bs \<le> length buf"
  shows "emit ws buf 0 = Some (bs @ drop (length bs) buf, length bs)"
  using writesD [OF assms(1), of 0 buf] assms(2) by simp

lemma decodes_optional:
  assumes "tag_of t n 2" and "fields n = Some (FBytes put)"
  shows "decodes fields keep (opt_field t x) m (case x of None \<Rightarrow> m | Some bs \<Rightarrow> put bs m)"
  using decodes_bytes [of t n fields put, OF assms]
  by (simp add: opt_field_def delimited_def decodes_Nil split: option.split)

lemma decodes_delimited:
  assumes "tag_of t n 2" and "fields n = Some (FMessage put)"
    and "length bs < 2 ^ 63 \<Longrightarrow> put bs m = Some (Inr m')"
  shows "decodes fields keep (delimited t bs) m m'"
  unfolding delimited_def by (rule decodes_message [of t n fields put, OF assms])

lemma decodes_repeat:
  assumes "tag_of t n 0" and "fields n = Some (FRepeated64 put)"
  shows "decodes fields keep (concat (map (\<lambda>v. t # varint v) xs)) m (fold put xs m)"
  by (rule decodes_concat) (rule decodes_repeated64 [of t n fields put, OF assms])

lemma decodes_messages:
  assumes "tag_of t n 2" and "fields n = Some (FMessage put)"
    and "\<And>x m. x \<in> set xs \<Longrightarrow> length (b x) < 2 ^ 63 \<Longrightarrow> put (b x) m = Some (Inr (g x m))"
  shows "decodes fields keep (concat (map (\<lambda>x. delimited t (b x)) xs)) m (fold g xs m)"
  by (rule decodes_concat) (rule decodes_delimited [of t n fields put, OF assms(1,2)], rule assms(3))

lemma decodes_bool_byte:
  assumes "tag_of t n 0" and "fields n = Some (FBool put)"
  shows "decodes fields keep [t, bool_byte b] m (put b m)"
  unfolding bool_byte_def by (rule decodes_bool [of t n fields put, OF assms])

section \<open>The contract of a message's codec\<close>

locale message_codec =
  fixes msg_size :: "'m \<Rightarrow> nat"
    and msg_marshalTo :: "'m \<Rightarrow> bytes \<Rightarrow> (bytes \<times> nat) option"
    and msg_fields :: "int32 \<Rightarrow> 'm field option"
    and msg_keep :: "bytes \<Rightarrow> 'm \<Rightarrow> 'm"
    and msg_zero :: 'm
    and msg_bytes :: "'m \<Rightarrow> bytes"
    and msg_known :: "'m \<Rightarrow> bool"
  assumes size_exact: "msg_size m = length (msg_bytes m)"
    and marshalTo_exact: "length (msg_bytes m) \<le> length buf \<Longrightarrow>
      msg_marshalTo m buf = Some (msg_bytes m @ drop (length (msg_bytes m)) buf, length (msg_bytes m))"
    and decodes_known: "msg_known m \<Longrightarrow> decodes msg_fields msg_keep (msg_bytes m) msg_zero m"
begin

lemma marshal_exact: "marshal (msg_size m) (msg_marshalTo m) = Some (msg_bytes m)"
proof -
  have "msg_marshalTo m (replicate (msg_size m) 0) = Some (msg_bytes m, length (msg_bytes m))"
    using marshalTo_exact [of m "replicate (msg_size m) 0"] by (simp add: size_exact)
  then show ?thesis by (simp add: marshal_def go_slice_def)
qed

lemma writes_embedded: "writes (put_message (msg_marshalTo m)) (msg_bytes m)"
  by (rule writes_put_message) (rule marshalTo_exact)

lemma unmarshal_bytes:
  "msg_known m \<Longrightarrow> length (msg_bytes m) < 2 ^ 63 \<Longrightarrow>
     unmarshal_loop msg_fields msg_keep (msg_bytes m) msg_zero 0 = Some (Inr m)"
  by (rule decodes_run) (simp_all add: decodes_known)

lemma unmarshal_known:
  "msg_known m \<Longrightarrow> msg_size m < 2 ^ 63 \<Longrightarrow>
     unmarshal_loop msg_fields msg_keep (msg_bytes m) msg_zero 0 = Some (Inr m)"
  unfolding size_exact by (rule unmarshal_bytes)

lemma round_trip:
  "msg_known m \<Longrightarrow> msg_size m < 2 ^ 63 \<Longrightarrow>
     do { bs \<leftarrow> marshal (msg_size m) (msg_marshalTo m);
          unmarshal_loop msg_fields msg_keep bs msg_zero 0 } = Some (Inr m)"
  unfolding marshal_exact by (simp only: Option.bind_lunit unmarshal_known)

lemma bytes_injective:
  "msg_known m \<Longrightarrow> msg_known m' \<Longrightarrow> msg_size m < 2 ^ 63 \<Longrightarrow> msg_bytes m = msg_bytes m' \<Longrightarrow> m = m'"
proof -
  assume "msg_known m" "msg_known m'" "msg_size m < 2 ^ 63" and eq: "msg_bytes m = msg_bytes m'"
  moreover from calculation have "msg_size m' < 2 ^ 63" by (simp only: size_exact)
  ultimately have "Some (Inr m) = (Some (Inr m') :: (proto_error + 'm) option)"
    using unmarshal_known [of m] unmarshal_known [of m'] by metis
  then show ?thesis by (simp only: option.inject sum.inject)
qed

end

end
