(* ===== verification/Raftpb.thy ===== *)
theory Raftpb
  imports Proto_Codec
begin

text \<open>
  The messages of \<open>raft/raftpb\<close>: the structs of \<open>raft.pb.go\<close> as records (an optional
  \<open>[]byte\<close> is a \<open>bytes option\<close>, the nil slice being \<open>None\<close>; a \<open>[]uint64\<close> or a slice of
  messages is a list, since the code never tells nil from empty for those), the three generated
  methods \<open>Size\<close>, \<open>MarshalTo\<close> and \<open>Unmarshal\<close> of each, and the conversions of
  \<open>confchange.go\<close>.

  \<open>X_bytes\<close> is the byte string message \<open>X\<close> has on the wire. Each message interprets the
  locale \<open>message_codec\<close>: \<open>Size\<close> is exact, \<open>MarshalTo\<close> writes \<open>X_bytes\<close>, and
  \<open>Unmarshal\<close> reads a message without unrecognized fields back.
\<close>

unbundle bit_operations_syntax

section \<open>Enums\<close>

text \<open>Go's enums are \<open>int32\<close>s: any 32-bit value can arrive from the wire.\<close>

type_synonym EntryType = int32
type_synonym MessageType = int32
type_synonym ConfChangeTransition = int32
type_synonym ConfChangeType = int32

abbreviation (input) "EntryNormal \<equiv> (0 :: EntryType)"
abbreviation (input) "EntryConfChange \<equiv> (1 :: EntryType)"
abbreviation (input) "EntryConfChangeV2 \<equiv> (2 :: EntryType)"

abbreviation (input) "MsgHup \<equiv> (0 :: MessageType)"
abbreviation (input) "MsgBeat \<equiv> (1 :: MessageType)"
abbreviation (input) "MsgProp \<equiv> (2 :: MessageType)"
abbreviation (input) "MsgApp \<equiv> (3 :: MessageType)"
abbreviation (input) "MsgAppResp \<equiv> (4 :: MessageType)"
abbreviation (input) "MsgVote \<equiv> (5 :: MessageType)"
abbreviation (input) "MsgVoteResp \<equiv> (6 :: MessageType)"
abbreviation (input) "MsgSnap \<equiv> (7 :: MessageType)"
abbreviation (input) "MsgHeartbeat \<equiv> (8 :: MessageType)"
abbreviation (input) "MsgHeartbeatResp \<equiv> (9 :: MessageType)"
abbreviation (input) "MsgUnreachable \<equiv> (10 :: MessageType)"
abbreviation (input) "MsgSnapStatus \<equiv> (11 :: MessageType)"
abbreviation (input) "MsgCheckQuorum \<equiv> (12 :: MessageType)"
abbreviation (input) "MsgTransferLeader \<equiv> (13 :: MessageType)"
abbreviation (input) "MsgTimeoutNow \<equiv> (14 :: MessageType)"
abbreviation (input) "MsgReadIndex \<equiv> (15 :: MessageType)"
abbreviation (input) "MsgReadIndexResp \<equiv> (16 :: MessageType)"
abbreviation (input) "MsgPreVote \<equiv> (17 :: MessageType)"
abbreviation (input) "MsgPreVoteResp \<equiv> (18 :: MessageType)"

abbreviation (input) "ConfChangeTransitionAuto \<equiv> (0 :: ConfChangeTransition)"
abbreviation (input) "ConfChangeTransitionJointImplicit \<equiv> (1 :: ConfChangeTransition)"
abbreviation (input) "ConfChangeTransitionJointExplicit \<equiv> (2 :: ConfChangeTransition)"

abbreviation (input) "ConfChangeAddNode \<equiv> (0 :: ConfChangeType)"
abbreviation (input) "ConfChangeRemoveNode \<equiv> (1 :: ConfChangeType)"
abbreviation (input) "ConfChangeUpdateNode \<equiv> (2 :: ConfChangeType)"
abbreviation (input) "ConfChangeAddLearnerNode \<equiv> (3 :: ConfChangeType)"

section \<open>Structs\<close>

record Entry =
  ent_Term :: u64
  ent_Index :: u64
  ent_Type :: EntryType
  ent_Data :: "bytes option"
  ent_XXX :: "bytes option"

record ConfState =
  cs_Voters :: "u64 list"
  cs_Learners :: "u64 list"
  cs_VotersOutgoing :: "u64 list"
  cs_LearnersNext :: "u64 list"
  cs_AutoLeave :: bool
  cs_XXX :: "bytes option"

record SnapshotMetadata =
  sm_ConfState :: ConfState
  sm_Index :: u64
  sm_Term :: u64
  sm_XXX :: "bytes option"

record Snapshot =
  snap_Data :: "bytes option"
  snap_Metadata :: SnapshotMetadata
  snap_XXX :: "bytes option"

record Message =
  msg_Type :: MessageType
  msg_To :: u64
  msg_From :: u64
  msg_Term :: u64
  msg_LogTerm :: u64
  msg_Index :: u64
  msg_Entries :: "Entry list"
  msg_Commit :: u64
  msg_Snapshot :: Snapshot
  msg_Reject :: bool
  msg_RejectHint :: u64
  msg_Context :: "bytes option"
  msg_XXX :: "bytes option"

record HardState =
  hs_Term :: u64
  hs_Vote :: u64
  hs_Commit :: u64
  hs_XXX :: "bytes option"

record ConfChange =
  cc_Type :: ConfChangeType
  cc_NodeID :: u64
  cc_Context :: "bytes option"
  cc_ID :: u64
  cc_XXX :: "bytes option"

record ConfChangeSingle =
  ccs_Type :: ConfChangeType
  ccs_NodeID :: u64
  ccs_XXX :: "bytes option"

record ConfChangeV2 =
  cc2_Transition :: ConfChangeTransition
  cc2_Changes :: "ConfChangeSingle list"
  cc2_Context :: "bytes option"
  cc2_XXX :: "bytes option"

text \<open>The zero values, which the \<open>Reset\<close> methods store.\<close>

definition Entry_zero :: Entry where
  "Entry_zero = \<lparr>ent_Term = 0, ent_Index = 0, ent_Type = EntryNormal, ent_Data = None, ent_XXX = None\<rparr>"

definition ConfState_zero :: ConfState where
  "ConfState_zero = \<lparr>cs_Voters = [], cs_Learners = [], cs_VotersOutgoing = [],
     cs_LearnersNext = [], cs_AutoLeave = False, cs_XXX = None\<rparr>"

definition SnapshotMetadata_zero :: SnapshotMetadata where
  "SnapshotMetadata_zero = \<lparr>sm_ConfState = ConfState_zero, sm_Index = 0, sm_Term = 0, sm_XXX = None\<rparr>"

definition Snapshot_zero :: Snapshot where
  "Snapshot_zero = \<lparr>snap_Data = None, snap_Metadata = SnapshotMetadata_zero, snap_XXX = None\<rparr>"

definition Message_zero :: Message where
  "Message_zero = \<lparr>msg_Type = MsgHup, msg_To = 0, msg_From = 0, msg_Term = 0, msg_LogTerm = 0,
     msg_Index = 0, msg_Entries = [], msg_Commit = 0, msg_Snapshot = Snapshot_zero,
     msg_Reject = False, msg_RejectHint = 0, msg_Context = None, msg_XXX = None\<rparr>"

definition HardState_zero :: HardState where
  "HardState_zero = \<lparr>hs_Term = 0, hs_Vote = 0, hs_Commit = 0, hs_XXX = None\<rparr>"

definition ConfChange_zero :: ConfChange where
  "ConfChange_zero = \<lparr>cc_Type = ConfChangeAddNode, cc_NodeID = 0, cc_Context = None, cc_ID = 0,
     cc_XXX = None\<rparr>"

definition ConfChangeSingle_zero :: ConfChangeSingle where
  "ConfChangeSingle_zero = \<lparr>ccs_Type = ConfChangeAddNode, ccs_NodeID = 0, ccs_XXX = None\<rparr>"

definition ConfChangeV2_zero :: ConfChangeV2 where
  "ConfChangeV2_zero = \<lparr>cc2_Transition = ConfChangeTransitionAuto, cc2_Changes = [],
     cc2_Context = None, cc2_XXX = None\<rparr>"

lemmas zero_defs = Entry_zero_def ConfState_zero_def SnapshotMetadata_zero_def Snapshot_zero_def
  Message_zero_def HardState_zero_def ConfChange_zero_def ConfChangeSingle_zero_def
  ConfChangeV2_zero_def

text \<open>\<open>m.Unmarshal(bs)\<close> on an embedded message that is then stored back.\<close>

definition store_result ::
  "('x \<Rightarrow> 'm) \<Rightarrow> (proto_error + 'x) option \<Rightarrow> (proto_error + 'm) option" where
  "store_result put r =
     do { x \<leftarrow> r; Some (case x of Inl e \<Rightarrow> Inl e | Inr v \<Rightarrow> Inr (put v)) }"

lemma store_result_simps [simp]:
  "store_result put None = None"
  "store_result put (Some (Inl e)) = Some (Inl e)"
  "store_result put (Some (Inr v)) = Some (Inr (put v))"
  by (simp_all add: store_result_def)

section \<open>Entry\<close>

definition Entry_Size :: "Entry \<Rightarrow> nat" where
  "Entry_Size m =
     (1 + sovRaft (scast (ent_Type m))) + (1 + sovRaft (ent_Term m)) + (1 + sovRaft (ent_Index m)) +
     opt_bytes_size (ent_Data m) + unrecognized_size (ent_XXX m)"

definition Entry_MarshalTo :: "Entry \<Rightarrow> bytes \<Rightarrow> (bytes \<times> nat) option" where
  "Entry_MarshalTo m dAtA = emit
     (put_byte 0x08 # put_varint (scast (ent_Type m)) #
      put_byte 0x10 # put_varint (ent_Term m) #
      put_byte 0x18 # put_varint (ent_Index m) #
      opt_bytes 0x22 (ent_Data m) @ unrecognized (ent_XXX m)) dAtA 0"

definition Entry_Marshal :: "Entry \<Rightarrow> bytes option" where
  "Entry_Marshal m = marshal (Entry_Size m) (Entry_MarshalTo m)"

definition Entry_fields :: "int32 \<Rightarrow> Entry field option" where
  "Entry_fields n =
     (if n = 1 then Some (FEnum (\<lambda>v m. m\<lparr>ent_Type := v\<rparr>))
      else if n = 2 then Some (FUint64 (\<lambda>v m. m\<lparr>ent_Term := v\<rparr>))
      else if n = 3 then Some (FUint64 (\<lambda>v m. m\<lparr>ent_Index := v\<rparr>))
      else if n = 4 then Some (FBytes (\<lambda>bs m. m\<lparr>ent_Data := Some bs\<rparr>))
      else None)"

definition Entry_keep :: "bytes \<Rightarrow> Entry \<Rightarrow> Entry" where
  "Entry_keep bs m = m\<lparr>ent_XXX := keep_bytes bs (ent_XXX m)\<rparr>"

definition Entry_Unmarshal :: "bytes \<Rightarrow> Entry \<Rightarrow> (proto_error + Entry) option" where
  "Entry_Unmarshal dAtA m = unmarshal_loop Entry_fields Entry_keep dAtA m 0"

definition Entry_bytes :: "Entry \<Rightarrow> bytes" where
  "Entry_bytes m =
     (0x08 # varint (scast (ent_Type m))) @ (0x10 # varint (ent_Term m)) @
     (0x18 # varint (ent_Index m)) @ opt_field 0x22 (ent_Data m) @ raw_bytes (ent_XXX m)"

definition Entry_known :: "Entry \<Rightarrow> bool" where
  "Entry_known m \<longleftrightarrow> ent_XXX m = None"

named_theorems tag_simps \<open>tags and field tables\<close>

lemma tags_varint [tag_simps]:
  "tag_of 0x08 1 0" "tag_of 0x10 2 0" "tag_of 0x18 3 0" "tag_of 0x20 4 0" "tag_of 0x28 5 0"
  "tag_of 0x30 6 0" "tag_of 0x40 8 0" "tag_of 0x50 10 0" "tag_of 0x58 11 0"
  unfolding tag_of_def by code_simp+

lemma tags_delimited [tag_simps]:
  "tag_of 0x0a 1 2" "tag_of 0x12 2 2" "tag_of 0x1a 3 2" "tag_of 0x22 4 2" "tag_of 0x3a 7 2"
  "tag_of 0x4a 9 2" "tag_of 0x62 12 2"
  unfolding tag_of_def by code_simp+

lemma decodes_eq: "decodes F K bs m m'' \<Longrightarrow> m'' = m' \<Longrightarrow> decodes F K bs m m'"
  by simp

lemma decodes_none: "x = None \<Longrightarrow> decodes F K (raw_bytes x) m m"
  by (simp add: raw_bytes_def decodes_Nil)

lemmas decodes_chunk = decodes_enum decodes_uint64 decodes_optional decodes_bool_byte decodes_repeat

lemma Entry_decodes:
  assumes "Entry_known m"
  shows "decodes Entry_fields Entry_keep (Entry_bytes m) Entry_zero m"
  unfolding Entry_bytes_def
  by (rule decodes_eq,
      ((rule decodes_append, rule decodes_chunk, rule tag_simps, (simp add: Entry_fields_def; fail))+,
       rule decodes_none))
    (use assms in \<open>cases m; simp add: Entry_known_def Entry_zero_def split: option.split\<close>)+

interpretation entry: message_codec Entry_Size Entry_MarshalTo Entry_fields Entry_keep Entry_zero
  Entry_bytes Entry_known
proof
  show "Entry_Size m = length (Entry_bytes m)" for m
    by (simp add: Entry_Size_def Entry_bytes_def chunk_lengths)
  show "length (Entry_bytes m) \<le> length buf \<Longrightarrow>
    Entry_MarshalTo m buf = Some (Entry_bytes m @ drop (length (Entry_bytes m)) buf, length (Entry_bytes m))"
    for m buf
    unfolding Entry_MarshalTo_def
    by (rule emit_exact) (simp_all only: Entry_bytes_def, intro writes_message)
qed (rule Entry_decodes)

section \<open>ConfState\<close>

definition ConfState_Size :: "ConfState \<Rightarrow> nat" where
  "ConfState_Size m =
     (\<Sum>e\<leftarrow>cs_Voters m. 1 + sovRaft e) + (\<Sum>e\<leftarrow>cs_Learners m. 1 + sovRaft e) +
     (\<Sum>e\<leftarrow>cs_VotersOutgoing m. 1 + sovRaft e) + (\<Sum>e\<leftarrow>cs_LearnersNext m. 1 + sovRaft e) +
     2 + unrecognized_size (cs_XXX m)"

definition ConfState_MarshalTo :: "ConfState \<Rightarrow> bytes \<Rightarrow> (bytes \<times> nat) option" where
  "ConfState_MarshalTo m dAtA = emit
     (concat (map (\<lambda>num. [put_byte 0x08, put_varint num]) (cs_Voters m)) @
      concat (map (\<lambda>num. [put_byte 0x10, put_varint num]) (cs_Learners m)) @
      concat (map (\<lambda>num. [put_byte 0x18, put_varint num]) (cs_VotersOutgoing m)) @
      concat (map (\<lambda>num. [put_byte 0x20, put_varint num]) (cs_LearnersNext m)) @
      put_byte 0x28 # put_byte (bool_byte (cs_AutoLeave m)) #
      unrecognized (cs_XXX m)) dAtA 0"

definition ConfState_Marshal :: "ConfState \<Rightarrow> bytes option" where
  "ConfState_Marshal m = marshal (ConfState_Size m) (ConfState_MarshalTo m)"

definition ConfState_fields :: "int32 \<Rightarrow> ConfState field option" where
  "ConfState_fields n =
     (if n = 1 then Some (FRepeated64 (\<lambda>v m. m\<lparr>cs_Voters := cs_Voters m @ [v]\<rparr>))
      else if n = 2 then Some (FRepeated64 (\<lambda>v m. m\<lparr>cs_Learners := cs_Learners m @ [v]\<rparr>))
      else if n = 3 then Some (FRepeated64 (\<lambda>v m. m\<lparr>cs_VotersOutgoing := cs_VotersOutgoing m @ [v]\<rparr>))
      else if n = 4 then Some (FRepeated64 (\<lambda>v m. m\<lparr>cs_LearnersNext := cs_LearnersNext m @ [v]\<rparr>))
      else if n = 5 then Some (FBool (\<lambda>b m. m\<lparr>cs_AutoLeave := b\<rparr>))
      else None)"

definition ConfState_keep :: "bytes \<Rightarrow> ConfState \<Rightarrow> ConfState" where
  "ConfState_keep bs m = m\<lparr>cs_XXX := keep_bytes bs (cs_XXX m)\<rparr>"

definition ConfState_Unmarshal :: "bytes \<Rightarrow> ConfState \<Rightarrow> (proto_error + ConfState) option" where
  "ConfState_Unmarshal dAtA m = unmarshal_loop ConfState_fields ConfState_keep dAtA m 0"

definition ConfState_bytes :: "ConfState \<Rightarrow> bytes" where
  "ConfState_bytes m =
     concat (map (\<lambda>v. 0x08 # varint v) (cs_Voters m)) @
     concat (map (\<lambda>v. 0x10 # varint v) (cs_Learners m)) @
     concat (map (\<lambda>v. 0x18 # varint v) (cs_VotersOutgoing m)) @
     concat (map (\<lambda>v. 0x20 # varint v) (cs_LearnersNext m)) @
     [0x28, bool_byte (cs_AutoLeave m)] @ raw_bytes (cs_XXX m)"

definition ConfState_known :: "ConfState \<Rightarrow> bool" where
  "ConfState_known m \<longleftrightarrow> cs_XXX m = None"

lemma fold_ConfState [simp]:
  "fold (\<lambda>v m. m\<lparr>cs_Voters := cs_Voters m @ [v]\<rparr>) xs c = (c :: ConfState)\<lparr>cs_Voters := cs_Voters c @ xs\<rparr>"
  "fold (\<lambda>v m. m\<lparr>cs_Learners := cs_Learners m @ [v]\<rparr>) xs c = c\<lparr>cs_Learners := cs_Learners c @ xs\<rparr>"
  "fold (\<lambda>v m. m\<lparr>cs_VotersOutgoing := cs_VotersOutgoing m @ [v]\<rparr>) xs c
     = c\<lparr>cs_VotersOutgoing := cs_VotersOutgoing c @ xs\<rparr>"
  "fold (\<lambda>v m. m\<lparr>cs_LearnersNext := cs_LearnersNext m @ [v]\<rparr>) xs c
     = c\<lparr>cs_LearnersNext := cs_LearnersNext c @ xs\<rparr>"
  by (induction xs arbitrary: c) simp_all

lemma ConfState_decodes:
  assumes "ConfState_known m"
  shows "decodes ConfState_fields ConfState_keep (ConfState_bytes m) ConfState_zero m"
  unfolding ConfState_bytes_def
  by (rule decodes_eq,
      ((rule decodes_append, rule decodes_chunk, rule tag_simps, (simp add: ConfState_fields_def; fail))+,
       rule decodes_none))
    (use assms in \<open>cases m; simp add: ConfState_known_def ConfState_zero_def split: option.split\<close>)+

interpretation conf_state: message_codec ConfState_Size ConfState_MarshalTo ConfState_fields
  ConfState_keep ConfState_zero ConfState_bytes ConfState_known
proof
  show "ConfState_Size m = length (ConfState_bytes m)" for m
    by (simp add: ConfState_Size_def ConfState_bytes_def chunk_lengths)
  show "length (ConfState_bytes m) \<le> length buf \<Longrightarrow> ConfState_MarshalTo m buf
      = Some (ConfState_bytes m @ drop (length (ConfState_bytes m)) buf, length (ConfState_bytes m))"
    for m buf
    unfolding ConfState_MarshalTo_def
    by (rule emit_exact) (simp_all only: ConfState_bytes_def, intro writes_message)
qed (rule ConfState_decodes)

section \<open>SnapshotMetadata\<close>

lemma ConfState_embedded:
  "ConfState_known c \<Longrightarrow> length (ConfState_bytes c) < 2 ^ 63 \<Longrightarrow>
     ConfState_Unmarshal (ConfState_bytes c) ConfState_zero = Some (Inr c)"
  unfolding ConfState_Unmarshal_def by (rule conf_state.unmarshal_bytes)

definition SnapshotMetadata_Size :: "SnapshotMetadata \<Rightarrow> nat" where
  "SnapshotMetadata_Size m =
     (let l = ConfState_Size (sm_ConfState m) in 1 + l + sovRaft (of_nat l)) +
     (1 + sovRaft (sm_Index m)) + (1 + sovRaft (sm_Term m)) + unrecognized_size (sm_XXX m)"

definition SnapshotMetadata_MarshalTo :: "SnapshotMetadata \<Rightarrow> bytes \<Rightarrow> (bytes \<times> nat) option" where
  "SnapshotMetadata_MarshalTo m dAtA = emit
     (put_byte 0x0a # put_varint (of_nat (ConfState_Size (sm_ConfState m))) #
        put_message (ConfState_MarshalTo (sm_ConfState m)) #
      put_byte 0x10 # put_varint (sm_Index m) #
      put_byte 0x18 # put_varint (sm_Term m) #
      unrecognized (sm_XXX m)) dAtA 0"

definition SnapshotMetadata_bytes :: "SnapshotMetadata \<Rightarrow> bytes" where
  "SnapshotMetadata_bytes m =
     delimited 0x0a (ConfState_bytes (sm_ConfState m)) @
     (0x10 # varint (sm_Index m)) @ (0x18 # varint (sm_Term m)) @ raw_bytes (sm_XXX m)"

definition SnapshotMetadata_fields :: "int32 \<Rightarrow> SnapshotMetadata field option" where
  "SnapshotMetadata_fields n =
     (if n = 1 then Some (FMessage (\<lambda>bs m. store_result (\<lambda>x. m\<lparr>sm_ConfState := x\<rparr>) (ConfState_Unmarshal bs (sm_ConfState m))))
      else if n = 2 then Some (FUint64 (\<lambda>v m. m\<lparr>sm_Index := v\<rparr>))
      else if n = 3 then Some (FUint64 (\<lambda>v m. m\<lparr>sm_Term := v\<rparr>))
      else None)"

definition SnapshotMetadata_Marshal :: "SnapshotMetadata \<Rightarrow> bytes option" where
  "SnapshotMetadata_Marshal m = marshal (SnapshotMetadata_Size m) (SnapshotMetadata_MarshalTo m)"

definition SnapshotMetadata_keep :: "bytes \<Rightarrow> SnapshotMetadata \<Rightarrow> SnapshotMetadata" where
  "SnapshotMetadata_keep bs m = m\<lparr>sm_XXX := keep_bytes bs (sm_XXX m)\<rparr>"

definition SnapshotMetadata_Unmarshal :: "bytes \<Rightarrow> SnapshotMetadata \<Rightarrow> (proto_error + SnapshotMetadata) option" where
  "SnapshotMetadata_Unmarshal dAtA m = unmarshal_loop SnapshotMetadata_fields SnapshotMetadata_keep dAtA m 0"

definition SnapshotMetadata_known :: "SnapshotMetadata \<Rightarrow> bool" where
  "SnapshotMetadata_known m \<longleftrightarrow> ConfState_known (sm_ConfState m) \<and> sm_XXX m = None"

lemma SnapshotMetadata_decodes:
  assumes "SnapshotMetadata_known m"
  shows "decodes SnapshotMetadata_fields SnapshotMetadata_keep (SnapshotMetadata_bytes m)
    SnapshotMetadata_zero m"
  unfolding SnapshotMetadata_bytes_def
  by (rule decodes_eq,
      (rule decodes_append, rule decodes_delimited, rule tag_simps, simp add: SnapshotMetadata_fields_def,
       use assms in \<open>simp add: SnapshotMetadata_zero_def SnapshotMetadata_known_def ConfState_embedded\<close>),
      ((rule decodes_append, rule decodes_chunk, rule tag_simps,
        (simp add: SnapshotMetadata_fields_def; fail))+, rule decodes_none))
    (use assms in \<open>cases m; simp add: SnapshotMetadata_known_def\<close>)+

interpretation snapshot_metadata: message_codec SnapshotMetadata_Size SnapshotMetadata_MarshalTo SnapshotMetadata_fields
  SnapshotMetadata_keep SnapshotMetadata_zero SnapshotMetadata_bytes SnapshotMetadata_known
proof
  show "SnapshotMetadata_Size m = length (SnapshotMetadata_bytes m)" for m
    by (simp add: SnapshotMetadata_Size_def SnapshotMetadata_bytes_def chunk_lengths conf_state.size_exact Let_def)
  show "length (SnapshotMetadata_bytes m) \<le> length buf \<Longrightarrow> SnapshotMetadata_MarshalTo m buf
      = Some (SnapshotMetadata_bytes m @ drop (length (SnapshotMetadata_bytes m)) buf, length (SnapshotMetadata_bytes m))"
    for m buf
    unfolding SnapshotMetadata_MarshalTo_def
    by (rule emit_exact) (simp_all only: SnapshotMetadata_bytes_def, intro writes_message conf_state.writes_embedded conf_state.size_exact)
qed (rule SnapshotMetadata_decodes)

section \<open>Snapshot\<close>

lemma SnapshotMetadata_embedded:
  "SnapshotMetadata_known c \<Longrightarrow> length (SnapshotMetadata_bytes c) < 2 ^ 63 \<Longrightarrow>
     SnapshotMetadata_Unmarshal (SnapshotMetadata_bytes c) SnapshotMetadata_zero = Some (Inr c)"
  unfolding SnapshotMetadata_Unmarshal_def by (rule snapshot_metadata.unmarshal_bytes)

definition Snapshot_Size :: "Snapshot \<Rightarrow> nat" where
  "Snapshot_Size m =
     opt_bytes_size (snap_Data m) +
     (let l = SnapshotMetadata_Size (snap_Metadata m) in 1 + l + sovRaft (of_nat l)) +
     unrecognized_size (snap_XXX m)"

definition Snapshot_MarshalTo :: "Snapshot \<Rightarrow> bytes \<Rightarrow> (bytes \<times> nat) option" where
  "Snapshot_MarshalTo m dAtA = emit
     (opt_bytes 0x0a (snap_Data m) @
      put_byte 0x12 # put_varint (of_nat (SnapshotMetadata_Size (snap_Metadata m))) #
        put_message (SnapshotMetadata_MarshalTo (snap_Metadata m)) #
      unrecognized (snap_XXX m)) dAtA 0"

definition Snapshot_bytes :: "Snapshot \<Rightarrow> bytes" where
  "Snapshot_bytes m =
     opt_field 0x0a (snap_Data m) @
     delimited 0x12 (SnapshotMetadata_bytes (snap_Metadata m)) @ raw_bytes (snap_XXX m)"

definition Snapshot_fields :: "int32 \<Rightarrow> Snapshot field option" where
  "Snapshot_fields n =
     (if n = 1 then Some (FBytes (\<lambda>bs m. m\<lparr>snap_Data := Some bs\<rparr>))
      else if n = 2 then Some (FMessage (\<lambda>bs m. store_result (\<lambda>x. m\<lparr>snap_Metadata := x\<rparr>) (SnapshotMetadata_Unmarshal bs (snap_Metadata m))))
      else None)"

definition Snapshot_Marshal :: "Snapshot \<Rightarrow> bytes option" where
  "Snapshot_Marshal m = marshal (Snapshot_Size m) (Snapshot_MarshalTo m)"

definition Snapshot_keep :: "bytes \<Rightarrow> Snapshot \<Rightarrow> Snapshot" where
  "Snapshot_keep bs m = m\<lparr>snap_XXX := keep_bytes bs (snap_XXX m)\<rparr>"

definition Snapshot_Unmarshal :: "bytes \<Rightarrow> Snapshot \<Rightarrow> (proto_error + Snapshot) option" where
  "Snapshot_Unmarshal dAtA m = unmarshal_loop Snapshot_fields Snapshot_keep dAtA m 0"

definition Snapshot_known :: "Snapshot \<Rightarrow> bool" where
  "Snapshot_known m \<longleftrightarrow> SnapshotMetadata_known (snap_Metadata m) \<and> snap_XXX m = None"

lemma Snapshot_decodes:
  assumes "Snapshot_known m"
  shows "decodes Snapshot_fields Snapshot_keep (Snapshot_bytes m) Snapshot_zero m"
  unfolding Snapshot_bytes_def
  by (rule decodes_eq,
      rule decodes_append [where m' = "Snapshot_zero\<lparr>snap_Data := snap_Data m\<rparr>"], rule decodes_eq,
      rule decodes_optional, rule tag_simps, simp add: Snapshot_fields_def,
      (simp add: Snapshot_zero_def split: option.split; fail),
      (rule decodes_append, rule decodes_delimited, rule tag_simps, simp add: Snapshot_fields_def,
       use assms in \<open>simp add: Snapshot_zero_def Snapshot_known_def SnapshotMetadata_embedded\<close>),
      rule decodes_none)
    (use assms in \<open>cases m; simp add: Snapshot_known_def Snapshot_zero_def split: option.split\<close>)+

interpretation snapshot: message_codec Snapshot_Size Snapshot_MarshalTo Snapshot_fields
  Snapshot_keep Snapshot_zero Snapshot_bytes Snapshot_known
proof
  show "Snapshot_Size m = length (Snapshot_bytes m)" for m
    by (simp add: Snapshot_Size_def Snapshot_bytes_def chunk_lengths snapshot_metadata.size_exact Let_def)
  show "length (Snapshot_bytes m) \<le> length buf \<Longrightarrow> Snapshot_MarshalTo m buf
      = Some (Snapshot_bytes m @ drop (length (Snapshot_bytes m)) buf, length (Snapshot_bytes m))"
    for m buf
    unfolding Snapshot_MarshalTo_def
    by (rule emit_exact) (simp_all only: Snapshot_bytes_def, intro writes_message snapshot_metadata.writes_embedded snapshot_metadata.size_exact)
qed (rule Snapshot_decodes)

section \<open>Message\<close>

lemma Snapshot_embedded:
  "Snapshot_known c \<Longrightarrow> length (Snapshot_bytes c) < 2 ^ 63 \<Longrightarrow>
     Snapshot_Unmarshal (Snapshot_bytes c) Snapshot_zero = Some (Inr c)"
  unfolding Snapshot_Unmarshal_def by (rule snapshot.unmarshal_bytes)

lemma Entry_embedded:
  "Entry_known c \<Longrightarrow> length (Entry_bytes c) < 2 ^ 63 \<Longrightarrow>
     Entry_Unmarshal (Entry_bytes c) Entry_zero = Some (Inr c)"
  unfolding Entry_Unmarshal_def by (rule entry.unmarshal_bytes)

definition Message_Size :: "Message \<Rightarrow> nat" where
  "Message_Size m =
     (1 + sovRaft (scast (msg_Type m))) + (1 + sovRaft (msg_To m)) + (1 + sovRaft (msg_From m)) +
     (1 + sovRaft (msg_Term m)) + (1 + sovRaft (msg_LogTerm m)) + (1 + sovRaft (msg_Index m)) +
     (\<Sum>e\<leftarrow>msg_Entries m. let l = Entry_Size e in 1 + l + sovRaft (of_nat l)) +
     (1 + sovRaft (msg_Commit m)) +
     (let l = Snapshot_Size (msg_Snapshot m) in 1 + l + sovRaft (of_nat l)) + 2 +
     (1 + sovRaft (msg_RejectHint m)) + opt_bytes_size (msg_Context m) +
     unrecognized_size (msg_XXX m)"

definition Message_MarshalTo :: "Message \<Rightarrow> bytes \<Rightarrow> (bytes \<times> nat) option" where
  "Message_MarshalTo m dAtA = emit
     (put_byte 0x08 # put_varint (scast (msg_Type m)) #
      put_byte 0x10 # put_varint (msg_To m) #
      put_byte 0x18 # put_varint (msg_From m) #
      put_byte 0x20 # put_varint (msg_Term m) #
      put_byte 0x28 # put_varint (msg_LogTerm m) #
      put_byte 0x30 # put_varint (msg_Index m) #
      concat (map (\<lambda>msg. [put_byte 0x3a, put_varint (of_nat (Entry_Size msg)),
                            put_message (Entry_MarshalTo msg)]) (msg_Entries m)) @
      put_byte 0x40 # put_varint (msg_Commit m) #
      put_byte 0x4a # put_varint (of_nat (Snapshot_Size (msg_Snapshot m))) #
        put_message (Snapshot_MarshalTo (msg_Snapshot m)) #
      put_byte 0x50 # put_byte (bool_byte (msg_Reject m)) #
      put_byte 0x58 # put_varint (msg_RejectHint m) #
      opt_bytes 0x62 (msg_Context m) @ unrecognized (msg_XXX m)) dAtA 0"

definition Message_bytes :: "Message \<Rightarrow> bytes" where
  "Message_bytes m =
     (0x08 # varint (scast (msg_Type m))) @ (0x10 # varint (msg_To m)) @
     (0x18 # varint (msg_From m)) @ (0x20 # varint (msg_Term m)) @
     (0x28 # varint (msg_LogTerm m)) @ (0x30 # varint (msg_Index m)) @
     concat (map (\<lambda>e. delimited 0x3a (Entry_bytes e)) (msg_Entries m)) @
     (0x40 # varint (msg_Commit m)) @ delimited 0x4a (Snapshot_bytes (msg_Snapshot m)) @
     [0x50, bool_byte (msg_Reject m)] @ (0x58 # varint (msg_RejectHint m)) @
     opt_field 0x62 (msg_Context m) @ raw_bytes (msg_XXX m)"

definition Message_fields :: "int32 \<Rightarrow> Message field option" where
  "Message_fields n =
     (if n = 1 then Some (FEnum (\<lambda>v m. m\<lparr>msg_Type := v\<rparr>))
      else if n = 2 then Some (FUint64 (\<lambda>v m. m\<lparr>msg_To := v\<rparr>))
      else if n = 3 then Some (FUint64 (\<lambda>v m. m\<lparr>msg_From := v\<rparr>))
      else if n = 4 then Some (FUint64 (\<lambda>v m. m\<lparr>msg_Term := v\<rparr>))
      else if n = 5 then Some (FUint64 (\<lambda>v m. m\<lparr>msg_LogTerm := v\<rparr>))
      else if n = 6 then Some (FUint64 (\<lambda>v m. m\<lparr>msg_Index := v\<rparr>))
      else if n = 7 then Some (FMessage (\<lambda>bs m. store_result (\<lambda>x. m\<lparr>msg_Entries := msg_Entries m @ [x]\<rparr>) (Entry_Unmarshal bs Entry_zero)))
      else if n = 8 then Some (FUint64 (\<lambda>v m. m\<lparr>msg_Commit := v\<rparr>))
      else if n = 9 then Some (FMessage (\<lambda>bs m. store_result (\<lambda>x. m\<lparr>msg_Snapshot := x\<rparr>) (Snapshot_Unmarshal bs (msg_Snapshot m))))
      else if n = 10 then Some (FBool (\<lambda>v m. m\<lparr>msg_Reject := v\<rparr>))
      else if n = 11 then Some (FUint64 (\<lambda>v m. m\<lparr>msg_RejectHint := v\<rparr>))
      else if n = 12 then Some (FBytes (\<lambda>bs m. m\<lparr>msg_Context := Some bs\<rparr>))
      else None)"

definition Message_Marshal :: "Message \<Rightarrow> bytes option" where
  "Message_Marshal m = marshal (Message_Size m) (Message_MarshalTo m)"

definition Message_keep :: "bytes \<Rightarrow> Message \<Rightarrow> Message" where
  "Message_keep bs m = m\<lparr>msg_XXX := keep_bytes bs (msg_XXX m)\<rparr>"

definition Message_Unmarshal :: "bytes \<Rightarrow> Message \<Rightarrow> (proto_error + Message) option" where
  "Message_Unmarshal dAtA m = unmarshal_loop Message_fields Message_keep dAtA m 0"

definition Message_known :: "Message \<Rightarrow> bool" where
  "Message_known m \<longleftrightarrow> list_all Entry_known (msg_Entries m) \<and> Snapshot_known (msg_Snapshot m) \<and> msg_XXX m = None"

lemma fold_Message [simp]:
  "fold (\<lambda>e m. m\<lparr>msg_Entries := msg_Entries m @ [e]\<rparr>) xs c
     = (c :: Message)\<lparr>msg_Entries := msg_Entries c @ xs\<rparr>"
  by (induction xs arbitrary: c) simp_all

lemma Message_decodes:
  assumes "Message_known m"
  shows "decodes Message_fields Message_keep (Message_bytes m) Message_zero m"
proof -
  have e: "decodes Message_fields Message_keep
      (concat (map (\<lambda>e. delimited 0x3a (Entry_bytes e)) (msg_Entries m))) c
      (fold (\<lambda>e m. m\<lparr>msg_Entries := msg_Entries m @ [e]\<rparr>) (msg_Entries m) c)" for c
    by (rule decodes_messages, rule tag_simps, simp add: Message_fields_def)
      (use assms in \<open>auto simp: Message_known_def list_all_iff Entry_embedded\<close>)
  show ?thesis
    unfolding Message_bytes_def
    by (rule decodes_eq,
        (rule decodes_append, rule decodes_chunk, rule tag_simps, (simp add: Message_fields_def; fail))+,
        rule decodes_append, rule e,
        (rule decodes_append, rule decodes_chunk, rule tag_simps, (simp add: Message_fields_def; fail))+,
        (rule decodes_append, rule decodes_delimited, rule tag_simps, simp add: Message_fields_def,
         use assms in \<open>simp add: Message_zero_def Message_known_def Snapshot_embedded\<close>),
        (rule decodes_append, rule decodes_chunk, rule tag_simps, (simp add: Message_fields_def; fail))+,
        rule decodes_none)
      (use assms in \<open>cases m; simp add: Message_known_def Message_zero_def split: option.split\<close>)+
qed

interpretation message: message_codec Message_Size Message_MarshalTo Message_fields
  Message_keep Message_zero Message_bytes Message_known
proof
  show "Message_Size m = length (Message_bytes m)" for m
    by (simp add: Message_Size_def Message_bytes_def chunk_lengths snapshot.size_exact entry.size_exact Let_def)
  show "length (Message_bytes m) \<le> length buf \<Longrightarrow> Message_MarshalTo m buf
      = Some (Message_bytes m @ drop (length (Message_bytes m)) buf, length (Message_bytes m))"
    for m buf
    unfolding Message_MarshalTo_def
    by (rule emit_exact) (simp_all only: Message_bytes_def, intro writes_message snapshot.writes_embedded snapshot.size_exact entry.writes_embedded entry.size_exact)
qed (rule Message_decodes)

section \<open>HardState\<close>

definition HardState_Size :: "HardState \<Rightarrow> nat" where
  "HardState_Size m =
     (1 + sovRaft (hs_Term m)) + (1 + sovRaft (hs_Vote m)) + (1 + sovRaft (hs_Commit m)) +
     unrecognized_size (hs_XXX m)"

definition HardState_MarshalTo :: "HardState \<Rightarrow> bytes \<Rightarrow> (bytes \<times> nat) option" where
  "HardState_MarshalTo m dAtA = emit
     (put_byte 0x08 # put_varint (hs_Term m) #
      put_byte 0x10 # put_varint (hs_Vote m) #
      put_byte 0x18 # put_varint (hs_Commit m) #
      unrecognized (hs_XXX m)) dAtA 0"

definition HardState_bytes :: "HardState \<Rightarrow> bytes" where
  "HardState_bytes m =
     (0x08 # varint (hs_Term m)) @ (0x10 # varint (hs_Vote m)) @ (0x18 # varint (hs_Commit m)) @
     raw_bytes (hs_XXX m)"

definition HardState_fields :: "int32 \<Rightarrow> HardState field option" where
  "HardState_fields n =
     (if n = 1 then Some (FUint64 (\<lambda>v m. m\<lparr>hs_Term := v\<rparr>))
      else if n = 2 then Some (FUint64 (\<lambda>v m. m\<lparr>hs_Vote := v\<rparr>))
      else if n = 3 then Some (FUint64 (\<lambda>v m. m\<lparr>hs_Commit := v\<rparr>))
      else None)"

definition HardState_Marshal :: "HardState \<Rightarrow> bytes option" where
  "HardState_Marshal m = marshal (HardState_Size m) (HardState_MarshalTo m)"

definition HardState_keep :: "bytes \<Rightarrow> HardState \<Rightarrow> HardState" where
  "HardState_keep bs m = m\<lparr>hs_XXX := keep_bytes bs (hs_XXX m)\<rparr>"

definition HardState_Unmarshal :: "bytes \<Rightarrow> HardState \<Rightarrow> (proto_error + HardState) option" where
  "HardState_Unmarshal dAtA m = unmarshal_loop HardState_fields HardState_keep dAtA m 0"

definition HardState_known :: "HardState \<Rightarrow> bool" where
  "HardState_known m \<longleftrightarrow> hs_XXX m = None"

lemma HardState_decodes:
  assumes "HardState_known m"
  shows "decodes HardState_fields HardState_keep (HardState_bytes m) HardState_zero m"
  unfolding HardState_bytes_def
  by (rule decodes_eq,
      ((rule decodes_append, rule decodes_chunk, rule tag_simps, (simp add: HardState_fields_def; fail))+,
       rule decodes_none))
    (use assms in \<open>cases m; simp add: HardState_known_def HardState_zero_def split: option.split\<close>)+

interpretation hard_state: message_codec HardState_Size HardState_MarshalTo HardState_fields
  HardState_keep HardState_zero HardState_bytes HardState_known
proof
  show "HardState_Size m = length (HardState_bytes m)" for m
    by (simp add: HardState_Size_def HardState_bytes_def chunk_lengths)
  show "length (HardState_bytes m) \<le> length buf \<Longrightarrow> HardState_MarshalTo m buf
      = Some (HardState_bytes m @ drop (length (HardState_bytes m)) buf, length (HardState_bytes m))"
    for m buf
    unfolding HardState_MarshalTo_def
    by (rule emit_exact) (simp_all only: HardState_bytes_def, intro writes_message)
qed (rule HardState_decodes)

section \<open>ConfChange\<close>

definition ConfChange_Size :: "ConfChange \<Rightarrow> nat" where
  "ConfChange_Size m =
     (1 + sovRaft (cc_ID m)) + (1 + sovRaft (scast (cc_Type m))) + (1 + sovRaft (cc_NodeID m)) +
     opt_bytes_size (cc_Context m) + unrecognized_size (cc_XXX m)"

definition ConfChange_MarshalTo :: "ConfChange \<Rightarrow> bytes \<Rightarrow> (bytes \<times> nat) option" where
  "ConfChange_MarshalTo m dAtA = emit
     (put_byte 0x08 # put_varint (cc_ID m) #
      put_byte 0x10 # put_varint (scast (cc_Type m)) #
      put_byte 0x18 # put_varint (cc_NodeID m) #
      opt_bytes 0x22 (cc_Context m) @ unrecognized (cc_XXX m)) dAtA 0"

definition ConfChange_bytes :: "ConfChange \<Rightarrow> bytes" where
  "ConfChange_bytes m =
     (0x08 # varint (cc_ID m)) @ (0x10 # varint (scast (cc_Type m))) @
     (0x18 # varint (cc_NodeID m)) @ opt_field 0x22 (cc_Context m) @ raw_bytes (cc_XXX m)"

definition ConfChange_fields :: "int32 \<Rightarrow> ConfChange field option" where
  "ConfChange_fields n =
     (if n = 1 then Some (FUint64 (\<lambda>v m. m\<lparr>cc_ID := v\<rparr>))
      else if n = 2 then Some (FEnum (\<lambda>v m. m\<lparr>cc_Type := v\<rparr>))
      else if n = 3 then Some (FUint64 (\<lambda>v m. m\<lparr>cc_NodeID := v\<rparr>))
      else if n = 4 then Some (FBytes (\<lambda>bs m. m\<lparr>cc_Context := Some bs\<rparr>))
      else None)"

definition ConfChange_Marshal :: "ConfChange \<Rightarrow> bytes option" where
  "ConfChange_Marshal m = marshal (ConfChange_Size m) (ConfChange_MarshalTo m)"

definition ConfChange_keep :: "bytes \<Rightarrow> ConfChange \<Rightarrow> ConfChange" where
  "ConfChange_keep bs m = m\<lparr>cc_XXX := keep_bytes bs (cc_XXX m)\<rparr>"

definition ConfChange_Unmarshal :: "bytes \<Rightarrow> ConfChange \<Rightarrow> (proto_error + ConfChange) option" where
  "ConfChange_Unmarshal dAtA m = unmarshal_loop ConfChange_fields ConfChange_keep dAtA m 0"

definition ConfChange_known :: "ConfChange \<Rightarrow> bool" where
  "ConfChange_known m \<longleftrightarrow> cc_XXX m = None"

lemma ConfChange_decodes:
  assumes "ConfChange_known m"
  shows "decodes ConfChange_fields ConfChange_keep (ConfChange_bytes m) ConfChange_zero m"
  unfolding ConfChange_bytes_def
  by (rule decodes_eq,
      ((rule decodes_append, rule decodes_chunk, rule tag_simps, (simp add: ConfChange_fields_def; fail))+,
       rule decodes_none))
    (use assms in \<open>cases m; simp add: ConfChange_known_def ConfChange_zero_def split: option.split\<close>)+

interpretation conf_change: message_codec ConfChange_Size ConfChange_MarshalTo ConfChange_fields
  ConfChange_keep ConfChange_zero ConfChange_bytes ConfChange_known
proof
  show "ConfChange_Size m = length (ConfChange_bytes m)" for m
    by (simp add: ConfChange_Size_def ConfChange_bytes_def chunk_lengths)
  show "length (ConfChange_bytes m) \<le> length buf \<Longrightarrow> ConfChange_MarshalTo m buf
      = Some (ConfChange_bytes m @ drop (length (ConfChange_bytes m)) buf, length (ConfChange_bytes m))"
    for m buf
    unfolding ConfChange_MarshalTo_def
    by (rule emit_exact) (simp_all only: ConfChange_bytes_def, intro writes_message)
qed (rule ConfChange_decodes)

section \<open>ConfChangeSingle\<close>

definition ConfChangeSingle_Size :: "ConfChangeSingle \<Rightarrow> nat" where
  "ConfChangeSingle_Size m =
     (1 + sovRaft (scast (ccs_Type m))) + (1 + sovRaft (ccs_NodeID m)) + unrecognized_size (ccs_XXX m)"

definition ConfChangeSingle_MarshalTo :: "ConfChangeSingle \<Rightarrow> bytes \<Rightarrow> (bytes \<times> nat) option" where
  "ConfChangeSingle_MarshalTo m dAtA = emit
     (put_byte 0x08 # put_varint (scast (ccs_Type m)) #
      put_byte 0x10 # put_varint (ccs_NodeID m) #
      unrecognized (ccs_XXX m)) dAtA 0"

definition ConfChangeSingle_bytes :: "ConfChangeSingle \<Rightarrow> bytes" where
  "ConfChangeSingle_bytes m =
     (0x08 # varint (scast (ccs_Type m))) @ (0x10 # varint (ccs_NodeID m)) @ raw_bytes (ccs_XXX m)"

definition ConfChangeSingle_fields :: "int32 \<Rightarrow> ConfChangeSingle field option" where
  "ConfChangeSingle_fields n =
     (if n = 1 then Some (FEnum (\<lambda>v m. m\<lparr>ccs_Type := v\<rparr>))
      else if n = 2 then Some (FUint64 (\<lambda>v m. m\<lparr>ccs_NodeID := v\<rparr>))
      else None)"

definition ConfChangeSingle_Marshal :: "ConfChangeSingle \<Rightarrow> bytes option" where
  "ConfChangeSingle_Marshal m = marshal (ConfChangeSingle_Size m) (ConfChangeSingle_MarshalTo m)"

definition ConfChangeSingle_keep :: "bytes \<Rightarrow> ConfChangeSingle \<Rightarrow> ConfChangeSingle" where
  "ConfChangeSingle_keep bs m = m\<lparr>ccs_XXX := keep_bytes bs (ccs_XXX m)\<rparr>"

definition ConfChangeSingle_Unmarshal :: "bytes \<Rightarrow> ConfChangeSingle \<Rightarrow> (proto_error + ConfChangeSingle) option" where
  "ConfChangeSingle_Unmarshal dAtA m = unmarshal_loop ConfChangeSingle_fields ConfChangeSingle_keep dAtA m 0"

definition ConfChangeSingle_known :: "ConfChangeSingle \<Rightarrow> bool" where
  "ConfChangeSingle_known m \<longleftrightarrow> ccs_XXX m = None"

lemma ConfChangeSingle_decodes:
  assumes "ConfChangeSingle_known m"
  shows "decodes ConfChangeSingle_fields ConfChangeSingle_keep (ConfChangeSingle_bytes m) ConfChangeSingle_zero m"
  unfolding ConfChangeSingle_bytes_def
  by (rule decodes_eq,
      ((rule decodes_append, rule decodes_chunk, rule tag_simps, (simp add: ConfChangeSingle_fields_def; fail))+,
       rule decodes_none))
    (use assms in \<open>cases m; simp add: ConfChangeSingle_known_def ConfChangeSingle_zero_def split: option.split\<close>)+

interpretation conf_change_single: message_codec ConfChangeSingle_Size ConfChangeSingle_MarshalTo ConfChangeSingle_fields
  ConfChangeSingle_keep ConfChangeSingle_zero ConfChangeSingle_bytes ConfChangeSingle_known
proof
  show "ConfChangeSingle_Size m = length (ConfChangeSingle_bytes m)" for m
    by (simp add: ConfChangeSingle_Size_def ConfChangeSingle_bytes_def chunk_lengths)
  show "length (ConfChangeSingle_bytes m) \<le> length buf \<Longrightarrow> ConfChangeSingle_MarshalTo m buf
      = Some (ConfChangeSingle_bytes m @ drop (length (ConfChangeSingle_bytes m)) buf, length (ConfChangeSingle_bytes m))"
    for m buf
    unfolding ConfChangeSingle_MarshalTo_def
    by (rule emit_exact) (simp_all only: ConfChangeSingle_bytes_def, intro writes_message)
qed (rule ConfChangeSingle_decodes)

section \<open>ConfChangeV2\<close>

lemma ConfChangeSingle_embedded:
  "ConfChangeSingle_known c \<Longrightarrow> length (ConfChangeSingle_bytes c) < 2 ^ 63 \<Longrightarrow>
     ConfChangeSingle_Unmarshal (ConfChangeSingle_bytes c) ConfChangeSingle_zero = Some (Inr c)"
  unfolding ConfChangeSingle_Unmarshal_def by (rule conf_change_single.unmarshal_bytes)

definition ConfChangeV2_Size :: "ConfChangeV2 \<Rightarrow> nat" where
  "ConfChangeV2_Size m =
     (1 + sovRaft (scast (cc2_Transition m))) +
     (\<Sum>e\<leftarrow>cc2_Changes m. let l = ConfChangeSingle_Size e in 1 + l + sovRaft (of_nat l)) +
     opt_bytes_size (cc2_Context m) + unrecognized_size (cc2_XXX m)"

definition ConfChangeV2_MarshalTo :: "ConfChangeV2 \<Rightarrow> bytes \<Rightarrow> (bytes \<times> nat) option" where
  "ConfChangeV2_MarshalTo m dAtA = emit
     (put_byte 0x08 # put_varint (scast (cc2_Transition m)) #
      concat (map (\<lambda>msg. [put_byte 0x12, put_varint (of_nat (ConfChangeSingle_Size msg)),
                            put_message (ConfChangeSingle_MarshalTo msg)]) (cc2_Changes m)) @
      opt_bytes 0x1a (cc2_Context m) @ unrecognized (cc2_XXX m)) dAtA 0"

definition ConfChangeV2_bytes :: "ConfChangeV2 \<Rightarrow> bytes" where
  "ConfChangeV2_bytes m =
     (0x08 # varint (scast (cc2_Transition m))) @
     concat (map (\<lambda>e. delimited 0x12 (ConfChangeSingle_bytes e)) (cc2_Changes m)) @
     opt_field 0x1a (cc2_Context m) @ raw_bytes (cc2_XXX m)"

definition ConfChangeV2_fields :: "int32 \<Rightarrow> ConfChangeV2 field option" where
  "ConfChangeV2_fields n =
     (if n = 1 then Some (FEnum (\<lambda>v m. m\<lparr>cc2_Transition := v\<rparr>))
      else if n = 2 then Some (FMessage (\<lambda>bs m. store_result (\<lambda>x. m\<lparr>cc2_Changes := cc2_Changes m @ [x]\<rparr>) (ConfChangeSingle_Unmarshal bs ConfChangeSingle_zero)))
      else if n = 3 then Some (FBytes (\<lambda>bs m. m\<lparr>cc2_Context := Some bs\<rparr>))
      else None)"

definition ConfChangeV2_Marshal :: "ConfChangeV2 \<Rightarrow> bytes option" where
  "ConfChangeV2_Marshal m = marshal (ConfChangeV2_Size m) (ConfChangeV2_MarshalTo m)"

definition ConfChangeV2_keep :: "bytes \<Rightarrow> ConfChangeV2 \<Rightarrow> ConfChangeV2" where
  "ConfChangeV2_keep bs m = m\<lparr>cc2_XXX := keep_bytes bs (cc2_XXX m)\<rparr>"

definition ConfChangeV2_Unmarshal :: "bytes \<Rightarrow> ConfChangeV2 \<Rightarrow> (proto_error + ConfChangeV2) option" where
  "ConfChangeV2_Unmarshal dAtA m = unmarshal_loop ConfChangeV2_fields ConfChangeV2_keep dAtA m 0"

definition ConfChangeV2_known :: "ConfChangeV2 \<Rightarrow> bool" where
  "ConfChangeV2_known m \<longleftrightarrow> list_all ConfChangeSingle_known (cc2_Changes m) \<and> cc2_XXX m = None"

lemma fold_ConfChangeV2 [simp]:
  "fold (\<lambda>e m. m\<lparr>cc2_Changes := cc2_Changes m @ [e]\<rparr>) xs c
     = (c :: ConfChangeV2)\<lparr>cc2_Changes := cc2_Changes c @ xs\<rparr>"
  by (induction xs arbitrary: c) simp_all

lemma ConfChangeV2_decodes:
  assumes "ConfChangeV2_known m"
  shows "decodes ConfChangeV2_fields ConfChangeV2_keep (ConfChangeV2_bytes m) ConfChangeV2_zero m"
proof -
  have e: "decodes ConfChangeV2_fields ConfChangeV2_keep
      (concat (map (\<lambda>e. delimited 0x12 (ConfChangeSingle_bytes e)) (cc2_Changes m))) c
      (fold (\<lambda>e m. m\<lparr>cc2_Changes := cc2_Changes m @ [e]\<rparr>) (cc2_Changes m) c)" for c
    by (rule decodes_messages, rule tag_simps, simp add: ConfChangeV2_fields_def)
      (use assms in \<open>auto simp: ConfChangeV2_known_def list_all_iff ConfChangeSingle_embedded\<close>)
  show ?thesis
    unfolding ConfChangeV2_bytes_def
    by (rule decodes_eq,
        (rule decodes_append, rule decodes_chunk, rule tag_simps, (simp add: ConfChangeV2_fields_def; fail)),
        rule decodes_append, rule e,
        (rule decodes_append, rule decodes_chunk, rule tag_simps, (simp add: ConfChangeV2_fields_def; fail)),
        rule decodes_none)
      (use assms in \<open>cases m; simp add: ConfChangeV2_known_def ConfChangeV2_zero_def split: option.split\<close>)+
qed

interpretation conf_change_v2: message_codec ConfChangeV2_Size ConfChangeV2_MarshalTo ConfChangeV2_fields
  ConfChangeV2_keep ConfChangeV2_zero ConfChangeV2_bytes ConfChangeV2_known
proof
  show "ConfChangeV2_Size m = length (ConfChangeV2_bytes m)" for m
    by (simp add: ConfChangeV2_Size_def ConfChangeV2_bytes_def chunk_lengths conf_change_single.size_exact Let_def)
  show "length (ConfChangeV2_bytes m) \<le> length buf \<Longrightarrow> ConfChangeV2_MarshalTo m buf
      = Some (ConfChangeV2_bytes m @ drop (length (ConfChangeV2_bytes m)) buf, length (ConfChangeV2_bytes m))"
    for m buf
    unfolding ConfChangeV2_MarshalTo_def
    by (rule emit_exact) (simp_all only: ConfChangeV2_bytes_def, intro writes_message conf_change_single.writes_embedded conf_change_single.size_exact)
qed (rule ConfChangeV2_decodes)

section \<open>Configuration changes\<close>

text \<open>The interface \<open>ConfChangeI\<close> and its two implementations.\<close>

datatype ConfChangeI = V1 ConfChange | V2 ConfChangeV2

fun AsV2 :: "ConfChangeI \<Rightarrow> ConfChangeV2" where
  "AsV2 (V1 c) = ConfChangeV2_zero
     \<lparr>cc2_Changes := [ConfChangeSingle_zero\<lparr>ccs_Type := cc_Type c, ccs_NodeID := cc_NodeID c\<rparr>],
      cc2_Context := cc_Context c\<rparr>"
| "AsV2 (V2 c) = c"

fun AsV1 :: "ConfChangeI \<Rightarrow> ConfChange \<times> bool" where
  "AsV1 (V1 c) = (c, True)"
| "AsV1 (V2 c) = (ConfChange_zero, False)"

definition MarshalConfChange :: "ConfChangeI \<Rightarrow> (EntryType \<times> bytes) option" where
  "MarshalConfChange c =
     (case AsV1 c of
        (ccv1, True) \<Rightarrow> do { ccdata \<leftarrow> ConfChange_Marshal ccv1; Some (EntryConfChange, ccdata) }
      | (_, False) \<Rightarrow> do { ccdata \<leftarrow> ConfChangeV2_Marshal (AsV2 c); Some (EntryConfChangeV2, ccdata) })"

text \<open>\<open>EnterJoint\<close>: the results are \<open>(autoLeave, ok)\<close>; an unknown transition panics.\<close>

definition EnterJoint :: "ConfChangeV2 \<Rightarrow> (bool \<times> bool) option" where
  "EnterJoint c =
     (if cc2_Transition c \<noteq> ConfChangeTransitionAuto \<or> 1 < length (cc2_Changes c) then
        (if cc2_Transition c = ConfChangeTransitionAuto then Some (True, True)
         else if cc2_Transition c = ConfChangeTransitionJointImplicit then Some (True, True)
         else if cc2_Transition c = ConfChangeTransitionJointExplicit then Some (False, True)
         else None)
      else Some (False, False))"

text \<open>\<open>proto.Equal\<close> belongs to the protobuf library and is a parameter.\<close>

definition LeaveJoint :: "(ConfChangeV2 \<Rightarrow> ConfChangeV2 \<Rightarrow> bool) \<Rightarrow> ConfChangeV2 \<Rightarrow> bool" where
  "LeaveJoint proto_Equal c = proto_Equal (c\<lparr>cc2_Context := None\<rparr>) ConfChangeV2_zero"

lemma small_size: "n < (100 :: nat) \<Longrightarrow> n < 2 ^ 63"
  by simp

section \<open>Properties\<close>

text \<open>\<open>Size\<close> of a raft message is exactly the number of bytes \<open>Marshal\<close> produces, whatever
  the message holds, unrecognized bytes included, and \<open>Marshal\<close> never stores past its buffer.\<close>

lemma Message_Marshal_exact:
  "Message_Marshal m = Some (Message_bytes m) \<and> length (Message_bytes m) = Message_Size m"
  unfolding Message_Marshal_def by (simp add: message.marshal_exact flip: message.size_exact)

text \<open>C5: A raft message without unrecognized fields survives \<open>Marshal\<close> followed by
  \<open>Unmarshal\<close> into a zero message: entries, embedded snapshot and configuration included.\<close>

theorem Message_round_trip:
  assumes "Message_known m" and "Message_Size m < 2 ^ 63"
  shows "do { bs \<leftarrow> Message_Marshal m; Message_Unmarshal bs Message_zero } = Some (Inr m)"
  unfolding Message_Marshal_def Message_Unmarshal_def using assms by (rule message.round_trip)

theorem Message_round_trip_witness:
  "let m = Message_zero\<lparr>msg_Type := MsgVote, msg_To := 2, msg_From := 300, msg_Reject := True,
             msg_Entries := [Entry_zero\<lparr>ent_Term := 5, ent_Data := Some [1, 2]\<rparr>],
             msg_Context := Some []\<rparr>
   in do { bs \<leftarrow> Message_Marshal m; Message_Unmarshal bs Message_zero } = Some (Inr m)"
  unfolding Let_def by (rule Message_round_trip, code_simp, rule small_size, code_simp)

text \<open>C28: A configuration change marshalled for the log can be read back with the decoder its
  entry type selects, and means the same \<open>ConfChangeV2\<close> afterwards.\<close>

theorem MarshalConfChange_round_trip:
  assumes "case c of V1 cc \<Rightarrow> ConfChange_known cc \<and> ConfChange_Size cc < 2 ^ 63
                   | V2 cc \<Rightarrow> ConfChangeV2_known cc \<and> ConfChangeV2_Size cc < 2 ^ 63"
  shows "\<exists>typ bs. MarshalConfChange c = Some (typ, bs) \<and>
    (if typ = EntryConfChange
     then \<exists>cc. ConfChange_Unmarshal bs ConfChange_zero = Some (Inr cc) \<and> AsV2 (V1 cc) = AsV2 c
     else typ = EntryConfChangeV2 \<and>
          ConfChangeV2_Unmarshal bs ConfChangeV2_zero = Some (Inr (AsV2 c)))"
proof (cases c)
  case (V1 cc)
  with assms have "ConfChange_Unmarshal (ConfChange_bytes cc) ConfChange_zero = Some (Inr cc)"
    by (simp add: ConfChange_Unmarshal_def conf_change.unmarshal_known)
  with V1 show ?thesis
    by (simp add: MarshalConfChange_def ConfChange_Marshal_def conf_change.marshal_exact)
next
  case (V2 cc)
  with assms have "ConfChangeV2_Unmarshal (ConfChangeV2_bytes cc) ConfChangeV2_zero = Some (Inr cc)"
    by (simp add: ConfChangeV2_Unmarshal_def conf_change_v2.unmarshal_known)
  with V2 show ?thesis
    by (simp add: MarshalConfChange_def ConfChangeV2_Marshal_def conf_change_v2.marshal_exact)
qed

theorem MarshalConfChange_round_trip_witness:
  "let c = V2 (ConfChangeV2_zero\<lparr>cc2_Changes := [ConfChangeSingle_zero\<lparr>ccs_NodeID := 7\<rparr>],
                                 cc2_Context := Some [9]\<rparr>)
   in \<exists>typ bs. MarshalConfChange c = Some (typ, bs) \<and>
    (if typ = EntryConfChange
     then \<exists>cc. ConfChange_Unmarshal bs ConfChange_zero = Some (Inr cc) \<and> AsV2 (V1 cc) = AsV2 c
     else typ = EntryConfChangeV2 \<and>
          ConfChangeV2_Unmarshal bs ConfChangeV2_zero = Some (Inr (AsV2 c)))"
  unfolding Let_def
  by (rule MarshalConfChange_round_trip, simp only: ConfChangeI.case, rule conjI, code_simp,
      rule small_size, code_simp)

text \<open>A length prefix near \<open>2 ^ 63\<close> makes \<open>iNdEx + byteLen\<close> wrap below zero, past the
  check \<open>postIndex > l\<close>; \<open>Unmarshal\<close> of ten bytes then panics instead of returning an error,
  in whatever state the entry is.\<close>

lemma Entry_Unmarshal_overflow_panics:
  "Entry_Unmarshal [0x22, 0xff, 0xff, 0xff, 0xff, 0xff, 0xff, 0xff, 0xff, 0x7f] m = None"
proof -
  let ?d = "[0x22, 0xff, 0xff, 0xff, 0xff, 0xff, 0xff, 0xff, 0xff, 0x7f] :: bytes"
  have "read_varint ?d 0 = Inr (0x22 :: u64, 1)" by code_simp
  moreover have "(ucast (drop_bit 3 (0x22 :: u64)) :: int32) = 4" by code_simp
  moreover have "0x22 AND 7 = (2 :: u64)" by code_simp
  moreover have "read_length ?d 1 = Inr (10, - 9223372036854775799)" by code_simp
  ultimately show ?thesis
    unfolding Entry_Unmarshal_def
    by (subst unmarshal_loop.simps) (simp add: Entry_fields_def byte_range_def Let_def)
qed

end
