(* ===== verification/Mem_Storage.thy ===== *)
theory Mem_Storage
  imports Raftpb
begin

text \<open>
  \<open>raft/storage.go\<close> and \<open>limitSize\<close> of \<open>raft/util.go\<close>: the stable log kept in memory.
  \<open>ents[0]\<close> is a dummy that carries the index and term of the last compacted entry; the rest
  are the entries after it. The lock around each operation makes it atomic, so an operation is a
  function of the state. \<open>Panicf\<close> of the raft logger panics.

  The locale \<open>storage\<close> states what the raft log relies on of any \<open>Storage\<close>, in terms of an
  abstract log; \<open>MemoryStorage\<close> interprets it.
\<close>

datatype storage_error =
    ErrCompacted | ErrSnapOutOfDate | ErrUnavailable | ErrSnapshotTemporarilyUnavailable

section \<open>limitSize\<close>

fun limit_loop :: "Entry list \<Rightarrow> nat \<Rightarrow> u64 \<Rightarrow> nat \<Rightarrow> nat" where
  "limit_loop [] sz maxSize limit = limit"
| "limit_loop (e # ents) sz maxSize limit =
     (let sz' = sz + Entry_Size e in
      if maxSize < of_nat sz' then limit else limit_loop ents sz' maxSize (limit + 1))"

definition limitSize :: "Entry list \<Rightarrow> u64 \<Rightarrow> Entry list" where
  "limitSize ents maxSize =
     (case ents of
        [] \<Rightarrow> ents
      | e # rest \<Rightarrow> take (limit_loop rest (Entry_Size e) maxSize 1) ents)"

section \<open>The Storage interface\<close>

text \<open>A method table; the receiver is its first argument.\<close>

record 's Storage =
  st_InitialState :: "'s \<Rightarrow> (storage_error + HardState \<times> ConfState) option"
  st_Entries :: "'s \<Rightarrow> u64 \<Rightarrow> u64 \<Rightarrow> u64 \<Rightarrow> (storage_error + Entry list) option"
  st_Term :: "'s \<Rightarrow> u64 \<Rightarrow> (storage_error + u64) option"
  st_LastIndex :: "'s \<Rightarrow> (storage_error + u64) option"
  st_FirstIndex :: "'s \<Rightarrow> (storage_error + u64) option"
  st_Snapshot :: "'s \<Rightarrow> (storage_error + Snapshot) option"

section \<open>MemoryStorage\<close>

record MemoryStorage =
  ms_hardState :: HardState
  ms_snapshot :: Snapshot
  ms_ents :: "Entry list"

definition NewMemoryStorage :: MemoryStorage where
  "NewMemoryStorage =
     \<lparr>ms_hardState = HardState_zero, ms_snapshot = Snapshot_zero, ms_ents = [Entry_zero]\<rparr>"

definition ms_InitialState :: "MemoryStorage \<Rightarrow> (storage_error + HardState \<times> ConfState) option" where
  "ms_InitialState ms = Some (Inr (ms_hardState ms, sm_ConfState (snap_Metadata (ms_snapshot ms))))"

definition ms_SetHardState :: "HardState \<Rightarrow> MemoryStorage \<Rightarrow> MemoryStorage" where
  "ms_SetHardState st ms = ms\<lparr>ms_hardState := st\<rparr>"

definition ms_lastIndex :: "MemoryStorage \<Rightarrow> u64 option" where
  "ms_lastIndex ms =
     do { e \<leftarrow> go_index (ms_ents ms) 0; Some (ent_Index e + of_nat (length (ms_ents ms)) - 1) }"

definition ms_firstIndex :: "MemoryStorage \<Rightarrow> u64 option" where
  "ms_firstIndex ms = do { e \<leftarrow> go_index (ms_ents ms) 0; Some (ent_Index e + 1) }"

definition ms_LastIndex :: "MemoryStorage \<Rightarrow> (storage_error + u64) option" where
  "ms_LastIndex ms = do { i \<leftarrow> ms_lastIndex ms; Some (Inr i) }"

definition ms_FirstIndex :: "MemoryStorage \<Rightarrow> (storage_error + u64) option" where
  "ms_FirstIndex ms = do { i \<leftarrow> ms_firstIndex ms; Some (Inr i) }"

definition ms_Snapshot :: "MemoryStorage \<Rightarrow> (storage_error + Snapshot) option" where
  "ms_Snapshot ms = Some (Inr (ms_snapshot ms))"

definition ms_Entries :: "MemoryStorage \<Rightarrow> u64 \<Rightarrow> u64 \<Rightarrow> u64 \<Rightarrow> (storage_error + Entry list) option" where
  "ms_Entries ms lo hi maxSize =
     do { e0 \<leftarrow> go_index (ms_ents ms) 0;
          last \<leftarrow> ms_lastIndex ms;
          let offset = ent_Index e0;
          if lo \<le> offset then Some (Inl ErrCompacted)
          else if last + 1 < hi then None
          else if length (ms_ents ms) = 1 then Some (Inl ErrUnavailable)
          else do { ents \<leftarrow> go_slice (ms_ents ms) (unat (lo - offset)) (unat (hi - offset));
                    Some (Inr (limitSize ents maxSize)) } }"

text \<open>\<open>int(i - offset)\<close> is negative from \<open>2 ^ 63\<close> on; the index expression then panics.\<close>

definition ms_Term :: "MemoryStorage \<Rightarrow> u64 \<Rightarrow> (storage_error + u64) option" where
  "ms_Term ms i =
     do { e0 \<leftarrow> go_index (ms_ents ms) 0;
          let offset = ent_Index e0;
          if i < offset then Some (Inl ErrCompacted)
          else if int (length (ms_ents ms)) \<le> sint (i - offset) then Some (Inl ErrUnavailable)
          else do { e \<leftarrow> go_index (ms_ents ms) (unat (i - offset)); Some (Inr (ent_Term e)) } }"

definition ms_ApplySnapshot :: "Snapshot \<Rightarrow> MemoryStorage \<Rightarrow> storage_error + MemoryStorage" where
  "ms_ApplySnapshot snap ms =
     (if sm_Index (snap_Metadata snap) \<le> sm_Index (snap_Metadata (ms_snapshot ms))
      then Inl ErrSnapOutOfDate
      else Inr (ms\<lparr>ms_snapshot := snap,
        ms_ents := [Entry_zero\<lparr>ent_Term := sm_Term (snap_Metadata snap),
                               ent_Index := sm_Index (snap_Metadata snap)\<rparr>]\<rparr>))"

definition ms_CreateSnapshot ::
  "u64 \<Rightarrow> ConfState option \<Rightarrow> bytes option \<Rightarrow> MemoryStorage
     \<Rightarrow> (storage_error + Snapshot \<times> MemoryStorage) option" where
  "ms_CreateSnapshot i cs data ms =
     (if i \<le> sm_Index (snap_Metadata (ms_snapshot ms)) then Some (Inl ErrSnapOutOfDate)
      else do { e0 \<leftarrow> go_index (ms_ents ms) 0;
                last \<leftarrow> ms_lastIndex ms;
                if last < i then None
                else do { e \<leftarrow> go_index (ms_ents ms) (unat (i - ent_Index e0));
                          let meta = (snap_Metadata (ms_snapshot ms))\<lparr>sm_Index := i, sm_Term := ent_Term e\<rparr>;
                          let meta = (case cs of None \<Rightarrow> meta | Some c \<Rightarrow> meta\<lparr>sm_ConfState := c\<rparr>);
                          let snap = (ms_snapshot ms)\<lparr>snap_Metadata := meta, snap_Data := data\<rparr>;
                          Some (Inr (snap, ms\<lparr>ms_snapshot := snap\<rparr>)) } })"

definition ms_Compact :: "u64 \<Rightarrow> MemoryStorage \<Rightarrow> (storage_error + MemoryStorage) option" where
  "ms_Compact compactIndex ms =
     do { e0 \<leftarrow> go_index (ms_ents ms) 0;
          last \<leftarrow> ms_lastIndex ms;
          let offset = ent_Index e0;
          if compactIndex \<le> offset then Some (Inl ErrCompacted)
          else if last < compactIndex then None
          else do { let i = unat (compactIndex - offset);
                    e \<leftarrow> go_index (ms_ents ms) i;
                    rest \<leftarrow> go_slice (ms_ents ms) (i + 1) (length (ms_ents ms));
                    Some (Inr (ms\<lparr>ms_ents :=
                      Entry_zero\<lparr>ent_Index := ent_Index e, ent_Term := ent_Term e\<rparr> # rest\<rparr>)) } }"

text \<open>\<open>Append\<close> returns no error; it panics where the new entries would leave a gap.\<close>

definition ms_Append :: "Entry list \<Rightarrow> MemoryStorage \<Rightarrow> MemoryStorage option" where
  "ms_Append entries ms =
     (if length entries = 0 then Some ms
      else do {
        first \<leftarrow> ms_firstIndex ms;
        e0 \<leftarrow> go_index entries 0;
        let last = ent_Index e0 + of_nat (length entries) - 1;
        if last < first then Some ms
        else do {
          entries' \<leftarrow> (if ent_Index e0 < first
                      then go_slice entries (unat (first - ent_Index e0)) (length entries)
                      else Some entries);
          e0' \<leftarrow> go_index entries' 0;
          d \<leftarrow> go_index (ms_ents ms) 0;
          let offset = ent_Index e0' - ent_Index d;
          if offset < of_nat (length (ms_ents ms)) then
            do { pre \<leftarrow> go_slice (ms_ents ms) 0 (unat offset);
                 Some (ms\<lparr>ms_ents := pre @ entries'\<rparr>) }
          else if of_nat (length (ms_ents ms)) = offset then
            Some (ms\<lparr>ms_ents := ms_ents ms @ entries'\<rparr>)
          else None } })"

definition memory_storage :: "MemoryStorage Storage" where
  "memory_storage = \<lparr>st_InitialState = ms_InitialState, st_Entries = ms_Entries,
     st_Term = ms_Term, st_LastIndex = ms_LastIndex, st_FirstIndex = ms_FirstIndex,
     st_Snapshot = ms_Snapshot\<rparr>"

section \<open>limitSize returns the longest prefix that fits\<close>

abbreviation total_size :: "Entry list \<Rightarrow> nat" where
  "total_size es \<equiv> (\<Sum>e\<leftarrow>es. Entry_Size e)"

lemma of_nat_less_64: "n < 2 ^ 64 \<Longrightarrow> (maxSize < (of_nat n :: u64)) = (unat maxSize < n)"
  by (simp add: word_less_nat_alt u64_simps)

lemma limit_loop_spec:
  fixes maxSize :: u64 and limit :: nat
  assumes "sz + total_size ents < 2 ^ 64"
  defines "k \<equiv> limit_loop ents sz maxSize limit - limit"
  shows "limit \<le> limit_loop ents sz maxSize limit \<and> k \<le> length ents \<and>
    (0 < k \<longrightarrow> sz + total_size (take k ents) \<le> unat maxSize) \<and>
    (k < length ents \<longrightarrow> unat maxSize < sz + total_size (take (Suc k) ents))"
  using assms(1) unfolding k_def
proof (induction ents arbitrary: sz limit)
  case (Cons e ents)
  let ?sz = "sz + Entry_Size e"
  have b: "?sz < 2 ^ 64" "?sz + total_size ents < 2 ^ 64" using Cons.prems by simp_all
  show ?case
  proof (cases "unat maxSize < ?sz")
    case True
    then show ?thesis by (simp add: Let_def of_nat_less_64 [OF b(1)] del: of_nat_add)
  next
    case False
    let ?r = "limit_loop ents ?sz maxSize (limit + 1)"
    from Cons.IH [OF b(2), of "limit + 1"] have IH: "limit + 1 \<le> ?r" "?r - (limit + 1) \<le> length ents"
      "0 < ?r - (limit + 1) \<longrightarrow> ?sz + total_size (take (?r - (limit + 1)) ents) \<le> unat maxSize"
      "?r - (limit + 1) < length ents \<longrightarrow> unat maxSize < ?sz + total_size (take (Suc (?r - (limit + 1))) ents)"
      by blast+
    have r: "limit_loop (e # ents) sz maxSize limit = ?r"
      using False by (simp add: Let_def of_nat_less_64 [OF b(1)] del: of_nat_add)
    have k: "?r - limit = Suc (?r - (limit + 1))" using IH(1) by simp
    show ?thesis unfolding r k using IH False by (cases "?r - (limit + 1)") auto
  qed
qed simp

lemma limitSize_take:
  "ents \<noteq> [] \<Longrightarrow> \<exists>k \<ge> 1. limitSize ents maxSize = take k ents \<and>
     k = limit_loop (tl ents) (Entry_Size (hd ents)) maxSize 1"
proof -
  have "1 \<le> limit_loop es sz maxSize 1" for es sz
  proof -
    have "l \<le> limit_loop es sz maxSize l" for l
      by (induction es arbitrary: sz l) (auto simp: Let_def intro: Suc_leD)
    then show ?thesis .
  qed
  then show "ents \<noteq> [] \<Longrightarrow> ?thesis" by (cases ents) (auto simp: limitSize_def)
qed

lemma limitSize_Nil [simp]: "limitSize [] maxSize = []"
  by (simp add: limitSize_def)

lemma limitSize_prefix: "\<exists>k. limitSize ents maxSize = take k ents \<and> (ents \<noteq> [] \<longrightarrow> 0 < k)"
  using limitSize_take [of ents maxSize] by (cases "ents = []") auto

text \<open>\<open>limitSize\<close> returns the longest prefix whose total size is within the limit, but never
  drops the first entry.\<close>

lemma limitSize_longest_prefix:
  assumes "total_size ents < 2 ^ 64"
  shows "let r = limitSize ents maxSize in
    r = take (length r) ents \<and> (ents \<noteq> [] \<longrightarrow> r \<noteq> []) \<and>
    (length r \<le> 1 \<or> total_size r \<le> unat maxSize) \<and>
    (length r < length ents \<longrightarrow> unat maxSize < total_size (take (Suc (length r)) ents))"
proof (cases ents)
  case (Cons e es)
  let ?l = "limit_loop es (Entry_Size e) maxSize 1" and ?r = "limitSize ents maxSize"
  from limit_loop_spec [of "Entry_Size e" es 1 maxSize] assms(1) Cons
  have l: "1 \<le> ?l" "?l - 1 \<le> length es"
    "0 < ?l - 1 \<longrightarrow> Entry_Size e + total_size (take (?l - 1) es) \<le> unat maxSize"
    "?l - 1 < length es \<longrightarrow> unat maxSize < Entry_Size e + total_size (take (Suc (?l - 1)) es)"
    by auto
  have r: "?r = take ?l ents" by (simp add: limitSize_def Cons)
  have len: "length ?r = ?l" unfolding r using l(1,2) by (simp add: Cons)
  from l(1) have tk: "?r = e # take (?l - 1) es" unfolding r by (cases ?l) (simp_all add: Cons)
  show ?thesis
    using l len tk by (cases ?l) (auto simp: Cons Let_def)
qed simp

section \<open>The abstract log\<close>

text \<open>
  The compacted position with its term, and the entries after it; entry \<open>k\<close> of the list has
  index \<open>al_index + 1 + k\<close>. Indices leave room for \<open>lastIndex + 1\<close> in 64 bits.
\<close>

record alog =
  al_index :: nat
  al_term :: u64
  al_ents :: "Entry list"

definition al_last :: "alog \<Rightarrow> nat" where
  "al_last a = al_index a + length (al_ents a)"

definition numbered :: "nat \<Rightarrow> Entry list \<Rightarrow> bool" where
  "numbered i es \<longleftrightarrow> (\<forall>k < length es. unat (ent_Index (es ! k)) = i + k)"

definition al_wf :: "alog \<Rightarrow> bool" where
  "al_wf a \<longleftrightarrow> numbered (al_index a + 1) (al_ents a) \<and> al_last a + 1 < 2 ^ 64 \<and>
     length (al_ents a) < 2 ^ 62"

definition al_get :: "alog \<Rightarrow> nat \<Rightarrow> Entry option" where
  "al_get a i = (if al_index a < i \<and> i \<le> al_last a then Some (al_ents a ! (i - al_index a - 1)) else None)"

definition al_term_at :: "alog \<Rightarrow> nat \<Rightarrow> u64 option" where
  "al_term_at a i = (if i = al_index a then Some (al_term a) else map_option ent_Term (al_get a i))"

definition al_range :: "alog \<Rightarrow> nat \<Rightarrow> nat \<Rightarrow> Entry list" where
  "al_range a lo hi = take (hi - lo) (drop (lo - al_index a - 1) (al_ents a))"

text \<open>Appending replaces the suffix from the first new index on; what is already compacted is
  dropped from the new entries.\<close>

definition al_append :: "Entry list \<Rightarrow> alog \<Rightarrow> alog" where
  "al_append es a =
     (let start = unat (ent_Index (hd es)); es' = drop (al_index a + 1 - start) es
      in if es = [] \<or> es' = [] then a
         else a\<lparr>al_ents := take (start - al_index a - 1) (al_ents a) @ es'\<rparr>)"

definition al_compact :: "nat \<Rightarrow> alog \<Rightarrow> alog" where
  "al_compact i a =
     \<lparr>al_index = i, al_term = the (al_term_at a i), al_ents = drop (i - al_index a) (al_ents a)\<rparr>"

lemma numbered_Nil [simp]: "numbered i []"
  by (simp add: numbered_def)

lemma numbered_Cons: "numbered i (e # es) \<longleftrightarrow> unat (ent_Index e) = i \<and> numbered (i + 1) es"
  by (auto simp: numbered_def nth_Cons split: nat.split)

lemma numbered_append:
  "numbered i (xs @ ys) \<longleftrightarrow> numbered i xs \<and> numbered (i + length xs) ys"
  by (induction xs arbitrary: i) (auto simp: numbered_Cons)

lemma numbered_take: "numbered i xs \<Longrightarrow> numbered i (take n xs)"
  by (simp add: numbered_def)

lemma numbered_drop: "numbered i xs \<Longrightarrow> numbered (i + n) (drop n xs)"
  by (auto simp: numbered_def add.assoc)

lemma numbered_hd: "numbered i es \<Longrightarrow> es \<noteq> [] \<Longrightarrow> unat (ent_Index (hd es)) = i"
  by (force simp: numbered_def hd_conv_nth)

lemma al_append_wf:
  assumes "al_wf a" and "numbered s es" and "es \<noteq> []" and "s \<le> al_last a + 1"
    and "s + length es < 2 ^ 64" and "length (al_ents a) + length es < 2 ^ 62"
  shows "al_wf (al_append es a)"
proof -
  have s: "unat (ent_Index (hd es)) = s" using assms(2,3) by (rule numbered_hd)
  let ?keep = "take (s - al_index a - 1) (al_ents a)" and ?es = "drop (al_index a + 1 - s) es"
  show ?thesis
  proof (cases "?es = []")
    case False
    have k: "length ?keep = s - al_index a - 1" using assms(4) by (simp add: al_last_def)
    have "numbered (al_index a + 1) ?keep"
      using assms(1) by (simp add: al_wf_def numbered_take)
    moreover have "numbered (al_index a + 1 + length ?keep) ?es"
      using numbered_drop [OF assms(2), of "al_index a + 1 - s"] k by (cases "s \<le> al_index a + 1") auto
    moreover have "al_index a + length ?keep + length ?es + 1 < 2 ^ 64"
      using assms(1,5) False unfolding k al_wf_def al_last_def by (auto simp: not_le)
    ultimately show ?thesis using False assms(3,6)
      by (auto simp: al_append_def Let_def s al_wf_def al_last_def numbered_append)
  qed (use assms(1) in \<open>simp add: al_append_def Let_def s\<close>)
qed

lemma al_compact_wf: "al_wf a \<Longrightarrow> al_index a \<le> i \<Longrightarrow> i \<le> al_last a \<Longrightarrow> al_wf (al_compact i a)"
  using numbered_drop [of "al_index a + 1" "al_ents a" "i - al_index a"]
  by (auto simp: al_wf_def al_compact_def al_last_def)

section \<open>What the raft log relies on\<close>

locale storage =
  fixes S :: "'s Storage" and inv :: "'s \<Rightarrow> bool" and abs :: "'s \<Rightarrow> alog"
  assumes abs_wf: "inv s \<Longrightarrow> al_wf (abs s)"
    and FirstIndex: "inv s \<Longrightarrow> st_FirstIndex S s = Some (Inr (of_nat (al_index (abs s) + 1)))"
    and LastIndex: "inv s \<Longrightarrow> st_LastIndex S s = Some (Inr (of_nat (al_last (abs s))))"
    and Term: "inv s \<Longrightarrow> al_index (abs s) \<le> unat i \<Longrightarrow> unat i \<le> al_last (abs s) \<Longrightarrow>
      st_Term S s i = Some (Inr (the (al_term_at (abs s) (unat i))))"
    and Entries: "inv s \<Longrightarrow> al_index (abs s) < unat lo \<Longrightarrow> lo < hi \<Longrightarrow> unat hi \<le> al_last (abs s) + 1 \<Longrightarrow>
      st_Entries S s lo hi maxSize = Some (Inr (limitSize (al_range (abs s) (unat lo) (unat hi)) maxSize))"
    and Entries_compacted: "inv s \<Longrightarrow> unat lo \<le> al_index (abs s) \<Longrightarrow>
      st_Entries S s lo hi maxSize = Some (Inl ErrCompacted)"
begin

lemma FirstIndex_unat:
  "inv s \<Longrightarrow> \<exists>f. st_FirstIndex S s = Some (Inr f) \<and> unat f = al_index (abs s) + 1"
  using FirstIndex [of s] abs_wf [of s] by (auto simp: al_wf_def al_last_def u64_simps simp del: of_nat_Suc of_nat_add)

lemma LastIndex_unat:
  "inv s \<Longrightarrow> \<exists>l. st_LastIndex S s = Some (Inr l) \<and> unat l = al_last (abs s)"
  using LastIndex [of s] abs_wf [of s] by (auto simp: al_wf_def u64_simps)

end

section \<open>MemoryStorage implements it\<close>

definition ms_abs :: "MemoryStorage \<Rightarrow> alog" where
  "ms_abs ms = \<lparr>al_index = unat (ent_Index (hd (ms_ents ms))), al_term = ent_Term (hd (ms_ents ms)),
     al_ents = tl (ms_ents ms)\<rparr>"

definition ms_wf :: "MemoryStorage \<Rightarrow> bool" where
  "ms_wf ms \<longleftrightarrow> ms_ents ms \<noteq> [] \<and> al_wf (ms_abs ms)"

lemma ms_wfE:
  assumes "ms_wf ms"
  obtains d es where "ms_ents ms = d # es"
    and "ms_abs ms = \<lparr>al_index = unat (ent_Index d), al_term = ent_Term d, al_ents = es\<rparr>"
    and "numbered (unat (ent_Index d) + 1) es" and "unat (ent_Index d) + length es + 1 < 2 ^ 64"
    and "length es < 2 ^ 62"
proof (cases "ms_ents ms")
  case (Cons d es)
  show thesis
    by (rule that [OF Cons]) (use assms Cons in \<open>simp_all add: ms_wf_def ms_abs_def al_wf_def al_last_def\<close>)
qed (use assms in \<open>simp add: ms_wf_def\<close>)

lemma ms_indices:
  assumes "ms_wf ms"
  shows "\<exists>l. ms_lastIndex ms = Some l \<and> unat l = al_last (ms_abs ms)"
    and "\<exists>f. ms_firstIndex ms = Some f \<and> unat f = al_index (ms_abs ms) + 1"
proof -
  obtain d es where e: "ms_ents ms = d # es"
    "ms_abs ms = \<lparr>al_index = unat (ent_Index d), al_term = ent_Term d, al_ents = es\<rparr>"
    "unat (ent_Index d) + length es + 1 < 2 ^ 64" using assms by (rule ms_wfE)
  have "ms_lastIndex ms = Some (ent_Index d + of_nat (length es))"
    by (simp add: ms_lastIndex_def e go_index_def)
  moreover have "unat (ent_Index d + of_nat (length es)) = al_last (ms_abs ms)"
    using e(3) by (subst unat_plus_of_nat) (simp_all add: al_last_def e)
  ultimately show "\<exists>l. ms_lastIndex ms = Some l \<and> unat l = al_last (ms_abs ms)" by blast
  have "ms_firstIndex ms = Some (ent_Index d + 1)"
    by (simp add: ms_firstIndex_def e go_index_def)
  moreover have "unat (ent_Index d + 1) = al_index (ms_abs ms) + 1"
    using e(3) by (subst unat_plus_1) (simp_all add: e)
  ultimately show "\<exists>f. ms_firstIndex ms = Some f \<and> unat f = al_index (ms_abs ms) + 1" by blast
qed

lemma int_le_sint:
  "unat (w :: u64) < 2 ^ 63 \<Longrightarrow> (int n \<le> sint w) = (n \<le> unat w)"
  "2 ^ 63 \<le> unat (w :: u64) \<Longrightarrow> \<not> int n \<le> sint w"
proof -
  have w: "sint w = wrap_int (uint w)" by (simp add: sint_uint wrap_int_def)
  have u0: "0 \<le> uint w" by simp
  have u: "unat w = nat (uint w)" "uint w < 2 ^ 64"
    using unsigned_less [of w, where ?'a = int] by simp_all
  {
    assume "unat w < 2 ^ 63"
    then have "uint w < 2 ^ 63" unfolding u(1) nat_less_iff [OF u0] by simp
    then have "sint w = uint w" unfolding w using u0 by (intro wrap_int_id) linarith+
    then show "(int n \<le> sint w) = (n \<le> unat w)" unfolding u(1) le_nat_iff [OF u0] by simp
  next
    assume "2 ^ 63 \<le> unat w"
    then have "2 ^ 63 \<le> uint w" unfolding u(1) le_nat_iff [OF u0] by simp
    then have "sint w < 0" unfolding w using u(2) wrap_int_over [of "uint w"] by linarith
    then show "\<not> int n \<le> sint w" by linarith
  }
qed

lemma ms_Term_spec:
  assumes "ms_wf ms"
  defines "a \<equiv> ms_abs ms"
  shows "ms_Term ms i =
    (if unat i < al_index a then Some (Inl ErrCompacted)
     else if unat i \<le> al_last a then Some (Inr (the (al_term_at a (unat i))))
     else if unat i - al_index a < 2 ^ 63 then Some (Inl ErrUnavailable)
     else None)"
  unfolding a_def
proof (rule ms_wfE [OF assms(1)])
  fix d es
  assume e: "ms_ents ms = d # es"
    "ms_abs ms = \<lparr>al_index = unat (ent_Index d), al_term = ent_Term d, al_ents = es\<rparr>" "length es < 2 ^ 62"
  let ?k = "unat i - unat (ent_Index d)"
  show "ms_Term ms i = (if unat i < al_index (ms_abs ms) then Some (Inl ErrCompacted)
     else if unat i \<le> al_last (ms_abs ms) then Some (Inr (the (al_term_at (ms_abs ms) (unat i))))
     else if unat i - al_index (ms_abs ms) < 2 ^ 63 then Some (Inl ErrUnavailable) else None)"
  proof (cases "unat i < unat (ent_Index d)")
    case False
    then have k: "unat (i - ent_Index d) = ?k" by (simp add: u64_simps word_le_nat_alt)
    have le: "(int (Suc (length es)) \<le> sint (i - ent_Index d)) = (Suc (length es) \<le> ?k \<and> ?k < 2 ^ 63)"
      using int_le_sint [of "i - ent_Index d" "Suc (length es)"] k by (cases "?k < 2 ^ 63") simp_all
    have t: "the (al_term_at (ms_abs ms) (unat i)) = ent_Term ((d # es) ! ?k)" if "?k \<le> length es"
      using False that by (cases ?k) (auto simp: e al_term_at_def al_get_def al_last_def)
    have "ms_Term ms i = (if Suc (length es) \<le> ?k \<and> ?k < 2 ^ 63 then Some (Inl ErrUnavailable)
        else do { e \<leftarrow> go_index (d # es) ?k; Some (Inr (ent_Term e)) })"
      using False k le by (simp add: ms_Term_def e go_index_def [of _ 0] Let_def word_less_nat_alt)
    also have "\<dots> = (if ?k \<le> length es then Some (Inr (ent_Term ((d # es) ! ?k)))
        else if ?k < 2 ^ 63 then Some (Inl ErrUnavailable) else None)"
      by (simp add: go_index_def)
    finally show ?thesis using False t by (auto simp: e al_last_def)
  qed (use e in \<open>simp add: ms_Term_def go_simps Let_def word_less_nat_alt\<close>)
qed

lemma ms_Entries_spec:
  assumes "ms_wf ms"
  defines "a \<equiv> ms_abs ms"
  shows "ms_Entries ms lo hi maxSize =
    (if unat lo \<le> al_index a then Some (Inl ErrCompacted)
     else if al_last a + 1 < unat hi then None
     else if al_ents a = [] then Some (Inl ErrUnavailable)
     else if hi < lo then None
     else Some (Inr (limitSize (al_range a (unat lo) (unat hi)) maxSize)))"
  unfolding a_def
proof (rule ms_wfE [OF assms(1)])
  fix d es
  assume e: "ms_ents ms = d # es"
    "ms_abs ms = \<lparr>al_index = unat (ent_Index d), al_term = ent_Term d, al_ents = es\<rparr>"
    "unat (ent_Index d) + length es + 1 < 2 ^ 64"
  obtain l where l: "ms_lastIndex ms = Some l" "unat l = al_last (ms_abs ms)"
    using ms_indices [OF assms(1)] by blast
  have l1: "unat (l + 1) = al_last (ms_abs ms) + 1"
    using l e by (simp add: u64_simps al_last_def)
  show "ms_Entries ms lo hi maxSize =
    (if unat lo \<le> al_index (ms_abs ms) then Some (Inl ErrCompacted)
     else if al_last (ms_abs ms) + 1 < unat hi then None
     else if al_ents (ms_abs ms) = [] then Some (Inl ErrUnavailable)
     else if hi < lo then None
     else Some (Inr (limitSize (al_range (ms_abs ms) (unat lo) (unat hi)) maxSize)))"
  proof (cases "unat lo \<le> unat (ent_Index d) \<or> al_last (ms_abs ms) + 1 < unat hi \<or> es = [] \<or> hi < lo")
    case True
    have "ent_Index d < lo \<Longrightarrow> hi < lo \<Longrightarrow>
        go_slice (d # es) (unat (lo - ent_Index d)) (unat (hi - ent_Index d)) = None"
    proof (cases "hi < ent_Index d")
      case True
      assume "ent_Index d < lo"
      have "unat (hi - ent_Index d) = 2 ^ 64 + unat hi - unat (ent_Index d)"
        using True by (simp add: unat_sub_if_size word_size word_less_nat_alt)
      then show ?thesis using e(3) by (auto simp: go_slice_def)
    qed (auto simp: go_slice_def u64_simps word_less_nat_alt word_le_nat_alt)
    with True e l l1 show ?thesis
      by (auto simp: ms_Entries_def go_simps Let_def word_less_nat_alt word_le_nat_alt al_last_def)
  next
    case False
    then have "unat (lo - ent_Index d) = unat lo - unat (ent_Index d)"
      "unat (hi - ent_Index d) = unat hi - unat (ent_Index d)"
      by (simp_all add: u64_simps word_less_nat_alt word_le_nat_alt)
    with False e l l1 show ?thesis
      by (auto simp: ms_Entries_def go_simps Let_def word_less_nat_alt word_le_nat_alt al_last_def al_range_def
          drop_Cons' Suc_diff_le)
  qed
qed

interpretation mem: storage memory_storage ms_wf ms_abs
proof
  fix ms lo hi maxSize
  assume wf: "ms_wf ms"
  show "al_wf (ms_abs ms)" using wf by (simp add: ms_wf_def)
  obtain f l where f: "ms_firstIndex ms = Some f" "unat f = al_index (ms_abs ms) + 1"
    and l: "ms_lastIndex ms = Some l" "unat l = al_last (ms_abs ms)"
    using ms_indices [OF wf] by blast
  show "st_FirstIndex memory_storage ms = Some (Inr (of_nat (al_index (ms_abs ms) + 1)))"
    unfolding f(2) [symmetric] by (simp add: memory_storage_def ms_FirstIndex_def f(1))
  show "st_LastIndex memory_storage ms = Some (Inr (of_nat (al_last (ms_abs ms))))"
    unfolding l(2) [symmetric] by (simp add: memory_storage_def ms_LastIndex_def l(1))
  show "st_Entries memory_storage ms lo hi maxSize = Some (Inl ErrCompacted)"
    if "unat lo \<le> al_index (ms_abs ms)"
    using that by (simp add: memory_storage_def ms_Entries_spec [OF wf])
  show "st_Entries memory_storage ms lo hi maxSize
      = Some (Inr (limitSize (al_range (ms_abs ms) (unat lo) (unat hi)) maxSize))"
    if "al_index (ms_abs ms) < unat lo" "lo < hi" "unat hi \<le> al_last (ms_abs ms) + 1"
  proof -
    from that have "al_ents (ms_abs ms) \<noteq> []" by (auto simp: al_last_def word_less_nat_alt)
    with that show ?thesis by (simp add: memory_storage_def ms_Entries_spec [OF wf])
  qed
qed (simp add: memory_storage_def ms_Term_spec)

lemma go_index_hd: "xs \<noteq> [] \<Longrightarrow> go_index xs 0 = Some (hd xs)"
  by (simp add: go_index_def hd_conv_nth)

lemma ms_Append_eq:
  assumes "ms_wf ms" and es: "numbered s es" "es \<noteq> []" "s + length es < 2 ^ 64"
  shows "ms_Append es ms =
    (if al_last (ms_abs ms) + 1 < s then None
     else Some (ms\<lparr>ms_ents := hd (ms_ents ms) # al_ents (al_append es (ms_abs ms))\<rparr>))"
proof (rule ms_wfE [OF assms(1)])
  fix d old
  assume e: "ms_ents ms = d # old"
    "ms_abs ms = \<lparr>al_index = unat (ent_Index d), al_term = ent_Term d, al_ents = old\<rparr>"
    "unat (ent_Index d) + length old + 1 < 2 ^ 64" "length old < 2 ^ 62"
  let ?off = "unat (ent_Index d)" and ?e0 = "hd es"
  have s: "unat (ent_Index ?e0) = s" using es by (intro numbered_hd)
  have e0: "go_index es 0 = Some ?e0" using es(2) by (simp add: go_index_def hd_conv_nth)
  have f: "ms_firstIndex ms = Some (ent_Index d + 1)" "unat (ent_Index d + 1) = ?off + 1"
    using e by (simp_all add: ms_firstIndex_def go_index_def u64_simps)
  have l: "unat (ent_Index ?e0 + of_nat (length es) - 1) = s + length es - 1"
    using es s by (subst unat_minus_1; subst unat_plus_of_nat) (simp_all add: s)
  let ?es = "drop (?off + 1 - s) es"
  show ?thesis
  proof (cases "s + length es - 1 < ?off + 1")
    case True
    then have "ms_Append es ms = Some ms" using es(2) e0 f l
      by (simp add: ms_Append_def Let_def word_less_nat_alt)
    moreover have "length es \<le> ?off + 1 - s" using True es(2) by (cases es) auto
    then have "al_append es (ms_abs ms) = ms_abs ms" using s by (simp add: al_append_def e Let_def)
    ultimately show ?thesis using True e es(2) by (auto simp: al_last_def)
  next
    case False
    let ?a = "max s (?off + 1)"
    have ne: "?es \<noteq> []" unfolding drop_eq_Nil using False es(2) by (cases es) auto
    have sl: "(if ent_Index ?e0 < ent_Index d + 1
        then go_slice es (unat (ent_Index d + 1 - ent_Index ?e0)) (length es) else Some es) = Some ?es"
    proof (cases "s < ?off + 1")
      case True
      then have "unat (ent_Index d + 1 - ent_Index ?e0) = ?off + 1 - s"
        using s f(2) by (simp add: u64_simps word_le_nat_alt)
      then show ?thesis using True s f(2) ne by (simp add: word_less_nat_alt go_slice_def)
    qed (use s f(2) in \<open>simp add: word_less_nat_alt\<close>)
    have h: "unat (ent_Index (hd ?es)) = ?a"
      using numbered_hd [OF numbered_drop [OF es(1)] ne] by (simp add: max_def)
    have off: "unat (ent_Index (hd ?es) - ent_Index d) = ?a - ?off"
      using h by (simp add: u64_simps word_le_nat_alt)
    have n: "unat (of_nat (length (ms_ents ms)) :: u64) = Suc (length old)"
    proof -
      have "unat (of_nat (Suc (length old)) :: u64) = Suc (length old)"
        using e(4) by (intro unat_of_nat_64) simp
      then show ?thesis by (simp add: e(1) del: of_nat_Suc)
    qed
    have gd: "go_index (ms_ents ms) 0 = Some d" by (simp add: e(1) go_index_def)
    have A: "ms_Append es ms = (if ?a - ?off \<le> length old
        then Some (ms\<lparr>ms_ents := d # take (?a - ?off - 1) old @ ?es\<rparr>)
        else if ?a - ?off = Suc (length old) then Some (ms\<lparr>ms_ents := d # old @ ?es\<rparr>) else None)"
    proof -
      have "ms_Append es ms = (if ent_Index (hd ?es) - ent_Index d < of_nat (length (ms_ents ms))
          then do { pre \<leftarrow> go_slice (ms_ents ms) 0 (?a - ?off); Some (ms\<lparr>ms_ents := pre @ ?es\<rparr>) }
          else if of_nat (length (ms_ents ms)) = ent_Index (hd ?es) - ent_Index d
          then Some (ms\<lparr>ms_ents := ms_ents ms @ ?es\<rparr>) else None)"
        unfolding ms_Append_def f(1) e0 Option.bind_lunit Let_def sl go_index_hd [OF ne] gd
        using es(2) False l f(2) by (simp only: off word_less_nat_alt length_0_conv if_False)
      also have "ent_Index (hd ?es) - ent_Index d < of_nat (length (ms_ents ms)) \<longleftrightarrow> ?a - ?off \<le> length old"
        unfolding word_less_nat_alt off n by linarith
      also have "of_nat (length (ms_ents ms)) = ent_Index (hd ?es) - ent_Index d \<longleftrightarrow> ?a - ?off = Suc (length old)"
        unfolding word_unat_eq_iff off n by auto
      finally show ?thesis
        by (cases "?a - ?off") (auto simp: e(1) go_slice_def)
    qed
    have al: "hd (ms_ents ms) # al_ents (al_append es (ms_abs ms)) = d # take (?a - ?off - 1) old @ ?es"
      using ne s es(2) by (simp add: al_append_def e Let_def max_def)
    have gap: "al_last (ms_abs ms) + 1 < s \<longleftrightarrow> Suc (length old) < ?a - ?off"
      by (auto simp: al_last_def e max_def)
    have all: "?a - ?off = Suc (length old) \<Longrightarrow> take (?a - ?off - 1) old = old" by simp
    show ?thesis
      unfolding A al gap using all
      by (cases "?a - ?off \<le> length old"; cases "?a - ?off = Suc (length old)") auto
  qed
qed

lemma ms_ents_update_abs:
  "ms_ents ms \<noteq> [] \<Longrightarrow> ms_abs (ms\<lparr>ms_ents := hd (ms_ents ms) # es\<rparr>) = (ms_abs ms)\<lparr>al_ents := es\<rparr>"
  by (simp add: ms_abs_def)

lemma al_append_same [simp]: "al_index (al_append es a) = al_index a" "al_term (al_append es a) = al_term a"
  by (simp_all add: al_append_def Let_def)

lemma ms_Compact_spec:
  assumes "ms_wf ms"
  shows "ms_Compact i ms =
    (if unat i \<le> al_index (ms_abs ms) then Some (Inl ErrCompacted)
     else if al_last (ms_abs ms) < unat i then None
     else Some (Inr (ms\<lparr>ms_ents := Entry_zero\<lparr>ent_Index := i, ent_Term := the (al_term_at (ms_abs ms) (unat i))\<rparr>
                               # al_ents (al_compact (unat i) (ms_abs ms))\<rparr>)))"
proof (rule ms_wfE [OF assms])
  fix d es
  assume e: "ms_ents ms = d # es"
    "ms_abs ms = \<lparr>al_index = unat (ent_Index d), al_term = ent_Term d, al_ents = es\<rparr>"
    "numbered (unat (ent_Index d) + 1) es"
  let ?off = "unat (ent_Index d)" and ?k = "unat i - unat (ent_Index d) - 1"
  obtain l where l: "ms_lastIndex ms = Some l" "unat l = al_last (ms_abs ms)"
    using ms_indices [OF assms] by blast
  show ?thesis
  proof (cases "unat i \<le> ?off \<or> al_last (ms_abs ms) < unat i")
    case True
    then show ?thesis
      using e l by (auto simp: ms_Compact_def go_index_def Let_def word_le_nat_alt word_less_nat_alt)
  next
    case False
    then have k: "?k < length es" "unat i - ?off = Suc ?k" using e by (auto simp: al_last_def)
    have "unat (ent_Index (es ! ?k)) = unat i" using e(3) k by (auto simp: numbered_def)
    then have "ent_Index (es ! ?k) = i" by (rule u64_eqI)
    moreover have "unat (i - ent_Index d) = Suc ?k"
      using False k(2) by (simp add: u64_simps word_le_nat_alt)
    ultimately show ?thesis
      using False e l k
      by (auto simp: ms_Compact_def go_index_def go_slice_def Let_def word_le_nat_alt word_less_nat_alt
          al_term_at_def al_get_def al_compact_def al_last_def)
  qed
qed

lemma ms_CreateSnapshot_spec:
  assumes "ms_wf ms" and "al_index (ms_abs ms) \<le> unat i"
  shows "ms_CreateSnapshot i cs data ms =
    (if i \<le> sm_Index (snap_Metadata (ms_snapshot ms)) then Some (Inl ErrSnapOutOfDate)
     else if al_last (ms_abs ms) < unat i then None
     else let meta = (snap_Metadata (ms_snapshot ms))
            \<lparr>sm_Index := i, sm_Term := the (al_term_at (ms_abs ms) (unat i)),
             sm_ConfState := (case cs of None \<Rightarrow> sm_ConfState (snap_Metadata (ms_snapshot ms)) | Some c \<Rightarrow> c)\<rparr>;
              snap = (ms_snapshot ms)\<lparr>snap_Metadata := meta, snap_Data := data\<rparr>
          in Some (Inr (snap, ms\<lparr>ms_snapshot := snap\<rparr>)))"
proof (rule ms_wfE [OF assms(1)])
  fix d es
  assume e: "ms_ents ms = d # es"
    "ms_abs ms = \<lparr>al_index = unat (ent_Index d), al_term = ent_Term d, al_ents = es\<rparr>"
  let ?k = "unat i - unat (ent_Index d)"
  obtain l where l: "ms_lastIndex ms = Some l" "unat l = al_last (ms_abs ms)"
    using ms_indices [OF assms(1)] by blast
  have k: "unat (i - ent_Index d) = ?k" using assms(2) e by (simp add: u64_simps word_le_nat_alt)
  have t: "?k \<le> length es \<Longrightarrow> ent_Term ((d # es) ! ?k) = the (al_term_at (ms_abs ms) (unat i))"
    using assms(2) by (cases ?k) (auto simp: e al_term_at_def al_get_def al_last_def)
  have g: "\<not> al_last (ms_abs ms) < unat i \<Longrightarrow> go_index (ms_ents ms) ?k = Some ((d # es) ! ?k)"
    by (simp add: e al_last_def go_index_def)
  show ?thesis
  proof (cases "al_last (ms_abs ms) < unat i")
    case False
    then have "?k \<le> length es" by (auto simp: e al_last_def)
    from t [OF this] g [OF False] k l False show ?thesis
      by (cases cs) (simp_all add: ms_CreateSnapshot_def e(1) go_index_def [of _ 0] Let_def word_less_nat_alt)
  qed (use l in \<open>simp add: ms_CreateSnapshot_def e(1) go_index_def [of _ 0] word_less_nat_alt\<close>)
qed

section \<open>Properties\<close>

lemma ms_Append_abs:
  assumes "ms_wf ms" and "numbered s es" and "es \<noteq> []" and "s + length es < 2 ^ 64"
    and "length (al_ents (ms_abs ms)) + length es < 2 ^ 62" and "s \<le> al_last (ms_abs ms) + 1"
  shows "\<exists>ms'. ms_Append es ms = Some ms' \<and> ms_wf ms' \<and> ms_abs ms' = al_append es (ms_abs ms) \<and>
           ms_hardState ms' = ms_hardState ms \<and> ms_snapshot ms' = ms_snapshot ms"
proof -
  have ne: "ms_ents ms \<noteq> []" using assms(1) by (simp add: ms_wf_def)
  have "al_wf (al_append es (ms_abs ms))"
    using assms by (intro al_append_wf [where s = s]) (auto simp: ms_wf_def)
  moreover have "ms_abs (ms\<lparr>ms_ents := hd (ms_ents ms) # al_ents (al_append es (ms_abs ms))\<rparr>)
      = al_append es (ms_abs ms)"
    unfolding ms_ents_update_abs [OF ne] by (rule alog.equality) simp_all
  ultimately show ?thesis
    using assms(6) by (simp add: ms_Append_eq [OF assms(1-4)] ms_wf_def)
qed

text \<open>C8: \<open>Append\<close> keeps the storage well formed and implements the abstract log: appending a
  run of consecutive entries replaces the suffix of the log from the first new index on, and
  panics exactly when there would be a gap.\<close>

theorem Append_refines:
  assumes "ms_wf ms" and "numbered s es" and "es \<noteq> []" and "s + length es < 2 ^ 64"
    and "length (al_ents (ms_abs ms)) + length es < 2 ^ 62"
  shows "if al_last (ms_abs ms) + 1 < s then ms_Append es ms = None
    else \<exists>ms'. ms_Append es ms = Some ms' \<and> ms_wf ms' \<and> ms_abs ms' = al_append es (ms_abs ms) \<and>
           ms_hardState ms' = ms_hardState ms \<and> ms_snapshot ms' = ms_snapshot ms"
  using ms_Append_abs [OF assms] by (simp add: ms_Append_eq [OF assms(1-4)])

definition example_entry :: "u64 \<Rightarrow> u64 \<Rightarrow> Entry" where
  "example_entry i t = Entry_zero\<lparr>ent_Index := i, ent_Term := t\<rparr>"

definition example_storage :: MemoryStorage where
  "example_storage = NewMemoryStorage\<lparr>ms_ents :=
     [example_entry 3 1, example_entry 4 1, example_entry 5 2, example_entry 6 2]\<rparr>"

lemma example_storage_abs:
  "ms_abs example_storage = \<lparr>al_index = 3, al_term = 1,
     al_ents = [example_entry 4 1, example_entry 5 2, example_entry 6 2]\<rparr>"
  by (simp add: ms_abs_def example_storage_def example_entry_def)

lemma example_storage_wf: "ms_wf example_storage"
  by (simp add: ms_wf_def example_storage_abs al_wf_def al_last_def numbered_Cons example_entry_def)
    (simp add: example_storage_def)

theorem Append_refines_witness:
  "let es = [example_entry 6 3, example_entry 7 3] in
   if al_last (ms_abs example_storage) + 1 < 6 then ms_Append es example_storage = None
    else \<exists>ms'. ms_Append es example_storage = Some ms' \<and> ms_wf ms' \<and>
           ms_abs ms' = al_append es (ms_abs example_storage) \<and>
           ms_hardState ms' = ms_hardState example_storage \<and> ms_snapshot ms' = ms_snapshot example_storage"
  unfolding Let_def
  by (rule Append_refines [OF example_storage_wf])
    (simp_all add: numbered_Cons example_entry_def example_storage_def ms_abs_def)

text \<open>\<open>Compact\<close> moves the dummy to the compacted index, keeps every later entry and
  reports an index that is already compacted; only an index past the end panics.\<close>

lemma Compact_refines:
  assumes "ms_wf ms"
  shows "if unat i \<le> al_index (ms_abs ms) then ms_Compact i ms = Some (Inl ErrCompacted)
    else if al_last (ms_abs ms) < unat i then ms_Compact i ms = None
    else \<exists>ms'. ms_Compact i ms = Some (Inr ms') \<and> ms_wf ms' \<and>
           ms_abs ms' = al_compact (unat i) (ms_abs ms) \<and>
           (\<forall>j > unat i. al_get (ms_abs ms') j = al_get (ms_abs ms) j)"
proof (cases "unat i \<le> al_index (ms_abs ms) \<or> al_last (ms_abs ms) < unat i")
  case False
  let ?ms = "ms\<lparr>ms_ents := Entry_zero\<lparr>ent_Index := i, ent_Term := the (al_term_at (ms_abs ms) (unat i))\<rparr>
                  # al_ents (al_compact (unat i) (ms_abs ms))\<rparr>"
  have a: "ms_abs ?ms = al_compact (unat i) (ms_abs ms)"
    by (simp add: ms_abs_def al_compact_def)
  have "ms_wf ?ms"
    using False assms by (auto simp: ms_wf_def a intro: al_compact_wf)
  moreover have "al_get (al_compact (unat i) (ms_abs ms)) j = al_get (ms_abs ms) j" if "unat i < j" for j
    using False that by (auto simp: al_get_def al_compact_def al_last_def)
  ultimately show ?thesis using False a by (simp add: ms_Compact_spec [OF assms])
qed (auto simp: ms_Compact_spec [OF assms])

text \<open>The reads of the storage agree with the abstract log on every argument: compacted
  and unavailable indices give their errors, and only a range past the end or a difference that
  overflows \<open>int\<close> panics.\<close>

lemma reads_refine:
  assumes "ms_wf ms"
  shows "ms_Term ms i =
      (if unat i < al_index (ms_abs ms) then Some (Inl ErrCompacted)
       else if unat i \<le> al_last (ms_abs ms) then Some (Inr (the (al_term_at (ms_abs ms) (unat i))))
       else if unat i - al_index (ms_abs ms) < 2 ^ 63 then Some (Inl ErrUnavailable)
       else None) \<and>
    ms_Entries ms lo hi maxSize =
      (if unat lo \<le> al_index (ms_abs ms) then Some (Inl ErrCompacted)
       else if al_last (ms_abs ms) + 1 < unat hi then None
       else if al_ents (ms_abs ms) = [] then Some (Inl ErrUnavailable)
       else if hi < lo then None
       else Some (Inr (limitSize (al_range (ms_abs ms) (unat lo) (unat hi)) maxSize)))"
  by (rule conjI [OF ms_Term_spec [OF assms] ms_Entries_spec [OF assms]])

text \<open>\<open>ApplySnapshot\<close> refuses a snapshot that is not newer than the current one and
  otherwise makes the log empty at the snapshot's position; the storage stays well formed.\<close>

lemma ApplySnapshot_refines:
  assumes "unat (sm_Index (snap_Metadata snap)) + 1 < 2 ^ 64"
  shows "if sm_Index (snap_Metadata snap) \<le> sm_Index (snap_Metadata (ms_snapshot ms))
    then ms_ApplySnapshot snap ms = Inl ErrSnapOutOfDate
    else \<exists>ms'. ms_ApplySnapshot snap ms = Inr ms' \<and> ms_wf ms' \<and> ms_snapshot ms' = snap \<and>
      ms_abs ms' = \<lparr>al_index = unat (sm_Index (snap_Metadata snap)),
                    al_term = sm_Term (snap_Metadata snap), al_ents = []\<rparr>"
  using assms by (simp add: ms_ApplySnapshot_def ms_wf_def ms_abs_def al_wf_def al_last_def)

end
