(* ===== verification/Unstable.thy ===== *)
theory Unstable
  imports Mem_Storage
begin

text \<open>
  \<open>raft/log_unstable.go\<close>: the part of the log that is not in the storage yet. \<open>entries[i]\<close>
  has raft index \<open>offset + i\<close>. Whether \<open>shrinkEntriesArray\<close> copies depends on the capacity of
  the backing array, which is an argument here; the contents do not depend on it.
\<close>

record unstable =
  un_snapshot :: "Snapshot option"
  un_entries :: "Entry list"
  un_offset :: u64

definition un_maybeFirstIndex :: "unstable \<Rightarrow> u64 option" where
  "un_maybeFirstIndex u =
     (case un_snapshot u of Some s \<Rightarrow> Some (sm_Index (snap_Metadata s) + 1) | None \<Rightarrow> None)"

definition un_maybeLastIndex :: "unstable \<Rightarrow> u64 option" where
  "un_maybeLastIndex u =
     (if length (un_entries u) \<noteq> 0 then Some (un_offset u + of_nat (length (un_entries u)) - 1)
      else case un_snapshot u of Some s \<Rightarrow> Some (sm_Index (snap_Metadata s)) | None \<Rightarrow> None)"

text \<open>\<open>maybeTerm\<close>: the outer option is the panic of the slice access, the inner one \<open>ok\<close>.\<close>

definition un_maybeTerm :: "u64 \<Rightarrow> unstable \<Rightarrow> u64 option option" where
  "un_maybeTerm i u =
     (if i < un_offset u then
        (case un_snapshot u of
           None \<Rightarrow> Some None
         | Some s \<Rightarrow> (if sm_Index (snap_Metadata s) = i then Some (Some (sm_Term (snap_Metadata s)))
                     else Some None))
      else case un_maybeLastIndex u of
             None \<Rightarrow> Some None
           | Some lastIdx \<Rightarrow>
               (if lastIdx < i then Some None
                else do { e \<leftarrow> go_index (un_entries u) (unat (i - un_offset u)); Some (Some (ent_Term e)) }))"

text \<open>\<open>copy(dst, src)\<close>\<close>

definition go_copy :: "'a list \<Rightarrow> 'a list \<Rightarrow> 'a list" where
  "go_copy dst src = (let n = min (length dst) (length src) in take n src @ drop n dst)"

definition shrinkEntriesArray :: "nat \<Rightarrow> unstable \<Rightarrow> unstable" where
  "shrinkEntriesArray cap u =
     (if length (un_entries u) = 0 then u\<lparr>un_entries := []\<rparr>
      else if length (un_entries u) * 2 < cap then
        u\<lparr>un_entries := go_copy (replicate (length (un_entries u)) Entry_zero) (un_entries u)\<rparr>
      else u)"

definition un_stableTo :: "nat \<Rightarrow> u64 \<Rightarrow> u64 \<Rightarrow> unstable \<Rightarrow> unstable option" where
  "un_stableTo cap i t u =
     do { r \<leftarrow> un_maybeTerm i u;
          (case r of
             None \<Rightarrow> Some u
           | Some gt \<Rightarrow>
               (if gt = t \<and> un_offset u \<le> i then
                  do { ents \<leftarrow> go_slice (un_entries u) (unat (i + 1 - un_offset u)) (length (un_entries u));
                       Some (shrinkEntriesArray cap (u\<lparr>un_entries := ents, un_offset := i + 1\<rparr>)) }
                else Some u)) }"

definition un_mustCheckOutOfBounds :: "u64 \<Rightarrow> u64 \<Rightarrow> unstable \<Rightarrow> unit option" where
  "un_mustCheckOutOfBounds lo hi u =
     (if hi < lo then None
      else let upper = un_offset u + of_nat (length (un_entries u)) in
           if lo < un_offset u \<or> upper < hi then None else Some ())"

definition un_slice :: "u64 \<Rightarrow> u64 \<Rightarrow> unstable \<Rightarrow> Entry list option" where
  "un_slice lo hi u =
     do { _ \<leftarrow> un_mustCheckOutOfBounds lo hi u;
          go_slice (un_entries u) (unat (lo - un_offset u)) (unat (hi - un_offset u)) }"

definition un_truncateAndAppend :: "Entry list \<Rightarrow> unstable \<Rightarrow> unstable option" where
  "un_truncateAndAppend ents u =
     do { e0 \<leftarrow> go_index ents 0;
          let after = ent_Index e0;
          if after = un_offset u + of_nat (length (un_entries u)) then
            Some (u\<lparr>un_entries := un_entries u @ ents\<rparr>)
          else if after \<le> un_offset u then
            Some (u\<lparr>un_offset := after, un_entries := ents\<rparr>)
          else do { pre \<leftarrow> un_slice (un_offset u) after u;
                    Some (u\<lparr>un_entries := pre @ ents\<rparr>) } }"

section \<open>Lemmas\<close>

lemma shrinkEntriesArray_same [simp]: "shrinkEntriesArray cap u = u"
  by (cases u) (simp add: shrinkEntriesArray_def go_copy_def)

text \<open>The invariant, for an unstable log without a pending snapshot (no code of the program sets
  one): the entries are numbered from the offset and leave room in 64 bits.\<close>

definition un_wf :: "unstable \<Rightarrow> bool" where
  "un_wf u \<longleftrightarrow> un_snapshot u = None \<and> numbered (unat (un_offset u)) (un_entries u) \<and>
     unat (un_offset u) + length (un_entries u) < 2 ^ 64"

lemma un_maybeFirstIndex_None [simp]: "un_wf u \<Longrightarrow> un_maybeFirstIndex u = None"
  by (simp add: un_wf_def un_maybeFirstIndex_def)

lemma un_maybeLastIndex_spec:
  assumes "un_wf u"
  shows "if un_entries u = [] then un_maybeLastIndex u = None
    else \<exists>l. un_maybeLastIndex u = Some l \<and> unat l = unat (un_offset u) + length (un_entries u) - 1"
proof (cases "un_entries u")
  case (Cons e es)
  have "unat (un_offset u + of_nat (length es)) = unat (un_offset u) + length es"
    using assms Cons by (intro unat_plus_of_nat) (simp add: un_wf_def)
  then show ?thesis using Cons by (simp add: un_maybeLastIndex_def)
qed (use assms in \<open>simp add: un_wf_def un_maybeLastIndex_def\<close>)

lemma un_maybeTerm_spec:
  assumes "un_wf u"
  defines "off \<equiv> unat (un_offset u)"
  shows "un_maybeTerm i u =
    (if off \<le> unat i \<and> unat i < off + length (un_entries u)
     then Some (Some (ent_Term (un_entries u ! (unat i - off)))) else Some None)"
proof (cases "off \<le> unat i \<and> un_entries u \<noteq> []")
  case True
  then obtain l where l: "un_maybeLastIndex u = Some l" "unat l = off + length (un_entries u) - 1"
    using un_maybeLastIndex_spec [OF assms(1)] by (auto simp: off_def)
  have "unat (i - un_offset u) = unat i - off" using True by (simp add: off_def u64_simps word_le_nat_alt)
  moreover have "unat l < unat i \<longleftrightarrow> \<not> unat i < off + length (un_entries u)"
    using l True by (cases "un_entries u") auto
  ultimately show ?thesis
    using True l(1) by (auto simp: un_maybeTerm_def word_less_nat_alt off_def go_index_def)
next
  case False
  then show ?thesis
    using assms un_maybeLastIndex_spec [OF assms(1)]
    by (auto simp: un_maybeTerm_def word_less_nat_alt off_def un_wf_def split: if_splits)
qed

lemma un_stableTo_spec:
  assumes "un_wf u"
  defines "off \<equiv> unat (un_offset u)"
  shows "un_stableTo cap i t u =
    (if off \<le> unat i \<and> unat i < off + length (un_entries u) \<and> ent_Term (un_entries u ! (unat i - off)) = t
     then Some (u\<lparr>un_entries := drop (unat i + 1 - off) (un_entries u), un_offset := i + 1\<rparr>) else Some u)"
proof (cases "off \<le> unat i \<and> unat i < off + length (un_entries u)")
  case True
  then have "unat i + 1 < 2 ^ 64" using assms by (simp add: un_wf_def)
  then have "unat (i + 1 - un_offset u) = unat i + 1 - off"
    using True by (simp add: off_def u64_simps word_le_nat_alt)
  with True show ?thesis
    by (auto simp: un_stableTo_def un_maybeTerm_spec [OF assms(1)] off_def word_le_nat_alt go_slice_def)
qed (auto simp: un_stableTo_def un_maybeTerm_spec [OF assms(1)] off_def)

lemma un_slice_spec:
  assumes "un_wf u"
  defines "off \<equiv> unat (un_offset u)"
  shows "un_slice lo hi u =
    (if off \<le> unat lo \<and> lo \<le> hi \<and> unat hi \<le> off + length (un_entries u)
     then Some (take (unat hi - unat lo) (drop (unat lo - off) (un_entries u))) else None)"
proof -
  have up: "unat (un_offset u + of_nat (length (un_entries u))) = off + length (un_entries u)"
    using assms by (simp add: un_wf_def u64_simps)
  show ?thesis
  proof (cases "off \<le> unat lo \<and> lo \<le> hi \<and> unat hi \<le> off + length (un_entries u)")
    case True
    then have "unat (lo - un_offset u) = unat lo - off" "unat (hi - un_offset u) = unat hi - off"
      by (simp_all add: off_def u64_simps word_le_nat_alt)
    with True up show ?thesis
      by (auto simp: un_slice_def un_mustCheckOutOfBounds_def Let_def word_less_nat_alt word_le_nat_alt
          off_def go_slice_def)
  qed (use up in \<open>auto simp: un_slice_def un_mustCheckOutOfBounds_def Let_def word_less_nat_alt
      word_le_nat_alt off_def\<close>)
qed

lemma un_truncateAndAppend_spec:
  assumes "un_wf u" and ents: "numbered s ents" "ents \<noteq> []"
  defines "off \<equiv> unat (un_offset u)"
  shows "un_truncateAndAppend ents u =
    (if off + length (un_entries u) < s then None
     else Some (u\<lparr>un_offset := (if s < off then of_nat s else un_offset u),
                 un_entries := take (s - off) (un_entries u) @ ents\<rparr>))"
proof -
  have s: "unat (ent_Index (hd ents)) = s" using ents by (rule numbered_hd)
  then have s': "ent_Index (hd ents) = of_nat s" by auto
  have up: "unat (un_offset u + of_nat (length (un_entries u))) = off + length (un_entries u)"
    using assms by (simp add: un_wf_def u64_simps)
  have eq: "ent_Index (hd ents) = un_offset u + of_nat (length (un_entries u)) \<longleftrightarrow> s = off + length (un_entries u)"
    by (simp only: word_unat_eq_iff up s)
  have le: "ent_Index (hd ents) \<le> un_offset u \<longleftrightarrow> s \<le> off" by (simp add: word_le_nat_alt s off_def)
  have sl: "off < s \<Longrightarrow> un_slice (un_offset u) (ent_Index (hd ents)) u
      = (if s \<le> off + length (un_entries u) then Some (take (s - off) (un_entries u)) else None)"
    by (simp add: un_slice_spec [OF assms(1)] off_def s word_le_nat_alt)
  have "s = off \<Longrightarrow> ent_Index (hd ents) = un_offset u" using s by (simp add: off_def word_unat_eq_iff)
  then show ?thesis
    using sl unfolding un_truncateAndAppend_def go_index_hd [OF ents(2)] Option.bind_lunit Let_def eq le
    by (auto simp: s' not_le)
qed

end
