(* ===== verification/Raft_Log.thy ===== *)
theory Raft_Log
  imports Unstable
begin

text \<open>
  \<open>raft/log.go\<close>: the raft log, stable storage and unstable tail seen as one log. A storage is a
  method table and a receiver, as a Go interface value is; the lemmas are proved once from the
  laws of the locale \<open>storage\<close> and hold for \<open>MemoryStorage\<close> by its interpretation.

  \<open>rl_abs\<close> reads the two parts as one abstract log, and each operation is related to it.
\<close>

definition noLimit :: u64 where
  "noLimit = - 1"

record 's raftLog =
  rl_ops :: "'s Storage"
  rl_storage :: 's
  rl_unstable :: unstable
  rl_committed :: u64
  rl_applied :: u64
  rl_maxNextEntsSize :: u64

text \<open>\<open>if err != nil \<lbrace> panic(err) \<rbrace>\<close>\<close>

definition must :: "('e + 'a) option \<Rightarrow> 'a option" where
  "must r = do { x \<leftarrow> r; (case x of Inl e \<Rightarrow> None | Inr v \<Rightarrow> Some v) }"

definition newLogWithSize :: "'s Storage \<Rightarrow> 's \<Rightarrow> u64 \<Rightarrow> 's raftLog option" where
  "newLogWithSize ops st maxNextEntsSize =
     do { firstIndex \<leftarrow> must (st_FirstIndex ops st);
          lastIndex \<leftarrow> must (st_LastIndex ops st);
          Some \<lparr>rl_ops = ops, rl_storage = st,
            rl_unstable = \<lparr>un_snapshot = None, un_entries = [], un_offset = lastIndex + 1\<rparr>,
            rl_committed = firstIndex - 1, rl_applied = firstIndex - 1,
            rl_maxNextEntsSize = maxNextEntsSize\<rparr> }"

definition newLog :: "'s Storage \<Rightarrow> 's \<Rightarrow> 's raftLog option" where
  "newLog ops st = newLogWithSize ops st noLimit"

definition rl_firstIndex :: "'s raftLog \<Rightarrow> u64 option" where
  "rl_firstIndex l =
     (case un_maybeFirstIndex (rl_unstable l) of
        Some i \<Rightarrow> Some i
      | None \<Rightarrow> must (st_FirstIndex (rl_ops l) (rl_storage l)))"

definition rl_lastIndex :: "'s raftLog \<Rightarrow> u64 option" where
  "rl_lastIndex l =
     (case un_maybeLastIndex (rl_unstable l) of
        Some i \<Rightarrow> Some i
      | None \<Rightarrow> must (st_LastIndex (rl_ops l) (rl_storage l)))"

definition rl_append :: "Entry list \<Rightarrow> 's raftLog \<Rightarrow> (u64 \<times> 's raftLog) option" where
  "rl_append ents l =
     (if length ents = 0 then do { i \<leftarrow> rl_lastIndex l; Some (i, l) }
      else do { e0 \<leftarrow> go_index ents 0;
                if ent_Index e0 - 1 < rl_committed l then None
                else do { u \<leftarrow> un_truncateAndAppend ents (rl_unstable l);
                          let l' = l\<lparr>rl_unstable := u\<rparr>;
                          i \<leftarrow> rl_lastIndex l';
                          Some (i, l') } })"

definition rl_unstableEntries :: "'s raftLog \<Rightarrow> Entry list" where
  "rl_unstableEntries l =
     (if length (un_entries (rl_unstable l)) = 0 then [] else un_entries (rl_unstable l))"

definition rl_mustCheckOutOfBounds :: "u64 \<Rightarrow> u64 \<Rightarrow> 's raftLog \<Rightarrow> (storage_error + unit) option" where
  "rl_mustCheckOutOfBounds lo hi l =
     (if hi < lo then None
      else do { fi \<leftarrow> rl_firstIndex l;
                if lo < fi then Some (Inl ErrCompacted)
                else do { la \<leftarrow> rl_lastIndex l;
                          if lo < fi \<or> fi + (la + 1 - fi) < hi then None else Some (Inr ()) } })"

text \<open>The part of \<open>slice\<close> that reads the storage; \<open>Inl\<close> is an early return.\<close>

definition rl_stored :: "u64 \<Rightarrow> u64 \<Rightarrow> u64 \<Rightarrow> 's raftLog \<Rightarrow> ((storage_error + Entry list) + Entry list) option" where
  "rl_stored lo hi maxSize l =
     (if lo < un_offset (rl_unstable l) then
        do { r \<leftarrow> st_Entries (rl_ops l) (rl_storage l) lo (min hi (un_offset (rl_unstable l))) maxSize;
             (case r of
                Inl e \<Rightarrow> (if e = ErrCompacted then Some (Inl (Inl e)) else None)
              | Inr storedEnts \<Rightarrow>
                  (if of_nat (length storedEnts) < min hi (un_offset (rl_unstable l)) - lo
                   then Some (Inl (Inr storedEnts))
                   else Some (Inr storedEnts))) }
      else Some (Inr []))"

definition rl_slice :: "u64 \<Rightarrow> u64 \<Rightarrow> u64 \<Rightarrow> 's raftLog \<Rightarrow> (storage_error + Entry list) option" where
  "rl_slice lo hi maxSize l =
     go_bind (rl_mustCheckOutOfBounds lo hi l) (\<lambda>_.
     if lo = hi then Some (Inr [])
     else do { r \<leftarrow> rl_stored lo hi maxSize l;
               (case r of
                  Inl ret \<Rightarrow> Some ret
                | Inr ents \<Rightarrow>
                    do { ents' \<leftarrow> (if un_offset (rl_unstable l) < hi then
                            do { us \<leftarrow> un_slice (max lo (un_offset (rl_unstable l))) hi (rl_unstable l);
                                 Some (if 0 < length ents then ents @ us else us) }
                          else Some ents);
                         Some (Inr (limitSize ents' maxSize)) }) })"

definition rl_nextEnts :: "'s raftLog \<Rightarrow> Entry list option" where
  "rl_nextEnts l =
     do { fi \<leftarrow> rl_firstIndex l;
          let off = max (rl_applied l + 1) fi;
          if off < rl_committed l + 1 then
            must (rl_slice off (rl_committed l + 1) (rl_maxNextEntsSize l) l)
          else Some [] }"

definition rl_hasNextEnts :: "'s raftLog \<Rightarrow> bool option" where
  "rl_hasNextEnts l =
     do { fi \<leftarrow> rl_firstIndex l;
          let off = max (rl_applied l + 1) fi;
          Some (off < rl_committed l + 1) }"

definition rl_stableTo :: "nat \<Rightarrow> u64 \<Rightarrow> u64 \<Rightarrow> 's raftLog \<Rightarrow> 's raftLog option" where
  "rl_stableTo cap i t l = do { u \<leftarrow> un_stableTo cap i t (rl_unstable l); Some (l\<lparr>rl_unstable := u\<rparr>) }"

definition rl_term :: "u64 \<Rightarrow> 's raftLog \<Rightarrow> (storage_error + u64) option" where
  "rl_term i l =
     do { fi \<leftarrow> rl_firstIndex l;
          la \<leftarrow> rl_lastIndex l;
          let dummyIndex = fi - 1;
          if i < dummyIndex \<or> la < i then Some (Inr 0)
          else do { t \<leftarrow> un_maybeTerm i (rl_unstable l);
                    (case t of
                       Some t \<Rightarrow> Some (Inr t)
                     | None \<Rightarrow>
                         do { r \<leftarrow> st_Term (rl_ops l) (rl_storage l) i;
                              (case r of
                                 Inr t \<Rightarrow> Some (Inr t)
                               | Inl e \<Rightarrow> (if e = ErrCompacted \<or> e = ErrUnavailable then Some (Inl e) else None)) }) } }"

definition rl_lastTerm :: "'s raftLog \<Rightarrow> u64 option" where
  "rl_lastTerm l = do { la \<leftarrow> rl_lastIndex l; must (rl_term la l) }"

section \<open>limitSize on a concatenation\<close>

lemma limit_loop_append:
  "limit_loop (xs @ ys) sz m k =
     (if limit_loop xs sz m k < k + length xs then limit_loop xs sz m k
      else limit_loop ys (sz + total_size xs) m (k + length xs))"
proof -
  have le: "limit_loop xs sz m k \<le> k + length xs" for xs sz k
    by (induction xs arbitrary: sz k) (auto simp: Let_def, metis add_Suc le_SucI)
  show ?thesis
    by (induction xs arbitrary: sz k) (auto simp: Let_def add.assoc)
qed

lemma limitSize_append:
  assumes "length (limitSize xs m) < length xs"
  shows "limitSize (xs @ ys) m = limitSize xs m"
proof (cases xs)
  case (Cons x xs')
  have "1 \<le> limit_loop xs' (Entry_Size x) m 1"
    using limitSize_take [of xs m] Cons by simp
  then have "limit_loop xs' (Entry_Size x) m 1 < 1 + length xs'"
    using assms Cons by (simp add: limitSize_def)
  then show ?thesis
    using limit_loop_append [of xs' ys "Entry_Size x" m 1] by (simp add: Cons limitSize_def take_Cons')
qed (use assms in simp)

lemma limitSize_full: "\<not> length (limitSize xs m) < length xs \<Longrightarrow> limitSize xs m = xs"
  using limitSize_prefix [of xs m] by (auto simp: not_less)

section \<open>The log as a whole\<close>

definition rl_view :: "alog \<Rightarrow> unstable \<Rightarrow> alog" where
  "rl_view a u = a\<lparr>al_ents := take (unat (un_offset u) - al_index a - 1) (al_ents a) @ un_entries u\<rparr>"

lemma al_view_simps [simp]:
  "al_index (rl_view a u) = al_index a" "al_term (rl_view a u) = al_term a"
  by (simp_all add: rl_view_def)

text \<open>The unstable part starts inside the stable one or right after it; when it is empty it
  starts right after it.\<close>

definition view_wf :: "alog \<Rightarrow> unstable \<Rightarrow> bool" where
  "view_wf a u \<longleftrightarrow> al_wf a \<and> un_wf u \<and> al_index a < unat (un_offset u) \<and> unat (un_offset u) \<le> al_last a + 1 \<and>
     (un_entries u = [] \<longrightarrow> unat (un_offset u) = al_last a + 1) \<and>
     length (al_ents a) + length (un_entries u) < 2 ^ 62"

lemma view_last: "view_wf a u \<Longrightarrow> al_last (rl_view a u) = unat (un_offset u) + length (un_entries u) - 1"
  by (auto simp: view_wf_def rl_view_def al_last_def)

lemma view_al_wf: "view_wf a u \<Longrightarrow> al_wf (rl_view a u)"
proof -
  assume wf: "view_wf a u"
  let ?k = "unat (un_offset u) - al_index a - 1"
  have k: "length (take ?k (al_ents a)) = ?k" using wf by (auto simp: view_wf_def al_last_def)
  have "numbered (al_index a + 1) (take ?k (al_ents a) @ un_entries u)"
    using wf k by (simp only: numbered_append) (auto simp: view_wf_def al_wf_def un_wf_def numbered_take)
  with wf k view_last [OF wf] show ?thesis
    by (auto simp: al_wf_def view_wf_def un_wf_def) (auto simp: rl_view_def)
qed

lemma view_get_stable:
  "view_wf a u \<Longrightarrow> i < unat (un_offset u) \<Longrightarrow> al_term_at (rl_view a u) i = al_term_at a i"
  by (auto simp: al_term_at_def al_get_def rl_view_def view_wf_def al_last_def nth_append)

lemma view_get_unstable:
  "view_wf a u \<Longrightarrow> unat (un_offset u) \<le> i \<Longrightarrow> i < unat (un_offset u) + length (un_entries u) \<Longrightarrow>
     al_term_at (rl_view a u) i = Some (ent_Term (un_entries u ! (i - unat (un_offset u))))"
  by (auto simp: al_term_at_def al_get_def rl_view_def view_wf_def al_last_def nth_append)

lemma view_range:
  assumes "view_wf a u" and "al_index a < lo" and "lo \<le> hi" and "hi \<le> al_last (rl_view a u) + 1"
  defines "off \<equiv> unat (un_offset u)"
  shows "al_range (rl_view a u) lo hi =
    al_range a lo (min hi off) @ take (hi - max lo off) (drop (max lo off - off) (un_entries u))"
proof -
  let ?s = "take (off - al_index a - 1) (al_ents a)"
  have l: "length ?s = off - al_index a - 1" using assms(1) by (auto simp: view_wf_def al_last_def off_def)
  have b: "al_index a < off" using assms(1) by (simp add: view_wf_def off_def)
  have "al_range (rl_view a u) lo hi
    = take (hi - lo) (drop (lo - al_index a - 1) ?s @ drop (lo - al_index a - 1 - length ?s) (un_entries u))"
    by (simp add: al_range_def rl_view_def off_def)
  also have "\<dots> = take (hi - lo) (drop (lo - al_index a - 1) ?s) @
      take (hi - lo - (length ?s - (lo - al_index a - 1))) (drop (lo - al_index a - 1 - length ?s) (un_entries u))"
    by simp
  also have "take (hi - lo) (drop (lo - al_index a - 1) ?s) = al_range a lo (min hi off)"
  proof -
    have "drop (lo - al_index a - 1) ?s = take (off - lo) (drop (lo - al_index a - 1) (al_ents a))"
      using assms(2) b by (cases "lo \<le> off") (simp_all add: drop_take)
    then show ?thesis by (simp add: al_range_def min_diff)
  qed
  also have "lo - al_index a - 1 - length ?s = max lo off - off"
    unfolding l using assms(2) b by (auto simp: max_def)
  also have "hi - lo - (length ?s - (lo - al_index a - 1)) = hi - max lo off"
    unfolding l using assms(2,3) b by (auto simp: max_def)
  finally show ?thesis .
qed

definition rl_abs :: "('s \<Rightarrow> alog) \<Rightarrow> 's raftLog \<Rightarrow> alog" where
  "rl_abs A l = rl_view (A (rl_storage l)) (rl_unstable l)"

definition rl_wf :: "'s Storage \<Rightarrow> ('s \<Rightarrow> bool) \<Rightarrow> ('s \<Rightarrow> alog) \<Rightarrow> 's raftLog \<Rightarrow> bool" where
  "rl_wf S I A l \<longleftrightarrow> rl_ops l = S \<and> I (rl_storage l) \<and>
     view_wf (A (rl_storage l)) (rl_unstable l) \<and>
     al_index (rl_abs A l) \<le> unat (rl_applied l) \<and> rl_applied l \<le> rl_committed l \<and>
     unat (rl_committed l) \<le> al_last (rl_abs A l)"

lemma must_simps [simp]: "must None = None" "must (Some (Inl e)) = None" "must (Some (Inr v)) = Some v"
  by (simp_all add: must_def)

lemma must_Some: "must r = Some v \<longleftrightarrow> r = Some (Inr v)"
  by (cases r) (auto simp: must_def split: sum.splits)

lemma al_append_tail:
  assumes "al_wf a" and "numbered s es" and "es \<noteq> []" and "al_index a < s"
  shows "al_append es a = a\<lparr>al_ents := take (s - al_index a - 1) (al_ents a) @ es\<rparr>"
  using assms numbered_hd [OF assms(2,3)] by (auto simp: al_append_def Let_def)

lemma view_append:
  assumes "view_wf a u" and "numbered s es" and "es \<noteq> []" and "al_index a < s"
    and "s \<le> unat (un_offset u) + length (un_entries u)" and "s + length es < 2 ^ 64"
    and "length (al_ents a) + length (un_entries u) + length es < 2 ^ 62"
  defines "u' \<equiv> u\<lparr>un_offset := (if s < unat (un_offset u) then of_nat s else un_offset u),
                   un_entries := take (s - unat (un_offset u)) (un_entries u) @ es\<rparr>"
  shows "view_wf a u' \<and> rl_view a u' = al_append es (rl_view a u)"
proof -
  let ?off = "unat (un_offset u)"
  have o': "unat (un_offset u') = min s ?off"
    using assms(6) by (auto simp: u'_def u64_simps)
  have n: "numbered (min s ?off) (un_entries u')"
  proof -
    have "min s ?off + length (take (s - ?off) (un_entries u)) = s"
      using assms(5) by (auto simp: min_def)
    moreover have "numbered (min s ?off) (take (s - ?off) (un_entries u))"
      using assms(1) by (cases "s \<le> ?off") (auto simp: view_wf_def un_wf_def numbered_take)
    moreover have "un_entries u' = take (s - ?off) (un_entries u) @ es" by (simp add: u'_def)
    ultimately show ?thesis using assms(2) by (simp only: numbered_append)
  qed
  have wf: "view_wf a u'"
    using assms(1-7) n o' by (auto simp: view_wf_def un_wf_def u'_def min_def)
  have "rl_view a u' = a\<lparr>al_ents := take (min s ?off - al_index a - 1) (al_ents a)
      @ take (s - ?off) (un_entries u) @ es\<rparr>"
    unfolding rl_view_def o' by (simp add: u'_def)
  moreover have "take (s - al_index a - 1) (take (?off - al_index a - 1) (al_ents a) @ un_entries u)
      = take (min s ?off - al_index a - 1) (al_ents a) @ take (s - ?off) (un_entries u)"
  proof -
    have "length (take (?off - al_index a - 1) (al_ents a)) = ?off - al_index a - 1"
      using assms(1) by (auto simp: view_wf_def al_last_def)
    moreover have "s - al_index a - 1 - (?off - al_index a - 1) = s - ?off"
      using assms(1,4) by (auto simp: view_wf_def)
    moreover have "min (s - al_index a - 1) (?off - al_index a - 1) = min s ?off - al_index a - 1"
      by (simp add: min_def)
    ultimately show ?thesis by (simp only: take_append take_take)
  qed
  ultimately have "rl_view a u' = al_append es (rl_view a u)"
    using al_append_tail [OF view_al_wf [OF assms(1)] assms(2,3)] assms(4)
    by (simp add: rl_view_def)
  with wf show ?thesis ..
qed

context storage
begin

lemma rl_indices:
  assumes "rl_wf S inv abs l"
  shows "\<exists>f. rl_firstIndex l = Some f \<and> unat f = al_index (rl_abs abs l) + 1"
    and "\<exists>la. rl_lastIndex l = Some la \<and> unat la = al_last (rl_abs abs l)"
proof -
  let ?u = "rl_unstable l" and ?st = "rl_storage l"
  from assms have ops: "rl_ops l = S" and i: "inv ?st" and v: "view_wf (abs ?st) ?u"
    by (simp_all add: rl_wf_def)
  then have u: "un_wf ?u" by (simp add: view_wf_def)
  show "\<exists>f. rl_firstIndex l = Some f \<and> unat f = al_index (rl_abs abs l) + 1"
    using FirstIndex_unat [OF i] u by (auto simp: rl_firstIndex_def ops rl_abs_def)
  show "\<exists>la. rl_lastIndex l = Some la \<and> unat la = al_last (rl_abs abs l)"
  proof (cases "un_entries ?u = []")
    case True
    from view_last [OF v] True v have "al_last (abs ?st) = al_last (rl_abs abs l)"
      by (auto simp: rl_abs_def view_wf_def)
    with True u LastIndex_unat [OF i] view_last [OF v] un_maybeLastIndex_spec [OF u] show ?thesis
      by (auto simp: rl_lastIndex_def ops rl_abs_def)
  next
    case False
    with un_maybeLastIndex_spec [OF u] view_last [OF v] show ?thesis
      by (auto simp: rl_lastIndex_def rl_abs_def)
  qed
qed

lemma rl_term_abs:
  assumes "rl_wf S inv abs l"
  shows "rl_term i l = Some (Inr (case al_term_at (rl_abs abs l) (unat i) of Some t \<Rightarrow> t | None \<Rightarrow> 0))"
proof -
  let ?u = "rl_unstable l" and ?st = "rl_storage l" and ?a = "rl_abs abs l" and ?off = "unat (un_offset (rl_unstable l))"
  from assms have ops: "rl_ops l = S" and iv: "inv ?st" and v: "view_wf (abs ?st) ?u"
    by (simp_all add: rl_wf_def)
  then have u: "un_wf ?u" by (simp add: view_wf_def)
  obtain f la where f: "rl_firstIndex l = Some f" "unat f = al_index ?a + 1"
    and la: "rl_lastIndex l = Some la" "unat la = al_last ?a"
    using rl_indices [OF assms] by blast
  have f1: "unat (f - 1) = al_index ?a" using f(2) by (subst unat_minus_1) simp_all
  show ?thesis
  proof (cases "unat i < al_index ?a \<or> al_last ?a < unat i")
    case True
    then have "al_term_at ?a (unat i) = None" by (auto simp: al_term_at_def al_get_def al_last_def)
    with True f la f1 show ?thesis by (auto simp: rl_term_def word_less_nat_alt Let_def)
  next
    case False
    have lst: "al_last ?a = ?off + length (un_entries ?u) - 1"
      using view_last [OF v] by (simp add: rl_abs_def)
    have nb: "\<not> (i < f - 1 \<or> la < i)" using False f1 la by (simp add: word_less_nat_alt)
    show ?thesis
    proof (cases "?off \<le> unat i")
      case True
      with False lst v have lt: "unat i < ?off + length (un_entries ?u)" by (auto simp: view_wf_def)
      then have "un_maybeTerm i ?u = Some (Some (ent_Term (un_entries ?u ! (unat i - ?off))))"
        using True by (simp add: un_maybeTerm_spec [OF u])
      moreover have "al_term_at ?a (unat i) = Some (ent_Term (un_entries ?u ! (unat i - ?off)))"
        unfolding rl_abs_def by (rule view_get_unstable [OF v True lt])
      ultimately show ?thesis using f la nb by (simp add: rl_term_def Let_def)
    next
      case lt: False
      then have "un_maybeTerm i ?u = Some None" by (simp add: un_maybeTerm_spec [OF u])
      moreover have at: "al_term_at ?a (unat i) = al_term_at (abs ?st) (unat i)"
        unfolding rl_abs_def using lt by (intro view_get_stable [OF v]) simp
      have b: "al_index (abs ?st) \<le> unat i" "unat i \<le> al_last (abs ?st)"
        using False lt v by (auto simp: rl_abs_def view_wf_def)
      then obtain t where t: "al_term_at (abs ?st) (unat i) = Some t"
        by (cases "unat i = al_index (abs ?st)") (auto simp: al_term_at_def al_get_def)
      have "st_Term S ?st i = Some (Inr t)" using Term [OF iv b] t by simp
      ultimately show ?thesis using f la nb at t by (simp add: rl_term_def Let_def ops)
    qed
  qed
qed

lemma rl_slice_abs:
  assumes "rl_wf S inv abs l"
  shows "rl_slice lo hi maxSize l =
    (if hi < lo then None
     else if unat lo \<le> al_index (rl_abs abs l) then Some (Inl ErrCompacted)
     else if al_last (rl_abs abs l) + 1 < unat hi then None
     else Some (Inr (limitSize (al_range (rl_abs abs l) (unat lo) (unat hi)) maxSize)))"
proof -
  let ?u = "rl_unstable l" and ?st = "rl_storage l" and ?a = "rl_abs abs l"
  let ?o = "un_offset ?u" let ?off = "unat ?o"
  from assms have ops: "rl_ops l = S" and iv: "inv ?st" and v: "view_wf (abs ?st) ?u"
    by (simp_all add: rl_wf_def)
  then have u: "un_wf ?u" by (simp add: view_wf_def)
  have wf: "al_wf ?a" unfolding rl_abs_def using v by (rule view_al_wf)
  obtain f la where f: "rl_firstIndex l = Some f" "unat f = al_index ?a + 1"
    and la: "rl_lastIndex l = Some la" "unat la = al_last ?a"
    using rl_indices [OF assms] by blast
  have la1: "unat (la + 1) = al_last ?a + 1" using la wf by (simp add: u64_simps al_wf_def)
  have chk: "rl_mustCheckOutOfBounds lo hi l =
    (if hi < lo then None else if unat lo \<le> al_index ?a then Some (Inl ErrCompacted)
     else if al_last ?a + 1 < unat hi then None else Some (Inr ()))"
    using f la la1 by (auto simp: rl_mustCheckOutOfBounds_def word_less_nat_alt)
  show ?thesis
  proof (cases "hi < lo \<or> unat lo \<le> al_index ?a \<or> al_last ?a + 1 < unat hi \<or> lo = hi")
    case True
    then show ?thesis by (auto simp: rl_slice_def chk al_range_def)
  next
    case False
    then have lt: "lo < hi" "al_index ?a < unat lo" "unat hi \<le> al_last ?a + 1" by auto
    let ?m = "min hi ?o"
    have mn: "unat ?m = min (unat hi) ?off" "unat (max lo ?o) = max (unat lo) ?off"
      by (auto simp: min_def max_def word_le_nat_alt)
    let ?st_part = "al_range (abs ?st) (unat lo) (min (unat hi) ?off)"
    let ?un_part = "take (unat hi - max (unat lo) ?off) (drop (max (unat lo) ?off - ?off) (un_entries ?u))"
    have rng: "al_range ?a (unat lo) (unat hi) = ?st_part @ ?un_part"
      unfolding rl_abs_def using lt v
      by (intro view_range) (auto simp: rl_abs_def word_less_nat_alt)
    have us: "un_slice (max lo ?o) hi ?u = Some ?un_part" if "?o < hi"
      using that lt view_last [OF v]
      by (simp add: un_slice_spec [OF u] mn rl_abs_def word_less_nat_alt word_le_nat_alt)
    have un_nil: "?un_part = []" if "\<not> ?o < hi" using that by (simp add: word_less_nat_alt)
    show ?thesis
    proof (cases "lo < ?o")
      case True
      then have lom: "lo < ?m" using lt by simp
      have e: "st_Entries S ?st lo ?m maxSize = Some (Inr (limitSize ?st_part maxSize))"
      proof -
        have "unat ?m \<le> al_last (abs ?st) + 1" unfolding mn using v by (simp add: view_wf_def min.coboundedI2)
        with Entries [OF iv _ lom, of maxSize] lt(2) show ?thesis by (simp add: rl_abs_def mn)
      qed
      have d: "unat (?m - lo) = length ?st_part"
      proof -
        have "unat (?m - lo) = min (unat hi) ?off - unat lo"
          using unat_minus_le [OF less_imp_le [OF lom]] by (simp add: mn)
        moreover have "length ?st_part = min (unat hi) ?off - unat lo"
          using lt v by (auto simp: al_range_def al_last_def view_wf_def rl_abs_def word_less_nat_alt)
        ultimately show ?thesis by simp
      qed
      have small: "length (limitSize ?st_part maxSize) < 2 ^ 64"
        using limitSize_prefix [of ?st_part maxSize] d unat_less_64 [of "?m - lo"] by auto
      then have c: "(of_nat (length (limitSize ?st_part maxSize)) < ?m - lo)
          = (length (limitSize ?st_part maxSize) < length ?st_part)"
        by (simp add: word_less_nat_alt d unat_of_nat_64)
      show ?thesis
      proof (cases "length (limitSize ?st_part maxSize) < length ?st_part")
        case short: True
        then show ?thesis
          using False True e c ops
          by (simp add: rl_slice_def chk rl_stored_def rng limitSize_append)
      next
        case long: False
        then have "limitSize ?st_part maxSize = ?st_part" by (rule limitSize_full)
        moreover have "0 < length ?st_part" using d lom by (metis gr0I order_less_irrefl right_minus_eq unsigned_eq_0_iff)
        ultimately have st: "rl_stored lo hi maxSize l = Some (Inr ?st_part)" "?st_part \<noteq> []"
          using True e c ops long by (simp_all add: rl_stored_def)
        show ?thesis
        proof (cases "?o < hi")
          case un: True
          with us False st show ?thesis by (simp add: rl_slice_def chk rng)
        next
          case un: False
          have "al_range ?a (unat lo) (unat hi) = ?st_part"
            unfolding rng un_nil [OF un] by (rule append_Nil2)
          with un False st show ?thesis by (simp add: rl_slice_def chk)
        qed
      qed
    next
      case ge: False
      then have "?st_part = []" and "?o < hi" using lt by (auto simp: al_range_def word_less_nat_alt)
      with us ge False show ?thesis
        by (simp add: rl_slice_def chk rl_stored_def rng)
    qed
  qed
qed

lemma rl_nextEnts_abs:
  assumes "rl_wf S inv abs l"
  shows "rl_nextEnts l = Some (limitSize
      (al_range (rl_abs abs l) (unat (rl_applied l) + 1) (unat (rl_committed l) + 1)) (rl_maxNextEntsSize l))"
    and "rl_hasNextEnts l = Some (rl_applied l < rl_committed l)"
proof -
  let ?a = "rl_abs abs l"
  have ap: "al_index ?a \<le> unat (rl_applied l)" "rl_applied l \<le> rl_committed l"
    and co: "unat (rl_committed l) \<le> al_last ?a" and wf: "al_wf ?a"
    using assms view_al_wf by (auto simp: rl_wf_def rl_abs_def)
  obtain f where f: "rl_firstIndex l = Some f" "unat f = al_index ?a + 1"
    using rl_indices [OF assms] by blast
  have c1: "unat (rl_committed l + 1) = unat (rl_committed l) + 1"
    using co wf by (intro unat_plus_1) (simp add: al_wf_def)
  have a1: "unat (rl_applied l + 1) = unat (rl_applied l) + 1"
    using ap co wf by (intro unat_plus_1) (simp add: al_wf_def word_le_nat_alt)
  have off: "max (rl_applied l + 1) f = rl_applied l + 1"
    using ap(1) a1 f(2) by (intro max_absorb1) (simp add: word_le_nat_alt)
  have lt: "(rl_applied l + 1 < rl_committed l + 1) = (rl_applied l < rl_committed l)"
    by (simp add: word_less_nat_alt a1 c1)
  show "rl_hasNextEnts l = Some (rl_applied l < rl_committed l)"
    unfolding rl_hasNextEnts_def f(1) Option.bind_lunit Let_def off lt ..
  have N: "rl_nextEnts l = (if rl_applied l < rl_committed l
      then must (rl_slice (rl_applied l + 1) (rl_committed l + 1) (rl_maxNextEntsSize l) l) else Some [])"
    unfolding rl_nextEnts_def f(1) Option.bind_lunit Let_def off lt ..
  show "rl_nextEnts l = Some (limitSize
      (al_range ?a (unat (rl_applied l) + 1) (unat (rl_committed l) + 1)) (rl_maxNextEntsSize l))"
  proof (cases "rl_applied l < rl_committed l")
    case True
    with ap co show ?thesis
      by (simp add: N rl_slice_abs [OF assms] a1 c1 word_less_nat_alt)
  next
    case False
    then have "rl_applied l = rl_committed l" using ap(2) by simp
    then show ?thesis by (simp add: N al_range_def)
  qed
qed

lemma rl_append_abs:
  assumes wf: "rl_wf S inv abs l" and es: "numbered s es" "es \<noteq> []" "s + length es < 2 ^ 64" "0 < s"
    and sz: "length (al_ents (abs (rl_storage l))) + length (un_entries (rl_unstable l)) + length es < 2 ^ 62"
  shows "if s \<le> unat (rl_committed l) \<or> al_last (rl_abs abs l) + 1 < s then rl_append es l = None
    else \<exists>l'. rl_append es l = Some (of_nat (s + length es - 1), l') \<and> rl_wf S inv abs l' \<and>
           rl_abs abs l' = al_append es (rl_abs abs l) \<and> rl_storage l' = rl_storage l \<and>
           rl_committed l' = rl_committed l \<and> rl_applied l' = rl_applied l"
proof -
  let ?a = "rl_abs abs l" and ?u = "rl_unstable l" and ?st = "rl_storage l"
  from wf have ops: "rl_ops l = S" and iv: "inv ?st" and v: "view_wf (abs ?st) ?u"
    and ap: "al_index ?a \<le> unat (rl_applied l)" "rl_applied l \<le> rl_committed l"
    and co: "unat (rl_committed l) \<le> al_last ?a" by (simp_all add: rl_wf_def)
  then have u: "un_wf ?u" by (simp add: view_wf_def)
  have lst: "al_last ?a + 1 = unat (un_offset ?u) + length (un_entries ?u)"
    using view_last [OF v] v by (simp add: rl_abs_def view_wf_def)
  have "unat (ent_Index (hd es) - 1) = s - 1"
    using numbered_hd [OF es(1,2)] es(4) by (subst unat_minus_1) simp_all
  then have g: "(ent_Index (hd es) - 1 < rl_committed l) = (s \<le> unat (rl_committed l))"
    using es(4) by (auto simp: word_less_nat_alt)
  let ?u' = "?u\<lparr>un_offset := (if s < unat (un_offset ?u) then of_nat s else un_offset ?u),
                un_entries := take (s - unat (un_offset ?u)) (un_entries ?u) @ es\<rparr>"
  show ?thesis
  proof (cases "s \<le> unat (rl_committed l) \<or> al_last ?a + 1 < s")
    case True
    then show ?thesis
      using es(2) g lst un_truncateAndAppend_spec [OF u es(1,2)]
      by (auto simp: rl_append_def go_index_hd [OF es(2)])
  next
    case False
    let ?l' = "l\<lparr>rl_unstable := ?u'\<rparr>"
    have si: "al_index (abs ?st) < s" using False ap by (simp add: rl_abs_def word_le_nat_alt)
    have v': "view_wf (abs ?st) ?u'" "rl_view (abs ?st) ?u' = al_append es (rl_view (abs ?st) ?u)"
      using view_append [OF v es(1,2) si _ es(3) sz] False lst by simp_all
    then have a': "rl_abs abs ?l' = al_append es ?a" by (simp add: rl_abs_def)
    have la: "al_last (al_append es ?a) = s + length es - 1"
      using al_append_tail [OF view_al_wf [OF v] es(1,2)] si False es(4) v
      by (auto simp: rl_abs_def al_last_def)
    have wf': "rl_wf S inv abs ?l'"
      using wf v' a' la False es(2) by (simp add: rl_wf_def) linarith
    obtain i where i: "rl_lastIndex ?l' = Some i" "unat i = s + length es - 1"
      using rl_indices(2) [OF wf'] a' la by auto
    then have "i = of_nat (s + length es - 1)" by (metis of_nat_unat ucast_id)
    moreover have "un_truncateAndAppend es ?u = Some ?u'"
      using un_truncateAndAppend_spec [OF u es(1,2)] False lst by simp
    ultimately have "rl_append es l = Some (of_nat (s + length es - 1), ?l')"
      using False g es(2) i(1) by (simp add: rl_append_def go_index_hd [OF es(2)] Let_def)
    with wf' a' False show ?thesis by auto
  qed
qed

lemma newLog_abs:
  assumes "inv st"
  shows "\<exists>l. newLogWithSize S st maxSize = Some l \<and> rl_wf S inv abs l \<and> rl_abs abs l = abs st \<and>
    unat (rl_committed l) = al_index (abs st) \<and> rl_applied l = rl_committed l \<and> rl_storage l = st \<and>
    rl_maxNextEntsSize l = maxSize \<and> un_entries (rl_unstable l) = []"
proof -
  obtain f la where f: "st_FirstIndex S st = Some (Inr f)" "unat f = al_index (abs st) + 1"
    and la: "st_LastIndex S st = Some (Inr la)" "unat la = al_last (abs st)"
    using FirstIndex_unat [OF assms] LastIndex_unat [OF assms] by blast
  have wf: "al_wf (abs st)" using assms by (rule abs_wf)
  have f1: "unat (f - 1) = al_index (abs st)" using f(2) by (subst unat_minus_1) simp_all
  have la1: "unat (la + 1) = al_last (abs st) + 1" using la wf by (simp add: u64_simps al_wf_def)
  let ?u = "\<lparr>un_snapshot = None, un_entries = [], un_offset = la + 1\<rparr>"
  have "view_wf (abs st) ?u"
    using wf la1 by (simp add: view_wf_def un_wf_def al_wf_def al_last_def)
  moreover have "rl_view (abs st) ?u = abs st"
    using la1 by (intro alog.equality) (simp_all add: rl_view_def al_last_def)
  ultimately show ?thesis
    using assms f la f1 by (simp add: newLogWithSize_def rl_wf_def rl_abs_def al_last_def)
qed

end

abbreviation mem_log_wf :: "MemoryStorage raftLog \<Rightarrow> bool" where
  "mem_log_wf \<equiv> rl_wf memory_storage ms_wf ms_abs"

abbreviation mem_log :: "MemoryStorage raftLog \<Rightarrow> alog" where
  "mem_log \<equiv> rl_abs ms_abs"

lemma persist_log:
  assumes wf: "mem_log_wf l" and es: "rl_unstableEntries l = es" "es \<noteq> []"
  shows "\<exists>st l'. ms_Append es (rl_storage l) = Some st \<and>
    rl_stableTo cap (ent_Index (last es)) (ent_Term (last es)) (l\<lparr>rl_storage := st\<rparr>) = Some l' \<and>
    mem_log_wf l' \<and> mem_log l' = mem_log l \<and> rl_unstableEntries l' = [] \<and> ms_abs (rl_storage l') = mem_log l"
proof -
  let ?u = "rl_unstable l" and ?st = "rl_storage l" let ?a = "ms_abs ?st" and ?off = "unat (un_offset ?u)"
  from wf have v: "view_wf ?a ?u" and i: "ms_wf ?st" by (simp_all add: rl_wf_def)
  then have u: "un_wf ?u" by (simp add: view_wf_def)
  have e: "un_entries ?u = es" using es by (simp add: rl_unstableEntries_def split: if_splits)
  have num: "numbered ?off es" "?off + length es < 2 ^ 64" using u e by (simp_all add: un_wf_def)
  have sz: "length (al_ents ?a) + length es < 2 ^ 62" "?off \<le> al_last ?a + 1" "al_index ?a < ?off"
    using v e by (simp_all add: view_wf_def)
  obtain st where st: "ms_Append es ?st = Some st" "ms_wf st" "ms_abs st = al_append es ?a"
    using ms_Append_abs [OF i num(1) es(2) num(2) sz(1,2)] by blast
  have view: "ms_abs st = mem_log l"
    using al_append_tail [OF _ num(1) es(2) sz(3)] v e
    by (simp add: st(3) rl_abs_def rl_view_def view_wf_def)
  have la: "al_last (ms_abs st) = ?off + length es - 1"
    using view view_last [OF v] by (simp add: rl_abs_def e)
  let ?i = "ent_Index (last es)" let ?k = "length es - 1"
  have li: "unat ?i = ?off + ?k" using num(1) es(2) by (simp add: numbered_def last_conv_nth)
  have i1: "unat (?i + 1) = ?off + length es" using li num(2) es(2) by (subst unat_plus_1) (cases es; simp)+
  let ?u' = "?u\<lparr>un_entries := [], un_offset := ?i + 1\<rparr>"
  let ?l' = "l\<lparr>rl_storage := st, rl_unstable := ?u'\<rparr>"
  have "un_stableTo cap ?i (ent_Term (last es)) ?u = Some ?u'"
    using un_stableTo_spec [OF u, of cap ?i] li es(2) e by (cases es) (auto simp: last_conv_nth)
  then have s: "rl_stableTo cap ?i (ent_Term (last es)) (l\<lparr>rl_storage := st\<rparr>) = Some ?l'"
    by (simp add: rl_stableTo_def)
  have ne: "0 < length es" using es(2) by simp
  have v': "view_wf (ms_abs st) ?u'"
    using st(2) i1 la u num(2) sz(3) ne view
    by (simp add: view_wf_def un_wf_def ms_wf_def al_wf_def rl_abs_def)
  have "rl_view (ms_abs st) ?u' = ms_abs st"
    using i1 la ne by (intro alog.equality) (simp_all add: rl_view_def al_last_def)
  then have "mem_log ?l' = mem_log l" using view by (simp add: rl_abs_def)
  with wf v' st s view show ?thesis
    by (intro exI [of _ st] exI [of _ ?l']) (simp add: rl_wf_def rl_unstableEntries_def)
qed

section \<open>Properties\<close>

text \<open>C4: Appending to the raft log implements the abstract append: it replaces the suffix from
  the first new index on, never touches a committed entry, and panics exactly when it would
  overwrite one or leave a gap.\<close>

theorem raftLog_append_refines:
  assumes "mem_log_wf l" and "numbered s es" and "es \<noteq> []" and "s + length es < 2 ^ 64" and "0 < s"
    and "length (al_ents (ms_abs (rl_storage l))) + length (un_entries (rl_unstable l)) + length es < 2 ^ 62"
  shows "if s \<le> unat (rl_committed l) \<or> al_last (mem_log l) + 1 < s then rl_append es l = None
    else \<exists>l'. rl_append es l = Some (of_nat (s + length es - 1), l') \<and> mem_log_wf l' \<and>
           mem_log l' = al_append es (mem_log l) \<and> rl_storage l' = rl_storage l \<and>
           rl_committed l' = rl_committed l \<and> rl_applied l' = rl_applied l"
  using assms by (rule mem.rl_append_abs)

definition example_log :: "MemoryStorage raftLog" where
  "example_log = \<lparr>rl_ops = memory_storage, rl_storage = example_storage,
     rl_unstable = \<lparr>un_snapshot = None, un_entries = [example_entry 7 3, example_entry 8 3], un_offset = 7\<rparr>,
     rl_committed = 6, rl_applied = 4, rl_maxNextEntsSize = 100\<rparr>"

lemma example_log_wf: "mem_log_wf example_log"
  by (simp add: rl_wf_def example_log_def example_storage_wf view_wf_def un_wf_def rl_abs_def rl_view_def
      numbered_Cons al_last_def al_wf_def example_storage_abs) (simp add: example_entry_def numbered_Cons)

theorem raftLog_append_refines_witness:
  "let es = [example_entry 8 4, example_entry 9 4]; l = example_log in
   if 8 \<le> unat (rl_committed l) \<or> al_last (mem_log l) + 1 < 8 then rl_append es l = None
    else \<exists>l'. rl_append es l = Some (of_nat (8 + length es - 1), l') \<and> mem_log_wf l' \<and>
           mem_log l' = al_append es (mem_log l) \<and> rl_storage l' = rl_storage l \<and>
           rl_committed l' = rl_committed l \<and> rl_applied l' = rl_applied l"
  unfolding Let_def
  by (rule raftLog_append_refines [OF example_log_wf])
    (simp_all add: numbered_Cons example_entry_def example_log_def example_storage_abs)

text \<open>C15: Reading the raft log through storage and unstable tail is reading one log: \<open>term\<close>
  gives the term of an index of the log and 0 outside it, and \<open>slice\<close> gives the longest prefix
  of the requested range that fits the size limit.\<close>

theorem raftLog_reads_refine:
  assumes "mem_log_wf l"
  shows "rl_term i l = Some (Inr (case al_term_at (mem_log l) (unat i) of Some t \<Rightarrow> t | None \<Rightarrow> 0)) \<and>
    rl_slice lo hi maxSize l =
      (if hi < lo then None
       else if unat lo \<le> al_index (mem_log l) then Some (Inl ErrCompacted)
       else if al_last (mem_log l) + 1 < unat hi then None
       else Some (Inr (limitSize (al_range (mem_log l) (unat lo) (unat hi)) maxSize)))"
  by (rule conjI [OF mem.rl_term_abs [OF assms] mem.rl_slice_abs [OF assms]])

theorem raftLog_reads_refine_witness:
  "rl_term 5 example_log
      = Some (Inr (case al_term_at (mem_log example_log) (unat (5 :: u64)) of Some t \<Rightarrow> t | None \<Rightarrow> 0)) \<and>
    rl_slice 5 8 100 example_log =
      (if (8 :: u64) < 5 then None
       else if unat (5 :: u64) \<le> al_index (mem_log example_log) then Some (Inl ErrCompacted)
       else if al_last (mem_log example_log) + 1 < unat (8 :: u64) then None
       else Some (Inr (limitSize (al_range (mem_log example_log) (unat (5 :: u64)) (unat (8 :: u64))) 100)))"
  using example_log_wf by (rule raftLog_reads_refine)

text \<open>The entries handed out for application are exactly the committed ones not applied yet,
  cut to the size limit, and \<open>hasNextEnts\<close> says whether there are any.\<close>

lemma raftLog_nextEnts_refine:
  assumes "mem_log_wf l"
  shows "rl_nextEnts l = Some (limitSize
      (al_range (mem_log l) (unat (rl_applied l) + 1) (unat (rl_committed l) + 1)) (rl_maxNextEntsSize l)) \<and>
    rl_hasNextEnts l = Some (rl_applied l < rl_committed l)"
  by (rule conjI [OF mem.rl_nextEnts_abs [OF assms]])

text \<open>C16: Persisting loses nothing: appending the unstable entries to the storage and calling
  \<open>stableTo\<close> with the last of them leaves the log as a whole unchanged and nothing unstable.\<close>

theorem raftLog_persist:
  assumes "mem_log_wf l" and "rl_unstableEntries l = es" and "es \<noteq> []"
  shows "\<exists>st l'. ms_Append es (rl_storage l) = Some st \<and>
    rl_stableTo cap (ent_Index (last es)) (ent_Term (last es)) (l\<lparr>rl_storage := st\<rparr>) = Some l' \<and>
    mem_log_wf l' \<and> mem_log l' = mem_log l \<and> rl_unstableEntries l' = [] \<and> ms_abs (rl_storage l') = mem_log l"
  using assms by (rule persist_log)

theorem raftLog_persist_witness:
  "let es = [example_entry 7 3, example_entry 8 3]; l = example_log in
   \<exists>st l'. ms_Append es (rl_storage l) = Some st \<and>
    rl_stableTo 2 (ent_Index (last es)) (ent_Term (last es)) (l\<lparr>rl_storage := st\<rparr>) = Some l' \<and>
    mem_log_wf l' \<and> mem_log l' = mem_log l \<and> rl_unstableEntries l' = [] \<and> ms_abs (rl_storage l') = mem_log l"
  unfolding Let_def
  by (rule raftLog_persist [OF example_log_wf]) (simp_all add: rl_unstableEntries_def example_log_def)

end
