(* ===== verification/Tracker.thy ===== *)
theory Tracker
  imports Quorum Raftpb
begin

text \<open>
  \<open>raft/tracker\<close>: the configuration a node works with, the progress it tracks per peer and the
  votes it has collected. The progress map holds pointers in the code; the pointers are never
  shared outside the map here, so the model keeps the structs themselves. \<open>TallyVotes\<close> is
  related to the sets of granting and rejecting voters.
\<close>

section \<open>Inflights and Progress\<close>

record Inflights =
  inf_start :: nat
  inf_count :: nat
  inf_size :: int
  inf_buffer :: "u64 list"

definition NewInflights :: "int \<Rightarrow> Inflights" where
  "NewInflights sz = \<lparr>inf_start = 0, inf_count = 0, inf_size = sz, inf_buffer = []\<rparr>"

type_synonym StateType = u64

abbreviation (input) "StateProbe \<equiv> (0 :: StateType)"
abbreviation (input) "StateReplicate \<equiv> (1 :: StateType)"
abbreviation (input) "StateSnapshot \<equiv> (2 :: StateType)"

definition prstmap :: "string list" where
  "prstmap = [''StateProbe'', ''StateReplicate'', ''StateSnapshot'']"

definition StateType_String :: "StateType \<Rightarrow> string option" where
  "StateType_String st = go_index prstmap (unat st)"

record Progress =
  pr_Match :: u64
  pr_Next :: u64
  pr_State :: StateType
  pr_PendingSnapshot :: u64
  pr_RecentActive :: bool
  pr_ProbeSent :: bool
  pr_Inflights :: "Inflights option"
  pr_IsLearner :: bool

definition Progress_zero :: Progress where
  "Progress_zero = \<lparr>pr_Match = 0, pr_Next = 0, pr_State = StateProbe, pr_PendingSnapshot = 0,
     pr_RecentActive = False, pr_ProbeSent = False, pr_Inflights = None, pr_IsLearner = False\<rparr>"

type_synonym ProgressMap = "(u64, Progress) gomap"

section \<open>Config\<close>

record Config =
  cfg_Voters :: JointConfig
  cfg_AutoLeave :: bool
  cfg_Learners :: id_set
  cfg_LearnersNext :: id_set

definition Config_zero :: Config where
  "Config_zero = \<lparr>cfg_Voters = (None, None), cfg_AutoLeave = False, cfg_Learners = None,
     cfg_LearnersNext = None\<rparr>"

definition Config_String :: "Config \<Rightarrow> string" where
  "Config_String c =
     ''voters='' @ JointConfig_String (cfg_Voters c) @
     (if cfg_Learners c \<noteq> None then '' learners='' @ MajorityConfig_String (cfg_Learners c) else []) @
     (if cfg_LearnersNext c \<noteq> None
      then '' learners_next='' @ MajorityConfig_String (cfg_LearnersNext c) else []) @
     (if cfg_AutoLeave c then '' autoleave'' else [])"

text \<open>\<open>Clone\<close> copies the four maps; \<open>AutoLeave\<close> is left at its zero value.\<close>

definition clone_set :: "id_set \<Rightarrow> id_set" where
  "clone_set m =
     (case m of None \<Rightarrow> None | Some ks \<Rightarrow> Some (fold (\<lambda>k mm. mm @ [k]) ks []))"

definition Config_Clone :: "Config \<Rightarrow> Config" where
  "Config_Clone c =
     Config_zero\<lparr>cfg_Voters := (clone_set (fst (cfg_Voters c)), clone_set (snd (cfg_Voters c))),
       cfg_Learners := clone_set (cfg_Learners c),
       cfg_LearnersNext := clone_set (cfg_LearnersNext c)\<rparr>"

lemma fold_snoc [simp]: "fold (\<lambda>k mm. mm @ [k]) ks acc = acc @ ks"
  by (induction ks arbitrary: acc) auto

lemma clone_set_id [simp]: "clone_set m = m"
  by (simp add: clone_set_def split: option.split)

lemma Config_Clone_drops_AutoLeave: "Config_Clone c = c\<lparr>cfg_AutoLeave := False\<rparr>"
  by (cases c) (simp add: Config_Clone_def Config_zero_def)

section \<open>ProgressTracker\<close>

record ProgressTracker =
  pt_Config :: Config
  pt_Progress :: ProgressMap
  pt_Votes :: votes
  pt_MaxInflight :: int

definition MakeProgressTracker :: "int \<Rightarrow> ProgressTracker" where
  "MakeProgressTracker maxInflight =
     \<lparr>pt_Config = \<lparr>cfg_Voters = (Some [], None), cfg_AutoLeave = False, cfg_Learners = None,
                    cfg_LearnersNext = None\<rparr>,
      pt_Progress = [], pt_Votes = [], pt_MaxInflight = maxInflight\<rparr>"

definition ProgressTracker_ConfState :: "ProgressTracker \<Rightarrow> ConfState" where
  "ProgressTracker_ConfState p =
     (let c = pt_Config p in
      ConfState_zero\<lparr>cs_Voters := MajorityConfig_Slice (fst (cfg_Voters c)),
        cs_VotersOutgoing := MajorityConfig_Slice (snd (cfg_Voters c)),
        cs_Learners := MajorityConfig_Slice (cfg_Learners c),
        cs_LearnersNext := MajorityConfig_Slice (cfg_LearnersNext c),
        cs_AutoLeave := cfg_AutoLeave c\<rparr>)"

text \<open>
  \<open>Visit\<close> fills \<open>ids\<close> from the back while ranging over the map and then calls \<open>f\<close> on each id
  with the progress of that id, which \<open>f\<close> may change through the pointer. The sort of the ids
  is commented out in the code.
\<close>

fun fill_back :: "u64 list \<Rightarrow> nat \<Rightarrow> u64 list \<Rightarrow> u64 list option" where
  "fill_back [] n ids = Some ids"
| "fill_back (i # rest) n ids =
     (if n = 0 then None else do { ids' \<leftarrow> go_store ids (n - 1) i; fill_back rest (n - 1) ids' })"

definition visit_ids :: "ProgressMap \<Rightarrow> u64 list option" where
  "visit_ids prs = (let n = length prs in fill_back (map_keys prs) n (replicate n 0))"

definition ProgressTracker_Visit ::
  "(u64 \<Rightarrow> Progress \<Rightarrow> Progress) \<Rightarrow> ProgressTracker \<Rightarrow> ProgressTracker option" where
  "ProgressTracker_Visit f p =
     do { ids \<leftarrow> visit_ids (pt_Progress p);
          Some (fold (\<lambda>i p. case map_of (pt_Progress p) i of
                  None \<Rightarrow> p
                | Some pr \<Rightarrow> p\<lparr>pt_Progress := AList.update i (f i pr) (pt_Progress p)\<rparr>) ids p) }"

definition VoterNodes :: "ProgressTracker \<Rightarrow> u64 list" where
  "VoterNodes p = sort (JointConfig_IDs (cfg_Voters (pt_Config p)))"

definition LearnerNodes :: "ProgressTracker \<Rightarrow> u64 list" where
  "LearnerNodes p =
     (if length (keys_of (cfg_Learners (pt_Config p))) = 0 then []
      else sort (keys_of (cfg_Learners (pt_Config p))))"

definition ResetVotes :: "ProgressTracker \<Rightarrow> ProgressTracker" where
  "ResetVotes p = p\<lparr>pt_Votes := []\<rparr>"

definition RecordVote :: "u64 \<Rightarrow> bool \<Rightarrow> ProgressTracker \<Rightarrow> ProgressTracker" where
  "RecordVote i v p =
     (if map_of (pt_Votes p) i = None then p\<lparr>pt_Votes := AList.update i v (pt_Votes p)\<rparr> else p)"

definition tally_step :: "votes \<Rightarrow> u64 \<times> Progress \<Rightarrow> nat \<times> nat \<Rightarrow> nat \<times> nat" where
  "tally_step votes = (\<lambda>(i, pr) (granted, rejected).
     if pr_IsLearner pr then (granted, rejected)
     else case map_of votes i of
            None \<Rightarrow> (granted, rejected)
          | Some True \<Rightarrow> (granted + 1, rejected)
          | Some False \<Rightarrow> (granted, rejected + 1))"

definition TallyVotes :: "ProgressTracker \<Rightarrow> nat \<times> nat \<times> VoteResult" where
  "TallyVotes p =
     (let (granted, rejected) = fold (tally_step (pt_Votes p)) (pt_Progress p) (0, 0)
      in (granted, rejected, JointConfig_VoteResult (cfg_Voters (pt_Config p)) (pt_Votes p)))"

section \<open>Visiting every peer\<close>

lemma fill_back_rev:
  "length ids = length pre + length suf \<Longrightarrow> drop (length pre) ids = suf \<Longrightarrow>
     fill_back pre (length pre) ids = Some (rev pre @ suf)"
proof (induction pre arbitrary: ids suf)
  case (Cons i pre)
  let ?ids = "ids[length pre := i]"
  have n: "length pre < length ids" using Cons.prems by simp
  then have "drop (length pre) ?ids = i # suf"
    using Cons.prems by (simp add: drop_update_swap Cons_nth_drop_Suc [symmetric])
  then have "fill_back pre (length pre) ?ids = Some (rev pre @ i # suf)"
    using Cons.prems by (intro Cons.IH) simp_all
  with n show ?case by (simp add: go_simps)
qed simp

lemma visit_ids_rev: "visit_ids prs = Some (rev (map_keys prs))"
  using fill_back_rev [of "replicate (length prs) 0" "map_keys prs" "[]"]
  by (simp add: visit_ids_def Let_def)

lemma visit_fold:
  assumes "distinct ids" and "set ids \<subseteq> set (map_keys (pt_Progress p))"
    and "distinct (map_keys (pt_Progress p))"
  shows "fold (\<lambda>i p. case map_of (pt_Progress p) i of None \<Rightarrow> p
      | Some pr \<Rightarrow> p\<lparr>pt_Progress := AList.update i (f i pr) (pt_Progress p)\<rparr>) ids p
    = p\<lparr>pt_Progress := map (\<lambda>(i, pr). (i, if i \<in> set ids then f i pr else pr)) (pt_Progress p)\<rparr>"
  using assms
proof (induction ids arbitrary: p)
  case Nil
  then show ?case by (simp add: case_prod_unfold)
next
  case (Cons i ids)
  have upd: "distinct (map_keys prs) \<Longrightarrow> map_of prs i = Some pr \<Longrightarrow>
      AList.update i (f i pr) prs = map (\<lambda>(j, q). (j, if j = i then f j q else q)) prs" for prs pr
  proof (induction prs)
    case (Cons a prs)
    then show ?case
      by (cases a) (auto simp: case_prod_unfold intro!: map_idI [symmetric], force simp: image_iff)
  qed simp
  from Cons.prems obtain pr where pr: "map_of (pt_Progress p) i = Some pr"
    using keys_in_map_of [of i "pt_Progress p"] by auto
  let ?p = "p\<lparr>pt_Progress := AList.update i (f i pr) (pt_Progress p)\<rparr>"
  have u: "pt_Progress ?p = map (\<lambda>(j, q). (j, if j = i then f j q else q)) (pt_Progress p)"
    using upd [OF Cons.prems(3) pr] by simp
  then have k: "map_keys (pt_Progress ?p) = map_keys (pt_Progress p)"
    by (simp add: case_prod_unfold)
  then have "set ids \<subseteq> set (map_keys (pt_Progress ?p))" "distinct (map_keys (pt_Progress ?p))"
    using Cons.prems by (simp_all only:) auto
  with Cons.IH [of ?p] Cons.prems(1) show ?case
    by (simp add: pr) (use u Cons.prems(1) in \<open>auto simp: case_prod_unfold\<close>)
qed

section \<open>Counting the votes\<close>

lemma fold_tally:
  "fold (tally_step votes) prs (g, r) =
     (g + length (filter (\<lambda>(i, pr). \<not> pr_IsLearner pr \<and> map_of votes i = Some True) prs),
      r + length (filter (\<lambda>(i, pr). \<not> pr_IsLearner pr \<and> map_of votes i = Some False) prs))"
proof (induction prs arbitrary: g r)
  case (Cons a prs)
  then show ?case by (cases a; cases "map_of votes (fst a)") (auto simp: tally_step_def)
qed simp

text \<open>The invariant of a tracker: its maps have distinct keys.\<close>

definition tracker_wf :: "ProgressTracker \<Rightarrow> bool" where
  "tracker_wf p \<longleftrightarrow> distinct (map_keys (pt_Progress p)) \<and> distinct (map_keys (pt_Votes p)) \<and>
     joint_wf (cfg_Voters (pt_Config p)) \<and>
     distinct (keys_of (cfg_Learners (pt_Config p))) \<and> distinct (keys_of (cfg_LearnersNext (pt_Config p)))"

lemma tracker_wf_make [simp]: "tracker_wf (MakeProgressTracker n)"
  by (simp add: tracker_wf_def MakeProgressTracker_def joint_wf_def)

lemma tracker_wf_ops [simp]:
  "tracker_wf p \<Longrightarrow> tracker_wf (ResetVotes p)"
  "tracker_wf p \<Longrightarrow> tracker_wf (RecordVote i v p)"
  by (auto simp: tracker_wf_def ResetVotes_def RecordVote_def distinct_update)

lemma RecordVote_fields [simp]:
  "pt_Config (RecordVote i v p) = pt_Config p" "pt_Progress (RecordVote i v p) = pt_Progress p"
  "pt_MaxInflight (RecordVote i v p) = pt_MaxInflight p"
  by (simp_all add: RecordVote_def)

lemma ResetVotes_fields [simp]:
  "pt_Config (ResetVotes p) = pt_Config p" "pt_Progress (ResetVotes p) = pt_Progress p"
  "pt_Votes (ResetVotes p) = []" "pt_MaxInflight (ResetVotes p) = pt_MaxInflight p"
  by (simp_all add: ResetVotes_def)

lemma RecordVote_lookup:
  "map_of (pt_Votes (RecordVote i v p)) j =
     (if j = i \<and> map_of (pt_Votes p) i = None then Some v else map_of (pt_Votes p) j)"
  by (simp add: RecordVote_def update_conv)

lemma RecordVote_extends: "extends (pt_Votes p) (pt_Votes (RecordVote i v p))"
  by (auto simp: extends_def map_le_def RecordVote_lookup)

lemma Visit_eq:
  assumes "tracker_wf p"
  shows "ProgressTracker_Visit f p
    = Some (p\<lparr>pt_Progress := map (\<lambda>(i, pr). (i, f i pr)) (pt_Progress p)\<rparr>)"
proof -
  have "map (\<lambda>(i, pr). (i, if i \<in> set (rev (map_keys (pt_Progress p))) then f i pr else pr)) (pt_Progress p)
    = map (\<lambda>(i, pr). (i, f i pr)) (pt_Progress p)"
    by (rule map_cong) (auto, metis fst_conv imageI)
  then show ?thesis
    using assms visit_fold [of "rev (map_keys (pt_Progress p))" p f]
    by (simp add: ProgressTracker_Visit_def visit_ids_rev tracker_wf_def)
qed

section \<open>Properties\<close>

text \<open>The first vote of a peer counts: after any sequence of recorded votes the ballot
  holds, for each peer, the first vote recorded for it since the last reset.\<close>

lemma RecordVote_first_wins:
  "map_of (pt_Votes (fold (\<lambda>(i, v). RecordVote i v) bs (ResetVotes p))) j = map_of bs j"
proof -
  have "map_of (pt_Votes (fold (\<lambda>(i, v). RecordVote i v) bs q)) j
    = (case map_of (pt_Votes q) j of Some v \<Rightarrow> Some v | None \<Rightarrow> map_of bs j)" for q
    by (induction bs arbitrary: q) (auto simp: RecordVote_lookup split: option.split)
  then show ?thesis by simp
qed

text \<open>When the progress map tracks exactly the voters of a simple configuration and no
  learner, the numbers \<open>TallyVotes\<close> returns decide its result: won exactly when more than half
  granted, lost exactly when at least half rejected.\<close>

lemma TallyVotes_counts:
  assumes "tracker_wf p" and "cfg_Voters (pt_Config p) = (Some ks, None)" and "ks \<noteq> []"
    and "set (map_keys (pt_Progress p)) = set ks" and "\<forall>pr \<in> snd ` set (pt_Progress p). \<not> pr_IsLearner pr"
    and "TallyVotes p = (granted, rejected, res)"
  shows "granted + rejected \<le> length ks \<and> (res = VoteWon \<longleftrightarrow> length ks < 2 * granted) \<and>
    (res = VoteLost \<longleftrightarrow> length ks \<le> 2 * rejected)"
proof -
  have count: "length (filter (\<lambda>(i, pr). \<not> pr_IsLearner pr \<and> map_of (pt_Votes p) i = Some b) (pt_Progress p))
      = card {i \<in> set ks. map_of (pt_Votes p) i = Some b}" for b
  proof -
    have "filter (\<lambda>(i, pr). \<not> pr_IsLearner pr \<and> map_of (pt_Votes p) i = Some b) (pt_Progress p)
      = filter (\<lambda>x. map_of (pt_Votes p) (fst x) = Some b) (pt_Progress p)"
      using assms(5) by (intro filter_cong) auto
    also have "length \<dots> = length (filter (\<lambda>i. map_of (pt_Votes p) i = Some b) (map_keys (pt_Progress p)))"
      by (simp add: filter_map comp_def)
    also have "\<dots> = card {i \<in> set ks. map_of (pt_Votes p) i = Some b}"
      using assms(1,4) by (subst length_filter_card) (simp_all add: tracker_wf_def)
    finally show ?thesis .
  qed
  have ks: "distinct ks" using assms(1,2) by (simp add: tracker_wf_def joint_wf_def)
  have g: "granted = card (yes_votes (Some ks) (pt_Votes p))"
    "rejected = card (no_votes (Some ks) (pt_Votes p))"
    and res: "res = JointConfig_VoteResult (Some ks, None) (pt_Votes p)"
    using assms(6) count assms(2)
    by (simp_all add: TallyVotes_def fold_tally yes_votes_def no_votes_def)
  have "granted + rejected \<le> length ks"
    using yes_no_disjoint [of "Some ks" "pt_Votes p"] ks g by simp
  with g ks assms(3) show ?thesis
    by (auto simp: res joint_result_cases VoteResult_counts)
qed

text \<open>\<open>Visit\<close> calls its function exactly once on every tracked peer and touches nothing
  else of the tracker.\<close>

lemma Visit_updates_each:
  assumes "tracker_wf p"
  shows "ProgressTracker_Visit f p
    = Some (p\<lparr>pt_Progress := map (\<lambda>(i, pr). (i, f i pr)) (pt_Progress p)\<rparr>)"
  using assms by (rule Visit_eq)

end
