(* ===== verification/Confchange.thy ===== *)
theory Confchange
  imports Tracker
begin

text \<open>
  \<open>raft/confchange\<close>: applying configuration changes to a tracker. \<open>conf_inv\<close> is the
  declarative form of \<open>checkInvariants\<close>; \<open>Simple\<close> is shown to keep it, to change at most one
  voter, and to fail in exactly the ways the code means it to.
\<close>

datatype conf_error =
    ErrSimpleInJoint
  | ErrUnexpectedConfType ConfChangeType
  | ErrRemovedAllVoters
  | ErrMoreThanOneVoter
  | ErrNoProgress u64
  | ErrNextNotOutgoing u64
  | ErrNextIsLearner u64
  | ErrLearnerOutgoing u64
  | ErrLearnerIncoming u64
  | ErrLearnerNotMarked u64
  | ErrOutgoingNotNil
  | ErrLearnersNextNotNil
  | ErrAutoLeaveNotJoint

record Changer =
  chg_Tracker :: ProgressTracker
  chg_LastIndex :: u64

section \<open>Helpers\<close>

definition incoming :: "JointConfig \<Rightarrow> MajorityConfig" where
  "incoming voters = fst voters"

definition outgoing :: "JointConfig \<Rightarrow> MajorityConfig" where
  "outgoing voters = snd voters"

definition joint :: "Config \<Rightarrow> bool" where
  "joint cfg \<longleftrightarrow> 0 < length (keys_of (outgoing (cfg_Voters cfg)))"

definition nilAwareAdd :: "id_set \<Rightarrow> u64 \<Rightarrow> id_set" where
  "nilAwareAdd m i = Some (List.insert i (case m of None \<Rightarrow> [] | Some ks \<Rightarrow> ks))"

definition nilAwareDelete :: "id_set \<Rightarrow> u64 \<Rightarrow> id_set" where
  "nilAwareDelete m i =
     (case m of None \<Rightarrow> None
      | Some ks \<Rightarrow> (let ks' = removeAll i ks in if length ks' = 0 then None else Some ks'))"

definition symdiff :: "id_set \<Rightarrow> id_set \<Rightarrow> nat" where
  "symdiff l r =
     length (filter (\<lambda>i. i \<notin> set (keys_of r)) (keys_of l)) +
     length (filter (\<lambda>i. i \<notin> set (keys_of l)) (keys_of r))"

section \<open>Checks\<close>

text \<open>Reading \<open>prs[id].IsLearner\<close> of a missing entry dereferences nil and panics.\<close>

definition is_learner :: "ProgressMap \<Rightarrow> u64 \<Rightarrow> bool option" where
  "is_learner prs i = map_option pr_IsLearner (map_of prs i)"

definition checkInvariants :: "Config \<Rightarrow> ProgressMap \<Rightarrow> (conf_error + unit) option" where
  "checkInvariants cfg prs =
     go_bind (go_each (\<lambda>ids. go_each (\<lambda>i. fail_if (map_of prs i = None) (ErrNoProgress i)) ids)
       [JointConfig_IDs (cfg_Voters cfg), keys_of (cfg_Learners cfg), keys_of (cfg_LearnersNext cfg)]) (\<lambda>_.
     go_bind (go_each (\<lambda>i.
         go_bind (fail_if (i \<notin> set (keys_of (outgoing (cfg_Voters cfg)))) (ErrNextNotOutgoing i)) (\<lambda>_.
         do { l \<leftarrow> is_learner prs i; fail_if l (ErrNextIsLearner i) }))
       (keys_of (cfg_LearnersNext cfg))) (\<lambda>_.
     go_bind (go_each (\<lambda>i.
         go_bind (fail_if (i \<in> set (keys_of (outgoing (cfg_Voters cfg)))) (ErrLearnerOutgoing i)) (\<lambda>_.
         go_bind (fail_if (i \<in> set (keys_of (incoming (cfg_Voters cfg)))) (ErrLearnerIncoming i)) (\<lambda>_.
         do { l \<leftarrow> is_learner prs i; fail_if (\<not> l) (ErrLearnerNotMarked i) })))
       (keys_of (cfg_Learners cfg))) (\<lambda>_.
     if \<not> joint cfg then
       go_bind (fail_if (outgoing (cfg_Voters cfg) \<noteq> None) ErrOutgoingNotNil) (\<lambda>_.
       go_bind (fail_if (cfg_LearnersNext cfg \<noteq> None) ErrLearnersNextNotNil) (\<lambda>_.
       fail_if (cfg_AutoLeave cfg) ErrAutoLeaveNotJoint))
     else Some (Inr ()))))"

definition checkAndReturn ::
  "Config \<Rightarrow> ProgressMap \<Rightarrow> (conf_error + Config \<times> ProgressMap) option" where
  "checkAndReturn cfg prs = go_bind (checkInvariants cfg prs) (\<lambda>_. Some (Inr (cfg, prs)))"

definition checkAndCopy :: "Changer \<Rightarrow> (conf_error + Config \<times> ProgressMap) option" where
  "checkAndCopy c =
     (let cfg = Config_Clone (pt_Config (chg_Tracker c));
          prs = fold (\<lambda>(i, pr) prs. prs @ [(i, pr)]) (pt_Progress (chg_Tracker c)) []
      in checkAndReturn cfg prs)"

section \<open>Changes\<close>

text \<open>\<open>incoming(cfg.Voters)[id] = struct\<lbrace>\<rbrace>\<lbrace>\<rbrace>\<close>\<close>

definition add_incoming :: "u64 \<Rightarrow> Config \<Rightarrow> Config option" where
  "add_incoming i cfg =
     do { vs \<leftarrow> set_store (incoming (cfg_Voters cfg)) i;
          Some (cfg\<lparr>cfg_Voters := (vs, outgoing (cfg_Voters cfg))\<rparr>) }"

definition initProgress ::
  "Changer \<Rightarrow> u64 \<Rightarrow> bool \<Rightarrow> Config \<times> ProgressMap \<Rightarrow> (Config \<times> ProgressMap) option" where
  "initProgress c i isLearner = (\<lambda>(cfg, prs).
     do { cfg' \<leftarrow> (if \<not> isLearner then add_incoming i cfg
                  else Some (cfg\<lparr>cfg_Learners := nilAwareAdd (cfg_Learners cfg) i\<rparr>));
          Some (cfg', AList.update i (Progress_zero\<lparr>pr_Next := chg_LastIndex c, pr_Match := 0,
                  pr_Inflights := Some (NewInflights (pt_MaxInflight (chg_Tracker c))),
                  pr_IsLearner := isLearner, pr_RecentActive := True\<rparr>) prs) })"

definition makeVoter ::
  "Changer \<Rightarrow> u64 \<Rightarrow> Config \<times> ProgressMap \<Rightarrow> (Config \<times> ProgressMap) option" where
  "makeVoter c i = (\<lambda>(cfg, prs).
     case map_of prs i of
       None \<Rightarrow> initProgress c i False (cfg, prs)
     | Some pr \<Rightarrow>
         do { cfg' \<leftarrow> add_incoming i
                (cfg\<lparr>cfg_Learners := nilAwareDelete (cfg_Learners cfg) i,
                     cfg_LearnersNext := nilAwareDelete (cfg_LearnersNext cfg) i\<rparr>);
              Some (cfg', AList.update i (pr\<lparr>pr_IsLearner := False\<rparr>) prs) })"

fun apply_changes ::
  "Changer \<Rightarrow> ConfChangeSingle list \<Rightarrow> Config \<times> ProgressMap
     \<Rightarrow> (conf_error + Config \<times> ProgressMap) option" where
  "apply_changes c [] s = Some (Inr s)"
| "apply_changes c (cc # ccs) s =
     (if ccs_NodeID cc = 0 then apply_changes c ccs s
      else if ccs_Type cc = ConfChangeAddNode then
        do { s' \<leftarrow> makeVoter c (ccs_NodeID cc) s; apply_changes c ccs s' }
      else if ccs_Type cc = ConfChangeUpdateNode then apply_changes c ccs s
      else Some (Inl (ErrUnexpectedConfType (ccs_Type cc))))"

definition Changer_apply ::
  "Changer \<Rightarrow> ConfChangeSingle list \<Rightarrow> Config \<times> ProgressMap
     \<Rightarrow> (conf_error + Config \<times> ProgressMap) option" where
  "Changer_apply c ccs s =
     go_bind (apply_changes c ccs s) (\<lambda>(cfg, prs).
     go_bind (fail_if (length (keys_of (incoming (cfg_Voters cfg))) = 0) ErrRemovedAllVoters) (\<lambda>_.
     Some (Inr (cfg, prs))))"

definition Simple ::
  "Changer \<Rightarrow> ConfChangeSingle list \<Rightarrow> (conf_error + Config \<times> ProgressMap) option" where
  "Simple c ccs =
     go_bind (checkAndCopy c) (\<lambda>(cfg, prs).
     if joint cfg then Some (Inl ErrSimpleInJoint)
     else go_bind (Changer_apply c ccs (cfg, prs)) (\<lambda>(cfg, prs).
       if 1 < symdiff (incoming (cfg_Voters (pt_Config (chg_Tracker c)))) (incoming (cfg_Voters cfg))
       then Some (Inl ErrMoreThanOneVoter)
       else checkAndReturn cfg prs))"

text \<open>\<open>chain\<close> of \<open>restore.go\<close>: each operation works on the configuration the last one left.\<close>

fun chain ::
  "Changer \<Rightarrow> (Changer \<Rightarrow> (conf_error + Config \<times> ProgressMap) option) list
     \<Rightarrow> (conf_error + Config \<times> ProgressMap) option" where
  "chain chg [] = Some (Inr (pt_Config (chg_Tracker chg), pt_Progress (chg_Tracker chg)))"
| "chain chg (op # ops) =
     go_bind (op chg) (\<lambda>(cfg, prs).
       chain (chg\<lparr>chg_Tracker := (chg_Tracker chg)\<lparr>pt_Config := cfg, pt_Progress := prs\<rparr>\<rparr>) ops)"

section \<open>The invariant\<close>

definition conf_inv :: "Config \<Rightarrow> ProgressMap \<Rightarrow> bool" where
  "conf_inv cfg prs \<longleftrightarrow>
     (\<forall>i \<in> set (JointConfig_IDs (cfg_Voters cfg)) \<union> set (keys_of (cfg_Learners cfg)) \<union>
           set (keys_of (cfg_LearnersNext cfg)). map_of prs i \<noteq> None) \<and>
     (\<forall>i \<in> set (keys_of (cfg_LearnersNext cfg)).
        i \<in> set (keys_of (snd (cfg_Voters cfg))) \<and> is_learner prs i = Some False) \<and>
     (\<forall>i \<in> set (keys_of (cfg_Learners cfg)).
        i \<notin> set (JointConfig_IDs (cfg_Voters cfg)) \<and> is_learner prs i = Some True) \<and>
     (keys_of (snd (cfg_Voters cfg)) = [] \<longrightarrow>
        snd (cfg_Voters cfg) = None \<and> cfg_LearnersNext cfg = None \<and> \<not> cfg_AutoLeave cfg)"

lemma bind_fail_ok:
  "(do { l \<leftarrow> x; fail_if l e }) = Some (Inr ()) \<longleftrightarrow> x = Some False"
  "(do { l \<leftarrow> x; fail_if (\<not> l) e }) = Some (Inr ()) \<longleftrightarrow> x = Some True"
  by (cases x; auto)+

lemma checkInvariants_ok: "checkInvariants cfg prs = Some (Inr ()) \<longleftrightarrow> conf_inv cfg prs"
  unfolding checkInvariants_def conf_inv_def joint_def incoming_def outgoing_def
  by (auto simp: go_bind_ok go_each_ok bind_fail_ok JointConfig_IDs_set)

lemma checkInvariants_no_panic: "checkInvariants cfg prs \<noteq> None"
proof
  assume "checkInvariants cfg prs = None"
  then show False
    unfolding checkInvariants_def
    by (auto simp: go_bind_panic go_bind_ok go_each_ok bind_eq_None_conv is_learner_def
        split: if_splits dest!: go_each_panic)
qed

lemma checkAndReturn_ok:
  "checkAndReturn cfg prs = Some (Inr (cfg', prs')) \<longleftrightarrow> conf_inv cfg prs \<and> cfg' = cfg \<and> prs' = prs"
  by (auto simp: checkAndReturn_def go_bind_ok checkInvariants_ok)

lemma checkAndReturn_inv: "conf_inv cfg prs \<Longrightarrow> checkAndReturn cfg prs = Some (Inr (cfg, prs))"
  by (simp add: checkAndReturn_ok)

lemma fold_copy [simp]: "fold (\<lambda>(i, pr) prs. prs @ [(i, pr)]) xs acc = acc @ xs"
  by (induction xs arbitrary: acc) auto

lemma checkAndCopy_alt:
  "checkAndCopy c = checkAndReturn ((pt_Config (chg_Tracker c))\<lparr>cfg_AutoLeave := False\<rparr>)
     (pt_Progress (chg_Tracker c))"
  by (simp add: checkAndCopy_def Config_Clone_drops_AutoLeave)

section \<open>Adding voters\<close>

text \<open>A configuration a simple change starts from: not joint, the incoming voters \<open>ks\<close>.\<close>

definition simple_conf :: "u64 list \<Rightarrow> Config \<times> ProgressMap \<Rightarrow> bool" where
  "simple_conf ks = (\<lambda>(cfg, prs). conf_inv cfg prs \<and> cfg_Voters cfg = (Some ks, None))"

lemma keys_nilAwareDelete [simp]: "set (keys_of (nilAwareDelete m i)) = set (keys_of m) - {i}"
proof (cases m)
  case (Some ks)
  have "removeAll i ks = [] \<Longrightarrow> set ks - {i} = {}" by (metis empty_set set_removeAll)
  then show ?thesis using Some by (auto simp: nilAwareDelete_def Let_def)
qed (simp add: nilAwareDelete_def)

lemma makeVoter_simple:
  assumes "simple_conf ks s"
  shows "\<exists>s'. makeVoter c i s = Some s' \<and> simple_conf (List.insert i ks) s'"
proof (cases s)
  case (Pair cfg prs)
  with assms have inv: "conf_inv cfg prs" and v: "cfg_Voters cfg = (Some ks, None)"
    by (simp_all add: simple_conf_def)
  show ?thesis
  proof (cases "map_of prs i")
    case None
    with inv v have "i \<notin> set (keys_of (cfg_Learners cfg))" by (auto simp: conf_inv_def is_learner_def)
    with None inv v Pair show ?thesis
      by (auto simp: makeVoter_def initProgress_def add_incoming_def incoming_def outgoing_def
          set_store_def simple_conf_def conf_inv_def JointConfig_IDs_set update_conv is_learner_def)
  next
    case (Some pr)
    with inv v Pair show ?thesis
      by (auto simp: makeVoter_def add_incoming_def incoming_def outgoing_def set_store_def
          simple_conf_def conf_inv_def JointConfig_IDs_set update_conv is_learner_def
          nilAwareDelete_def [where m = None])
  qed
qed

text \<open>The voters a list of changes adds, and a change \<open>apply\<close> refuses.\<close>

definition added :: "ConfChangeSingle list \<Rightarrow> u64 list" where
  "added ccs = map ccs_NodeID (filter (\<lambda>c. ccs_NodeID c \<noteq> 0 \<and> ccs_Type c = ConfChangeAddNode) ccs)"

definition refused :: "ConfChangeSingle \<Rightarrow> bool" where
  "refused c \<longleftrightarrow> ccs_NodeID c \<noteq> 0 \<and> ccs_Type c \<noteq> ConfChangeAddNode \<and> ccs_Type c \<noteq> ConfChangeUpdateNode"

lemma apply_changes_simple:
  assumes "simple_conf ks s"
  shows "case find refused ccs of
      Some cc \<Rightarrow> apply_changes c ccs s = Some (Inl (ErrUnexpectedConfType (ccs_Type cc)))
    | None \<Rightarrow> \<exists>s'. apply_changes c ccs s = Some (Inr s') \<and>
                  simple_conf (fold List.insert (added ccs) ks) s'"
  using assms
proof (induction ccs arbitrary: ks s)
  case Nil
  then show ?case by (simp add: added_def)
next
  case (Cons cc ccs)
  consider (voter) "ccs_NodeID cc \<noteq> 0 \<and> ccs_Type cc = ConfChangeAddNode" | (bad) "refused cc"
    | (skip) "ccs_NodeID cc = 0 \<or> (ccs_Type cc = ConfChangeUpdateNode)"
    by (auto simp: refused_def)
  then show ?case
  proof cases
    case voter
    then obtain s' where "makeVoter c (ccs_NodeID cc) s = Some s'"
      and "simple_conf (List.insert (ccs_NodeID cc) ks) s'"
      using makeVoter_simple [OF Cons.prems] by blast
    with Cons.IH [of "List.insert (ccs_NodeID cc) ks" s'] voter show ?thesis
      by (simp add: refused_def added_def split: option.splits)
  next
    case bad
    then show ?thesis by (auto simp: refused_def)
  next
    case skip
    then show ?thesis using Cons.IH [OF Cons.prems]
      by (auto simp: refused_def added_def split: option.splits)
  qed
qed

lemma fold_insert_Nil: "fold List.insert xs ys = [] \<longleftrightarrow> xs = [] \<and> ys = []"
  by (metis fold_insert_set Un_empty set_empty)

lemma symdiff_added:
  assumes "distinct ks"
  shows "symdiff (Some ks) (Some (fold List.insert xs ks)) = card (set xs - set ks)"
proof -
  have "filter (\<lambda>i. i \<notin> set ks \<union> set xs) ks = []" by (simp add: filter_empty_conv)
  moreover have "{i \<in> set xs \<union> set ks. i \<notin> set ks} = set xs - set ks" by auto
  ultimately show ?thesis
    using assms by (simp add: symdiff_def length_filter_card fold_insert_distinct Un_commute)
qed

text \<open>\<open>Simple\<close> on a simple configuration, every branch.\<close>

lemma Simple_cases:
  fixes c :: Changer
  defines "t \<equiv> chg_Tracker c"
  assumes wf: "tracker_wf t" and inv: "conf_inv (Config_Clone (pt_Config t)) (pt_Progress t)"
    and v: "cfg_Voters (pt_Config t) = (Some ks, None)"
  shows "\<exists>r. Simple c ccs = Some r \<and>
    (case find refused ccs of
       Some cc \<Rightarrow> r = Inl (ErrUnexpectedConfType (ccs_Type cc))
     | None \<Rightarrow>
         if ks = [] \<and> added ccs = [] then r = Inl ErrRemovedAllVoters
         else if 1 < card (set (added ccs) - set ks) then r = Inl ErrMoreThanOneVoter
         else \<exists>s. r = Inr s \<and> simple_conf (fold List.insert (added ccs) ks) s)"
proof -
  let ?cfg = "(pt_Config t)\<lparr>cfg_AutoLeave := False\<rparr>" and ?prs = "pt_Progress t"
  have "simple_conf ks (?cfg, ?prs)"
    using inv v by (simp add: simple_conf_def Config_Clone_drops_AutoLeave)
  note ap = apply_changes_simple [OF this, where ccs = ccs and c = c]
  have "checkAndCopy c = Some (Inr (?cfg, ?prs))"
    using inv by (simp add: checkAndCopy_alt t_def checkAndReturn_inv Config_Clone_drops_AutoLeave)
  then have S: "Simple c ccs = go_bind (Changer_apply c ccs (?cfg, ?prs)) (\<lambda>(cfg, prs).
      if 1 < symdiff (Some ks) (incoming (cfg_Voters cfg)) then Some (Inl ErrMoreThanOneVoter)
      else checkAndReturn cfg prs)"
    using v by (simp add: Simple_def joint_def outgoing_def incoming_def t_def)
  have ks: "distinct ks" using wf v by (simp add: tracker_wf_def joint_wf_def)
  show ?thesis
  proof (cases "find refused ccs")
    case None
    with ap obtain cfg' prs' where a: "apply_changes c ccs (?cfg, ?prs) = Some (Inr (cfg', prs'))"
      and s: "simple_conf (fold List.insert (added ccs) ks) (cfg', prs')" by auto
    then have "conf_inv cfg' prs'" "cfg_Voters cfg' = (Some (fold List.insert (added ccs) ks), None)"
      by (simp_all add: simple_conf_def)
    with a s None ks show ?thesis
      by (cases "added ccs = [] \<and> ks = []")
        (auto simp: S Changer_apply_def incoming_def fold_insert_Nil fail_if_def symdiff_added
          checkAndReturn_inv)
  qed (use ap S in \<open>simp add: Changer_apply_def\<close>)
qed

lemma apply_changes_nil_voters:
  "incoming (cfg_Voters cfg) = None \<Longrightarrow> apply_changes c ccs (cfg, prs) = Some (Inr s) \<Longrightarrow> s = (cfg, prs)"
proof (induction ccs)
  case (Cons cc ccs)
  have "makeVoter c i (cfg, prs) = None" for i
    using Cons.prems(1) by (auto simp: makeVoter_def initProgress_def add_incoming_def set_store_def
        incoming_def split: option.split)
  with Cons show ?case by (auto split: if_splits)
qed simp

lemma Simple_ok:
  fixes c :: Changer
  defines "t \<equiv> chg_Tracker c"
  assumes wf: "tracker_wf t" and ok: "Simple c ccs = Some (Inr (cfg, prs))"
  obtains ks where "cfg_Voters (pt_Config t) = (Some ks, None)" and "distinct ks"
    and "conf_inv cfg prs" and "cfg_Voters cfg = (Some (fold List.insert (added ccs) ks), None)"
    and "fold List.insert (added ccs) ks \<noteq> []" and "card (set (added ccs) - set ks) \<le> 1"
proof -
  let ?cfg = "Config_Clone (pt_Config t)"
  from ok obtain cfg0 prs0 where cc: "checkAndCopy c = Some (Inr (cfg0, prs0))" and nj: "\<not> joint cfg0"
    and ap: "\<exists>s. Changer_apply c ccs (cfg0, prs0) = Some (Inr s)"
    by (auto simp: Simple_def go_bind_ok split: if_splits)
  from cc have inv: "conf_inv ?cfg (pt_Progress t)" and c0: "cfg0 = ?cfg" "prs0 = pt_Progress t"
    by (auto simp: checkAndCopy_def checkAndReturn_ok t_def)
  from nj inv c0 have out: "snd (cfg_Voters ?cfg) = None"
    by (auto simp: conf_inv_def joint_def outgoing_def)
  have "fst (cfg_Voters ?cfg) \<noteq> None"
  proof
    assume none: "fst (cfg_Voters ?cfg) = None"
    from ap obtain s where "apply_changes c ccs (?cfg, prs0) = Some (Inr s)"
      and "length (keys_of (incoming (cfg_Voters (fst s)))) \<noteq> 0"
      by (auto simp: Changer_apply_def go_bind_ok c0)
    with apply_changes_nil_voters [of ?cfg c ccs prs0 s] none show False by (simp add: incoming_def)
  qed
  with out obtain ks where ks: "cfg_Voters (pt_Config t) = (Some ks, None)"
    by (cases "cfg_Voters (pt_Config t)") (auto simp: Config_Clone_drops_AutoLeave)
  from Simple_cases [OF wf [unfolded t_def] inv [unfolded t_def] ks [unfolded t_def], of ccs] ok
  have "\<not> (ks = [] \<and> added ccs = [])" "\<not> 1 < card (set (added ccs) - set ks)"
    "simple_conf (fold List.insert (added ccs) ks) (cfg, prs)"
    by (auto split: option.splits if_splits)
  with ks wf that show thesis
    by (auto simp: simple_conf_def fold_insert_Nil tracker_wf_def joint_wf_def)
qed

text \<open>The maps of the result have distinct keys.\<close>

definition maps_wf :: "Config \<times> ProgressMap \<Rightarrow> bool" where
  "maps_wf = (\<lambda>(cfg, prs). distinct (map_keys prs) \<and> joint_wf (cfg_Voters cfg) \<and>
     distinct (keys_of (cfg_Learners cfg)) \<and> distinct (keys_of (cfg_LearnersNext cfg)))"

lemma distinct_nilAwareDelete: "distinct (keys_of m) \<Longrightarrow> distinct (keys_of (nilAwareDelete m i))"
  by (auto simp: nilAwareDelete_def Let_def distinct_removeAll split: option.splits)

lemma makeVoter_maps_wf:
  "makeVoter c i s = Some s' \<Longrightarrow> maps_wf s \<Longrightarrow> maps_wf s'"
  by (auto simp: makeVoter_def initProgress_def add_incoming_def set_store_def maps_wf_def joint_wf_def
      incoming_def outgoing_def distinct_update distinct_nilAwareDelete bind_eq_Some_conv
      split: prod.splits option.splits)

lemma apply_changes_maps_wf:
  "apply_changes c ccs s = Some (Inr s') \<Longrightarrow> maps_wf s \<Longrightarrow> maps_wf s'"
  by (induction c ccs s rule: apply_changes.induct)
    (auto simp: bind_eq_Some_conv makeVoter_maps_wf split: if_splits)

lemma Simple_maps_wf:
  assumes "tracker_wf (chg_Tracker c)" and "Simple c ccs = Some (Inr s)"
  shows "maps_wf s"
proof -
  let ?s = "((pt_Config (chg_Tracker c))\<lparr>cfg_AutoLeave := False\<rparr>, pt_Progress (chg_Tracker c))"
  have "maps_wf ?s" using assms(1) by (simp add: maps_wf_def tracker_wf_def)
  moreover from assms(2) have "apply_changes c ccs ?s = Some (Inr s)"
    by (cases s) (auto simp: Simple_def go_bind_ok checkAndCopy_alt checkAndReturn_ok Changer_apply_def
        split: if_splits)
  ultimately show ?thesis by (rule apply_changes_maps_wf [rotated])
qed

section \<open>Properties\<close>

text \<open>\<open>checkInvariants\<close> never panics and accepts exactly the configurations in which every
  voter and learner has a progress, learners are not voters and are marked as learners, staged
  learners are outgoing voters, and a configuration that is not joint has no joint leftovers.\<close>

lemma checkInvariants_correct:
  "checkInvariants cfg prs \<noteq> None \<and> (checkInvariants cfg prs = Some (Inr ()) \<longleftrightarrow> conf_inv cfg prs)"
  by (simp add: checkInvariants_ok checkInvariants_no_panic)

text \<open>C9: A simple change that succeeds yields a valid configuration that is not joint and has
  voters: the old voters and at most one more, which the changes asked for.\<close>

theorem Simple_preserves_invariants:
  assumes "tracker_wf (chg_Tracker c)" and "Simple c ccs = Some (Inr (cfg, prs))"
  shows "conf_inv cfg prs \<and> \<not> joint cfg \<and> keys_of (incoming (cfg_Voters cfg)) \<noteq> [] \<and>
    config_wf (incoming (cfg_Voters cfg)) \<and>
    set (keys_of (incoming (cfg_Voters cfg)))
      = set (keys_of (incoming (cfg_Voters (pt_Config (chg_Tracker c))))) \<union> set (added ccs) \<and>
    symdiff (incoming (cfg_Voters (pt_Config (chg_Tracker c)))) (incoming (cfg_Voters cfg)) \<le> 1"
  using assms
  by (rule Simple_ok) (auto simp: joint_def incoming_def outgoing_def symdiff_added fold_insert_distinct)

definition example_changer :: Changer where
  "example_changer = \<lparr>chg_Tracker = (MakeProgressTracker 16)\<lparr>
       pt_Config := Config_zero\<lparr>cfg_Voters := (Some [1, 2], None)\<rparr>,
       pt_Progress := [(1, Progress_zero), (2, Progress_zero)]\<rparr>, chg_LastIndex = 7\<rparr>"

definition example_added :: "Config \<times> ProgressMap" where
  "example_added =
     (Config_zero\<lparr>cfg_Voters := (Some [3, 1, 2], None)\<rparr>,
      [(1, Progress_zero), (2, Progress_zero),
       (3, Progress_zero\<lparr>pr_Next := 7, pr_Inflights := Some (NewInflights 16), pr_RecentActive := True\<rparr>)])"

lemma example_Simple:
  "Simple example_changer [ConfChangeSingle_zero\<lparr>ccs_NodeID := 3\<rparr>] = Some (Inr example_added)"
  by code_simp

lemma example_wf: "tracker_wf (chg_Tracker example_changer)"
  by code_simp

theorem Simple_preserves_invariants_witness:
  "conf_inv (fst example_added) (snd example_added) \<and> \<not> joint (fst example_added) \<and>
    keys_of (incoming (cfg_Voters (fst example_added))) \<noteq> [] \<and>
    config_wf (incoming (cfg_Voters (fst example_added))) \<and>
    set (keys_of (incoming (cfg_Voters (fst example_added))))
      = set (keys_of (incoming (cfg_Voters (pt_Config (chg_Tracker example_changer))))) \<union>
        set (added [ConfChangeSingle_zero\<lparr>ccs_NodeID := 3\<rparr>]) \<and>
    symdiff (incoming (cfg_Voters (pt_Config (chg_Tracker example_changer))))
      (incoming (cfg_Voters (fst example_added))) \<le> 1"
  using Simple_preserves_invariants [OF example_wf, of _ "fst example_added" "snd example_added"]
    example_Simple by simp

text \<open>C29: On a valid configuration that is not joint, \<open>Simple\<close> never panics, and it fails
  exactly when a change has a type \<open>apply\<close> does not know, when there would be no voter, or when
  more than one voter would be added.\<close>

theorem Simple_result:
  assumes "tracker_wf (chg_Tracker c)" and "cfg_Voters (pt_Config (chg_Tracker c)) = (Some ks, None)"
    and "conf_inv (Config_Clone (pt_Config (chg_Tracker c))) (pt_Progress (chg_Tracker c))"
  shows "case find refused ccs of
      Some cc \<Rightarrow> Simple c ccs = Some (Inl (ErrUnexpectedConfType (ccs_Type cc)))
    | None \<Rightarrow>
        if ks = [] \<and> added ccs = [] then Simple c ccs = Some (Inl ErrRemovedAllVoters)
        else if 1 < card (set (added ccs) - set ks) then Simple c ccs = Some (Inl ErrMoreThanOneVoter)
        else \<exists>cfg prs. Simple c ccs = Some (Inr (cfg, prs))"
  using Simple_cases [OF assms(1,3,2), of ccs] by (auto split: option.splits if_splits)

theorem Simple_result_witness:
  "let ccs = [ConfChangeSingle_zero\<lparr>ccs_NodeID := 8\<rparr>, ConfChangeSingle_zero\<lparr>ccs_NodeID := 9\<rparr>] in
   case find refused ccs of
      Some cc \<Rightarrow> Simple example_changer ccs = Some (Inl (ErrUnexpectedConfType (ccs_Type cc)))
    | None \<Rightarrow>
        if [1, 2] = ([] :: u64 list) \<and> added ccs = []
        then Simple example_changer ccs = Some (Inl ErrRemovedAllVoters)
        else if 1 < card (set (added ccs) - set [1, 2])
        then Simple example_changer ccs = Some (Inl ErrMoreThanOneVoter)
        else \<exists>cfg prs. Simple example_changer ccs = Some (Inr (cfg, prs))"
  unfolding Let_def
  by (rule Simple_result [OF example_wf]) (code_simp, simp flip: checkInvariants_ok, code_simp)



end
