(* ===== verification/Raft_Core.thy ===== *)
theory Raft_Core
  imports Raft_Log Confchange
begin

text \<open>
  \<open>raft/raft.go\<close>, with \<open>voteRespMsgType\<close> of \<open>util.go\<close> and \<open>newReadOnly\<close> of
  \<open>read_only.go\<close>: the state of one raft node and everything that changes it. The function
  fields \<open>tick\<close> and \<open>step\<close> are values of a datatype with one constructor per function the code
  stores there. Each operation draws at most one random number; the draw is an argument, and
  \<open>Intn\<close> reduces it. Logging has no effect on the state; where a log line computes something that
  can panic, the computation is kept.
\<close>

abbreviation (input) "None_id \<equiv> (0 :: u64)"

datatype RaftState = StateFollower | StateCandidate | StateLeader | StatePreCandidate
datatype CampaignType = campaignPreElection | campaignElection | campaignTransfer
datatype tick_fn = TickElection
datatype step_fn = StepFollower | StepCandidate

fun RaftState_String :: "RaftState \<Rightarrow> string" where
  "RaftState_String StateFollower = ''StateFollower''"
| "RaftState_String StateCandidate = ''StateCandidate''"
| "RaftState_String StateLeader = ''StateLeader''"
| "RaftState_String StatePreCandidate = ''StatePreCandidate''"

text \<open>\<open>rand.Intn\<close> panics unless its argument is positive.\<close>

definition Intn :: "nat \<Rightarrow> int \<Rightarrow> int option" where
  "Intn raw n = (if n \<le> 0 then None else Some (int raw mod n))"

section \<open>Read-only requests\<close>

record ReadState =
  rs_Index :: u64
  rs_RequestCtx :: "bytes option"

record readIndexStatus =
  ris_req :: Message
  ris_index :: u64
  ris_acks :: votes

record readOnly =
  ro_option :: int
  ro_pendingReadIndex :: "(string, readIndexStatus) gomap"
  ro_readIndexQueue :: "string list"

definition newReadOnly :: "int \<Rightarrow> readOnly" where
  "newReadOnly opt = \<lparr>ro_option = opt, ro_pendingReadIndex = [], ro_readIndexQueue = []\<rparr>"

section \<open>Configuration and state\<close>

record 's RaftConfig =
  rc_ID :: u64
  rc_ElectionTick :: int
  rc_HeartbeatTick :: int
  rc_ops :: "'s Storage"
  rc_Storage :: 's
  rc_Applied :: u64
  rc_MaxSizePerMsg :: u64
  rc_MaxCommittedSizePerReady :: u64
  rc_MaxUncommittedEntriesSize :: u64
  rc_MaxInflightMsgs :: int
  rc_CheckQuorum :: bool
  rc_PreVote :: bool
  rc_ReadOnlyOption :: int
  rc_DisableProposalForwarding :: bool

text \<open>\<open>validate\<close>: \<open>True\<close> stands for the nil error.\<close>

definition validate :: "'s RaftConfig \<Rightarrow> bool" where
  "validate c \<longleftrightarrow> rc_ID c \<noteq> None_id"

record 's raft =
  r_id :: u64
  r_Term :: u64
  r_Vote :: u64
  r_readStates :: "ReadState list"
  r_raftLog :: "'s raftLog"
  r_maxMsgSize :: u64
  r_maxUncommittedSize :: u64
  r_prs :: ProgressTracker
  r_state :: RaftState
  r_isLearner :: bool
  r_msgs :: "Message list"
  r_lead :: u64
  r_leadTransferee :: u64
  r_pendingConfIndex :: u64
  r_uncommittedSize :: u64
  r_readOnly :: readOnly
  r_electionElapsed :: int
  r_heartbeatElapsed :: int
  r_checkQuorum :: bool
  r_preVote :: bool
  r_heartbeatTimeout :: int
  r_electionTimeout :: int
  r_randomizedElectionTimeout :: int
  r_disableProposalForwarding :: bool
  r_tick :: "tick_fn option"
  r_step :: "step_fn option"

definition hasLeader :: "'s raft \<Rightarrow> bool" where
  "hasLeader r \<longleftrightarrow> r_lead r \<noteq> None_id"

record SoftState =
  ss_Lead :: u64
  ss_RaftState :: RaftState

definition softState :: "'s raft \<Rightarrow> SoftState" where
  "softState r = \<lparr>ss_Lead = r_lead r, ss_RaftState = r_state r\<rparr>"

definition hardState :: "'s raft \<Rightarrow> HardState" where
  "hardState r = HardState_zero\<lparr>hs_Term := r_Term r, hs_Vote := r_Vote r, hs_Commit := rl_committed (r_raftLog r)\<rparr>"

definition isHardStateEqual :: "HardState \<Rightarrow> HardState \<Rightarrow> bool" where
  "isHardStateEqual a b \<longleftrightarrow> hs_Term a = hs_Term b \<and> hs_Vote a = hs_Vote b \<and> hs_Commit a = hs_Commit b"

section \<open>Elections\<close>

definition resetRandomizedElectionTimeout :: "nat \<Rightarrow> 's raft \<Rightarrow> 's raft option" where
  "resetRandomizedElectionTimeout raw r =
     do { v \<leftarrow> Intn raw (r_electionTimeout r);
          Some (r\<lparr>r_randomizedElectionTimeout := wrap_int (r_electionTimeout r + v)\<rparr>) }"

definition abortLeaderTransfer :: "'s raft \<Rightarrow> 's raft" where
  "abortLeaderTransfer r = r\<lparr>r_leadTransferee := None_id\<rparr>"

text \<open>What \<open>reset\<close> makes of each tracked progress.\<close>

definition reset_progress :: "u64 \<Rightarrow> int \<Rightarrow> u64 \<Rightarrow> u64 \<Rightarrow> Progress \<Rightarrow> Progress" where
  "reset_progress self maxInflight lastIdx i pr =
     (let pr' = Progress_zero\<lparr>pr_Match := 0, pr_Next := lastIdx + 1,
                  pr_Inflights := Some (NewInflights maxInflight), pr_IsLearner := pr_IsLearner pr\<rparr>
      in if i = self then pr'\<lparr>pr_Match := lastIdx\<rparr> else pr')"

definition reset :: "nat \<Rightarrow> u64 \<Rightarrow> 's raft \<Rightarrow> 's raft option" where
  "reset raw trm r0 =
     do { let r = (if r_Term r0 \<noteq> trm then r0\<lparr>r_Term := trm, r_Vote := None_id\<rparr> else r0);
          let r = r\<lparr>r_lead := None_id, r_electionElapsed := 0, r_heartbeatElapsed := 0\<rparr>;
          r \<leftarrow> resetRandomizedElectionTimeout raw r;
          let r = abortLeaderTransfer r;
          let r = r\<lparr>r_prs := ResetVotes (r_prs r)\<rparr>;
          prs \<leftarrow> (if pt_Progress (r_prs r) = [] then Some (r_prs r)
                 else do { lastIdx \<leftarrow> rl_lastIndex (r_raftLog r);
                           ProgressTracker_Visit
                             (reset_progress (r_id r) (pt_MaxInflight (r_prs r)) lastIdx) (r_prs r) });
          Some (r\<lparr>r_prs := prs, r_pendingConfIndex := 0, r_uncommittedSize := 0,
                 r_readOnly := newReadOnly (ro_option (r_readOnly r))\<rparr>) }"

definition becomeFollower :: "nat \<Rightarrow> u64 \<Rightarrow> u64 \<Rightarrow> 's raft \<Rightarrow> 's raft option" where
  "becomeFollower raw trm lead r =
     do { r \<leftarrow> reset raw trm (r\<lparr>r_step := Some StepFollower\<rparr>);
          Some (r\<lparr>r_tick := Some TickElection, r_lead := lead, r_state := StateFollower\<rparr>) }"

definition becomeCandidate :: "nat \<Rightarrow> 's raft \<Rightarrow> 's raft option" where
  "becomeCandidate raw r =
     (if r_state r = StateLeader then None
      else do { r \<leftarrow> reset raw (r_Term r + 1) (r\<lparr>r_step := Some StepCandidate\<rparr>);
                Some (r\<lparr>r_tick := Some TickElection, r_Vote := r_id r, r_state := StateCandidate\<rparr>) })"

definition promotable :: "'s raft \<Rightarrow> bool" where
  "promotable r \<longleftrightarrow>
     (case map_of (pt_Progress (r_prs r)) (r_id r) of None \<Rightarrow> False | Some pr \<Rightarrow> \<not> pr_IsLearner pr)"

definition pastElectionTimeout :: "'s raft \<Rightarrow> bool" where
  "pastElectionTimeout r \<longleftrightarrow> r_randomizedElectionTimeout r \<le> r_electionElapsed r"

definition voteRespMsgType :: "MessageType \<Rightarrow> MessageType option" where
  "voteRespMsgType msgt =
     (if msgt = MsgVote then Some MsgVoteResp
      else if msgt = MsgPreVote then Some MsgPreVoteResp
      else None)"

text \<open>The second argument of \<open>poll\<close>, the message type, is only logged.\<close>

definition poll :: "u64 \<Rightarrow> MessageType \<Rightarrow> bool \<Rightarrow> 's raft \<Rightarrow> (nat \<times> nat \<times> VoteResult) \<times> 's raft" where
  "poll i t v r = (let prs = RecordVote i v (r_prs r) in (TallyVotes prs, r\<lparr>r_prs := prs\<rparr>))"

text \<open>The branches after a won poll only print: \<open>becomeLeader\<close> is commented out in the code.\<close>

definition campaign :: "nat \<Rightarrow> CampaignType \<Rightarrow> 's raft \<Rightarrow> 's raft option" where
  "campaign raw t r =
     do { (r, voteMsg) \<leftarrow> (if t = campaignPreElection then Some (r, MsgHup)
                          else do { r \<leftarrow> becomeCandidate raw r; Some (r, MsgVote) });
          resp \<leftarrow> voteRespMsgType voteMsg;
          let (res, r) = poll (r_id r) resp True r;
          Some r }"

definition Step :: "nat \<Rightarrow> Message \<Rightarrow> 's raft \<Rightarrow> 's raft option" where
  "Step raw m r =
     (if msg_Type m = MsgHup then
        (if r_state r \<noteq> StateLeader then
           (if \<not> promotable r then Some r
            else if r_preVote r then campaign raw campaignPreElection r
            else campaign raw campaignElection r)
         else Some r)
      else Some r)"

definition tickElection :: "nat \<Rightarrow> 's raft \<Rightarrow> 's raft option" where
  "tickElection raw r =
     (let r = r\<lparr>r_electionElapsed := wrap_int (r_electionElapsed r + 1)\<rparr> in
      if promotable r \<and> pastElectionTimeout r
      then Step raw (Message_zero\<lparr>msg_From := r_id r, msg_Type := MsgHup\<rparr>) (r\<lparr>r_electionElapsed := 0\<rparr>)
      else Some r)"

text \<open>\<open>r.tick()\<close>: calling a nil function value panics.\<close>

definition raft_tick :: "nat \<Rightarrow> 's raft \<Rightarrow> 's raft option" where
  "raft_tick raw r = (case r_tick r of None \<Rightarrow> None | Some TickElection \<Rightarrow> tickElection raw r)"

text \<open>\<open>stepFollower\<close> and \<open>stepCandidate\<close>, which do nothing yet.\<close>

fun run_step :: "step_fn \<Rightarrow> Message \<Rightarrow> 's raft \<Rightarrow> 's raft" where
  "run_step StepFollower m r = r"
| "run_step StepCandidate m r = r"

definition numOfPendingConf :: "Entry list \<Rightarrow> nat" where
  "numOfPendingConf ents = fold (\<lambda>e n. if ent_Type e = EntryConfChange then n + 1 else n) ents 0"

section \<open>Construction\<close>

text \<open>\<open>loadState\<close> only prints; the assignments are commented out in the code.\<close>

definition loadState :: "HardState \<Rightarrow> 's raft \<Rightarrow> 's raft" where
  "loadState st r = r"

definition newRaft :: "nat \<Rightarrow> 's RaftConfig \<Rightarrow> 's raft option" where
  "newRaft raw c =
     (if \<not> validate c then None
      else do {
        raftlog \<leftarrow> newLogWithSize (rc_ops c) (rc_Storage c) (rc_MaxCommittedSizePerReady c);
        (hs, cs) \<leftarrow> must (st_InitialState (rc_ops c) (rc_Storage c));
        let r = \<lparr>r_id = rc_ID c, r_Term = 0, r_Vote = 0, r_readStates = [], r_raftLog = raftlog,
                 r_maxMsgSize = rc_MaxSizePerMsg c, r_maxUncommittedSize = rc_MaxUncommittedEntriesSize c,
                 r_prs = MakeProgressTracker (rc_MaxInflightMsgs c), r_state = StateFollower,
                 r_isLearner = False, r_msgs = [], r_lead = None_id, r_leadTransferee = 0,
                 r_pendingConfIndex = 0, r_uncommittedSize = 0,
                 r_readOnly = newReadOnly (rc_ReadOnlyOption c), r_electionElapsed = 0,
                 r_heartbeatElapsed = 0, r_checkQuorum = rc_CheckQuorum c, r_preVote = rc_PreVote c,
                 r_heartbeatTimeout = rc_HeartbeatTick c, r_electionTimeout = rc_ElectionTick c,
                 r_randomizedElectionTimeout = 0,
                 r_disableProposalForwarding = rc_DisableProposalForwarding c,
                 r_tick = None, r_step = None\<rparr>;
        let r = (if \<not> isHardStateEqual hs HardState_zero then loadState hs r else r);
        r \<leftarrow> becomeFollower raw (r_Term r) None_id r;
        _ \<leftarrow> rl_lastIndex (r_raftLog r);
        _ \<leftarrow> rl_lastTerm (r_raftLog r);
        Some r })"

section \<open>Configuration changes\<close>

definition switchToConfig :: "Config \<Rightarrow> ProgressMap \<Rightarrow> 's raft \<Rightarrow> ConfState \<times> 's raft" where
  "switchToConfig cfg prs r0 =
     (let r = r0\<lparr>r_prs := (r_prs r0)\<lparr>pt_Config := cfg, pt_Progress := prs\<rparr>\<rparr>;
          cs = ProgressTracker_ConfState (r_prs r);
          pr = map_of (pt_Progress (r_prs r)) (r_id r);
          r = r\<lparr>r_isLearner := (case pr of None \<Rightarrow> False | Some p \<Rightarrow> pr_IsLearner p)\<rparr>
      in if (pr = None \<or> r_isLearner r) \<and> r_state r = StateLeader then (cs, r)
         else if r_state r \<noteq> StateLeader \<or> length (cs_Voters cs) = 0 then (cs, r)
         else if map_of (pt_Progress (r_prs r)) (r_leadTransferee r) = None \<and> r_leadTransferee r \<noteq> 0
         then (cs, abortLeaderTransfer r)
         else (cs, r))"

definition applyConfChange :: "ConfChangeV2 \<Rightarrow> 's raft \<Rightarrow> (ConfState \<times> 's raft) option" where
  "applyConfChange cc r =
     do { lastIdx \<leftarrow> rl_lastIndex (r_raftLog r);
          (cfg, prs) \<leftarrow> must (Simple \<lparr>chg_Tracker = r_prs r, chg_LastIndex = lastIdx\<rparr> (cc2_Changes cc));
          Some (switchToConfig cfg prs r) }"

section \<open>What the operations do\<close>

lemma reset_eq:
  assumes "tracker_wf (r_prs r)" and "rl_lastIndex (r_raftLog r) = Some la" and "0 < r_electionTimeout r"
  shows "reset raw trm r = Some (r\<lparr>r_Term := trm,
    r_Vote := (if r_Term r \<noteq> trm then None_id else r_Vote r), r_lead := None_id,
    r_electionElapsed := 0, r_heartbeatElapsed := 0,
    r_randomizedElectionTimeout := wrap_int (r_electionTimeout r + int raw mod r_electionTimeout r),
    r_leadTransferee := None_id,
    r_prs := (r_prs r)\<lparr>pt_Votes := [], pt_Progress := map (\<lambda>(i, pr). (i,
      reset_progress (r_id r) (pt_MaxInflight (r_prs r)) la i pr)) (pt_Progress (r_prs r))\<rparr>,
    r_pendingConfIndex := 0, r_uncommittedSize := 0,
    r_readOnly := newReadOnly (ro_option (r_readOnly r))\<rparr>)"
proof -
  have V: "ProgressTracker_Visit f (ResetVotes (r_prs r)) = Some ((r_prs r)\<lparr>pt_Votes := [],
      pt_Progress := map (\<lambda>(i, pr). (i, f i pr)) (pt_Progress (r_prs r))\<rparr>)" for f
    using Visit_eq [of "ResetVotes (r_prs r)" f] tracker_wf_ops(1) [OF assms(1)] by (simp add: ResetVotes_def)
  show ?thesis
    using assms(2,3)
    by (cases "pt_Progress (r_prs r) = []"; cases "r_Term r = trm")
      (simp_all add: reset_def resetRandomizedElectionTimeout_def Intn_def abortLeaderTransfer_def Let_def
        V [unfolded ResetVotes_def] ResetVotes_def)
qed

lemma pr_IsLearner_reset [simp]: "pr_IsLearner (reset_progress self n la i pr) = pr_IsLearner pr"
  by (simp add: reset_progress_def Let_def)

text \<open>The bounds of the randomized timeout.\<close>

lemma randomized_bounds:
  assumes "0 < T" and "T < 2 ^ 62"
  shows "wrap_int (T + int raw mod T) = T + int raw mod T" and "T \<le> T + int raw mod T"
    and "T + int raw mod T < 2 * T"
proof -
  have m: "0 \<le> int raw mod T" "int raw mod T < T" using assms(1) by simp_all
  show "wrap_int (T + int raw mod T) = T + int raw mod T"
    using assms m by (intro wrap_int_id) simp_all
  show "T \<le> T + int raw mod T" "T + int raw mod T < 2 * T" using m by linarith+
qed

section \<open>The invariant\<close>

definition raft_inv :: "'s raft \<Rightarrow> bool" where
  "raft_inv r \<longleftrightarrow>
     r_id r \<noteq> None_id \<and> tracker_wf (r_prs r) \<and> rl_lastIndex (r_raftLog r) \<noteq> None \<and>
     0 < r_electionTimeout r \<and> r_electionTimeout r < 2 ^ 62 \<and>
     r_electionTimeout r \<le> r_randomizedElectionTimeout r \<and>
     r_randomizedElectionTimeout r < 2 * r_electionTimeout r \<and>
     r_tick r = Some TickElection \<and> r_step r \<noteq> None \<and>
     r_lead r = None_id \<and> (r_state r = StateFollower \<or> r_state r = StateCandidate) \<and>
     (r_Vote r = None_id \<or> r_Vote r = r_id r) \<and>
     (r_state r = StateCandidate \<longrightarrow>
        r_Vote r = r_id r \<and> map_of (pt_Votes (r_prs r)) (r_id r) = Some True)"

text \<open>The state of a node right after it started an election.\<close>

definition candidate_of :: "nat \<Rightarrow> u64 \<Rightarrow> 's raft \<Rightarrow> 's raft" where
  "candidate_of raw la r = r\<lparr>r_Term := r_Term r + 1, r_Vote := r_id r, r_lead := None_id,
    r_electionElapsed := 0, r_heartbeatElapsed := 0,
    r_randomizedElectionTimeout := r_electionTimeout r + int raw mod r_electionTimeout r,
    r_leadTransferee := None_id,
    r_prs := (r_prs r)\<lparr>pt_Votes := [(r_id r, True)], pt_Progress := map (\<lambda>(i, pr). (i,
      reset_progress (r_id r) (pt_MaxInflight (r_prs r)) la i pr)) (pt_Progress (r_prs r))\<rparr>,
    r_pendingConfIndex := 0, r_uncommittedSize := 0,
    r_readOnly := newReadOnly (ro_option (r_readOnly r)),
    r_step := Some StepCandidate, r_tick := Some TickElection, r_state := StateCandidate\<rparr>"

lemma campaign_election:
  assumes "raft_inv r" and "rl_lastIndex (r_raftLog r) = Some la"
  shows "campaign raw campaignElection r = Some (candidate_of raw la r)"
proof -
  have b: "becomeCandidate raw r = Some ((candidate_of raw la r)\<lparr>r_prs :=
      (r_prs (candidate_of raw la r))\<lparr>pt_Votes := []\<rparr>\<rparr>)"
    using assms reset_eq [of "r\<lparr>r_step := Some StepCandidate\<rparr>" la raw "r_Term r + 1"]
      randomized_bounds [of "r_electionTimeout r" raw]
    by (auto simp: becomeCandidate_def raft_inv_def candidate_of_def)
  show ?thesis
    unfolding campaign_def
    by (simp add: b voteRespMsgType_def poll_def Let_def RecordVote_def candidate_of_def)
qed

lemma campaign_prevote: "campaign raw campaignPreElection r = None"
  by (simp add: campaign_def voteRespMsgType_def)

lemma candidate_of_inv:
  assumes "raft_inv r" and "rl_lastIndex (r_raftLog r) = Some la"
  shows "raft_inv (candidate_of raw la r)"
  using assms randomized_bounds [of "r_electionTimeout r" raw]
  by (auto simp: raft_inv_def candidate_of_def tracker_wf_def)

lemma promotable_candidate_of [simp]: "promotable (candidate_of raw la r) = promotable r"
  by (auto simp: promotable_def candidate_of_def map_of_map_keyed split: option.split)

lemma Step_cases:
  assumes "raft_inv r" and "rl_lastIndex (r_raftLog r) = Some la"
  shows "Step raw m r =
    (if msg_Type m = MsgHup \<and> promotable r
     then if r_preVote r then None else Some (candidate_of raw la r)
     else Some r)"
  using assms campaign_election [OF assms] by (auto simp: Step_def campaign_prevote raft_inv_def)

lemma raft_inv_elapsed [simp]: "raft_inv (r\<lparr>r_electionElapsed := e\<rparr>) = raft_inv r"
  by (simp add: raft_inv_def)

lemma promotable_elapsed [simp]: "promotable (r\<lparr>r_electionElapsed := e\<rparr>) = promotable r"
  by (simp add: promotable_def)

lemma candidate_of_elapsed [simp]: "candidate_of raw la (r\<lparr>r_electionElapsed := e\<rparr>) = candidate_of raw la r"
  by (simp add: candidate_of_def)

lemma raft_tick_cases:
  assumes "raft_inv r" and "rl_lastIndex (r_raftLog r) = Some la"
  defines "e \<equiv> wrap_int (r_electionElapsed r + 1)"
  shows "raft_tick raw r =
    (if promotable r \<and> r_randomizedElectionTimeout r \<le> e
     then if r_preVote r then None else Some (candidate_of raw la r)
     else Some (r\<lparr>r_electionElapsed := e\<rparr>))"
proof -
  have "r_tick r = Some TickElection" using assms(1) by (simp add: raft_inv_def)
  with assms Step_cases [of "r\<lparr>r_electionElapsed := 0\<rparr>" la raw] show ?thesis
    by (simp add: raft_tick_def tickElection_def Let_def pastElectionTimeout_def)
qed

section \<open>Steps of a node\<close>

text \<open>Whatever happens to a node: its clock ticks, a message arrives, a configuration change is
  applied.\<close>

inductive raft_step :: "'s raft \<Rightarrow> 's raft \<Rightarrow> bool" where
  tick: "raft_tick raw r = Some r' \<Longrightarrow> raft_step r r'"
| message: "Step raw m r = Some r' \<Longrightarrow> raft_step r r'"
| confchange: "applyConfChange cc r = Some (cs, r') \<Longrightarrow> raft_step r r'"

inductive_cases raft_stepE: "raft_step r r'"

inductive raft_reachable :: "'s RaftConfig \<Rightarrow> 's raft \<Rightarrow> bool" for c where
  init: "newRaft raw c = Some r \<Longrightarrow> raft_reachable c r"
| step: "raft_reachable c r \<Longrightarrow> raft_step r r' \<Longrightarrow> raft_reachable c r'"

lemma applyConfChange_ok:
  assumes "applyConfChange cc r = Some (cs, r')" and "r_state r \<noteq> StateLeader"
  shows "\<exists>cfg prs la b. rl_lastIndex (r_raftLog r) = Some la \<and>
    Simple \<lparr>chg_Tracker = r_prs r, chg_LastIndex = la\<rparr> (cc2_Changes cc) = Some (Inr (cfg, prs)) \<and>
    r' = r\<lparr>r_prs := (r_prs r)\<lparr>pt_Config := cfg, pt_Progress := prs\<rparr>, r_isLearner := b\<rparr> \<and>
    b = (case map_of prs (r_id r) of None \<Rightarrow> False | Some p \<Rightarrow> pr_IsLearner p) \<and>
    cs = ProgressTracker_ConfState ((r_prs r)\<lparr>pt_Config := cfg, pt_Progress := prs\<rparr>)"
  using assms
  by (auto simp: applyConfChange_def must_Some switchToConfig_def Let_def bind_eq_Some_conv
      split: if_splits)

lemma applyConfChange_inv:
  assumes "raft_inv r" and "applyConfChange cc r = Some (cs, r')"
  shows "raft_inv r' \<and> r_Term r' = r_Term r \<and> r_Vote r' = r_Vote r \<and> r_state r' = r_state r"
proof -
  have "r_state r \<noteq> StateLeader" using assms(1) by (auto simp: raft_inv_def)
  from applyConfChange_ok [OF assms(2) this] obtain cfg prs la b where
    S: "Simple \<lparr>chg_Tracker = r_prs r, chg_LastIndex = la\<rparr> (cc2_Changes cc) = Some (Inr (cfg, prs))"
    and r': "r' = r\<lparr>r_prs := (r_prs r)\<lparr>pt_Config := cfg, pt_Progress := prs\<rparr>, r_isLearner := b\<rparr>"
    by blast
  have "maps_wf (cfg, prs)"
    using assms(1) by (intro Simple_maps_wf [OF _ S]) (simp add: raft_inv_def)
  with assms(1) show ?thesis
    by (auto simp: raft_inv_def r' tracker_wf_def maps_wf_def)
qed

lemma raft_step_cases:
  assumes "raft_inv r" and "raft_step r r'"
  shows "raft_inv r' \<and>
    (r_Term r' = r_Term r \<and> r_Vote r' = r_Vote r \<and> r_state r' = r_state r \<or>
     r_Term r' = r_Term r + 1 \<and> r_Vote r' = r_id r' \<and> r_state r' = StateCandidate)"
proof -
  obtain la where la: "rl_lastIndex (r_raftLog r) = Some la" using assms(1) by (auto simp: raft_inv_def)
  have c: "raft_inv (candidate_of raw la r)" "r_Term (candidate_of raw la r) = r_Term r + 1"
    "r_Vote (candidate_of raw la r) = r_id (candidate_of raw la r)"
    "r_state (candidate_of raw la r) = StateCandidate" for raw
    by (rule candidate_of_inv [OF assms(1) la]) (simp_all add: candidate_of_def)
  from assms(2) show ?thesis
  proof cases
    case (tick raw)
    then show ?thesis
      using assms(1) c by (auto simp: raft_tick_cases [OF assms(1) la] split: if_splits)
  next
    case (message raw m)
    then show ?thesis
      using assms(1) c by (auto simp: Step_cases [OF assms(1) la] split: if_splits)
  next
    case (confchange cc cs)
    then show ?thesis using applyConfChange_inv [OF assms(1)] by blast
  qed
qed

lemma newRaft_fields:
  assumes "newRaft raw c = Some r"
  shows "r_id r = rc_ID c \<and> r_Term r = 0 \<and> r_Vote r = None_id \<and> r_lead r = None_id \<and>
    r_state r = StateFollower \<and> r_prs r = MakeProgressTracker (rc_MaxInflightMsgs c) \<and>
    0 < rc_ElectionTick c \<and> r_electionTimeout r = rc_ElectionTick c \<and> r_preVote r = rc_PreVote c \<and>
    r_electionElapsed r = 0 \<and> r_tick r = Some TickElection \<and> r_step r = Some StepFollower \<and>
    r_randomizedElectionTimeout r = wrap_int (rc_ElectionTick c + int raw mod rc_ElectionTick c) \<and>
    rl_lastIndex (r_raftLog r) \<noteq> None \<and> rc_ID c \<noteq> None_id \<and>
    newLogWithSize (rc_ops c) (rc_Storage c) (rc_MaxCommittedSizePerReady c) = Some (r_raftLog r)"
  using assms
  by (auto simp: newRaft_def validate_def bind_eq_Some_conv becomeFollower_def reset_def loadState_def
      resetRandomizedElectionTimeout_def Intn_def abortLeaderTransfer_def ResetVotes_def Let_def
      MakeProgressTracker_def must_Some split: if_splits)

lemma newRaft_inv:
  assumes "newRaft raw c = Some r" and "rc_ElectionTick c < 2 ^ 62"
  shows "raft_inv r"
  using newRaft_fields [OF assms(1)] randomized_bounds [of "rc_ElectionTick c" raw] assms(2)
  by (auto simp: raft_inv_def)

lemma reachable_inv:
  "raft_reachable c r \<Longrightarrow> rc_ElectionTick c < 2 ^ 62 \<Longrightarrow> raft_inv r"
proof (induction rule: raft_reachable.induct)
  case (step r r')
  then show ?case using raft_step_cases by blast
qed (rule newRaft_inv)

section \<open>Ticking towards an election\<close>

text \<open>Several ticks, each with its own random draw.\<close>

fun ticks :: "nat list \<Rightarrow> 's raft \<Rightarrow> 's raft option" where
  "ticks [] r = Some r"
| "ticks (raw # raws) r = do { r \<leftarrow> raft_tick raw r; ticks raws r }"

lemma ticks_before_timeout:
  assumes "raft_inv r" and "0 \<le> r_electionElapsed r"
    and "r_electionElapsed r + int (length raws) < r_randomizedElectionTimeout r"
  shows "ticks raws r = Some (r\<lparr>r_electionElapsed := r_electionElapsed r + int (length raws)\<rparr>)"
  using assms
proof (induction raws arbitrary: r)
  case (Cons raw raws)
  let ?e = "r_electionElapsed r"
  obtain la where la: "rl_lastIndex (r_raftLog r) = Some la" using Cons.prems(1) by (auto simp: raft_inv_def)
  have b: "r_randomizedElectionTimeout r < 2 ^ 63" using Cons.prems(1) by (simp add: raft_inv_def)
  have w: "wrap_int (?e + 1) = ?e + 1" using Cons.prems b by (intro wrap_int_id) simp_all
  let ?r = "r\<lparr>r_electionElapsed := ?e + 1\<rparr>"
  have "raft_tick raw r = Some ?r"
    using raft_tick_cases [OF Cons.prems(1) la, of raw] w Cons.prems(3) by simp
  moreover have "ticks raws ?r = Some (?r\<lparr>r_electionElapsed := ?e + 1 + int (length raws)\<rparr>)"
    using Cons.IH [of ?r] Cons.prems by simp
  ultimately show ?case by (simp add: algebra_simps)
qed simp

lemma ticks_append: "ticks (xs @ ys) r = do { r \<leftarrow> ticks xs r; ticks ys r }"
proof (induction xs arbitrary: r)
  case (Cons x xs)
  then show ?case by (cases "raft_tick x r") simp_all
qed simp

lemma ticks_to_candidate:
  assumes "raft_inv r" and "promotable r" and "\<not> r_preVote r" and "0 \<le> r_electionElapsed r"
    and "r_electionElapsed r < r_randomizedElectionTimeout r"
    and "rl_lastIndex (r_raftLog r) = Some la"
    and "int (length raws) + 1 = r_randomizedElectionTimeout r - r_electionElapsed r"
  shows "ticks (raws @ [raw]) r = Some (candidate_of raw la r)"
proof -
  let ?r = "r\<lparr>r_electionElapsed := r_electionElapsed r + int (length raws)\<rparr>"
  have t: "ticks raws r = Some ?r" using assms by (intro ticks_before_timeout) simp_all
  have "r_randomizedElectionTimeout r < 2 ^ 63" using assms(1) by (simp add: raft_inv_def)
  then have "wrap_int (r_electionElapsed ?r + 1) = r_randomizedElectionTimeout r"
    using assms(4,7) by (subst wrap_int_id) simp_all
  then have "raft_tick raw ?r = Some (candidate_of raw la r)"
    using raft_tick_cases [of ?r la raw] assms(1,2,3,6) by simp
  with t show ?thesis by (simp add: ticks_append)
qed

section \<open>Properties\<close>

definition example_config :: "MemoryStorage RaftConfig" where
  "example_config = \<lparr>rc_ID = 7, rc_ElectionTick = 3, rc_HeartbeatTick = 1, rc_ops = memory_storage,
     rc_Storage = NewMemoryStorage, rc_Applied = 0, rc_MaxSizePerMsg = 1024,
     rc_MaxCommittedSizePerReady = 1024, rc_MaxUncommittedEntriesSize = 0, rc_MaxInflightMsgs = 16,
     rc_CheckQuorum = False, rc_PreVote = False, rc_ReadOnlyOption = 0,
     rc_DisableProposalForwarding = False\<rparr>"

definition add_node :: "u64 \<Rightarrow> ConfChangeV2" where
  "add_node i = AsV2 (V1 (ConfChange_zero\<lparr>cc_NodeID := i\<rparr>))"

definition example_raft :: "MemoryStorage RaftConfig \<Rightarrow> MemoryStorage raft" where
  "example_raft c = snd (the (applyConfChange (add_node 7) (the (newRaft 5 c))))"

lemma option_Some_the: "x \<noteq> None \<Longrightarrow> x = Some (the x)"
  by simp

lemma example_reachable:
  assumes "\<not> Option.is_none (newRaft 5 c)" and "\<not> Option.is_none (applyConfChange (add_node 7) (the (newRaft 5 c)))"
  shows "raft_reachable c (example_raft c)"
proof (rule raft_reachable.step)
  show "raft_reachable c (the (newRaft 5 c))"
    using assms(1) by (intro raft_reachable.init [of 5]) (simp add: Option.is_none_def)
  show "raft_step (the (newRaft 5 c)) (example_raft c)"
    using assms(2) unfolding example_raft_def
    by (intro raft_step.confchange [of "add_node 7" _ "fst (the (applyConfChange (add_node 7) (the (newRaft 5 c))))"])
      (simp add: Option.is_none_def)
qed

lemma example_reached: "raft_reachable example_config (example_raft example_config)"
  by (rule example_reachable; code_simp)









text \<open>With pre-vote enabled, the election timeout of a promotable node panics: the pre-vote
  branch of \<open>campaign\<close> leaves the vote message type at zero, which \<open>voteRespMsgType\<close> rejects.\<close>

lemma prevote_campaign_panics:
  assumes "raft_reachable c r" and "rc_ElectionTick c < 2 ^ 62" and "promotable r" and "r_preVote r"
    and "msg_Type m = MsgHup"
  shows "Step raw m r = None"
proof -
  have inv: "raft_inv r" using assms(1,2) by (rule reachable_inv)
  obtain la where "rl_lastIndex (r_raftLog r) = Some la" using inv by (auto simp: raft_inv_def)
  from Step_cases [OF inv this] assms(3-5) show ?thesis by simp
qed

lemma example_prevote_reached:
  "raft_reachable (example_config\<lparr>rc_PreVote := True\<rparr>) (example_raft (example_config\<lparr>rc_PreVote := True\<rparr>))"
  by (rule example_reachable; code_simp)

text \<open>The only voter of a cluster wins its own election and still stays a candidate without a
  leader, since the step to leader is missing.\<close>

lemma single_voter_stays_candidate:
  assumes "raft_reachable c r" and "rc_ElectionTick c < 2 ^ 62" and "promotable r" and "\<not> r_preVote r"
    and "cfg_Voters (pt_Config (r_prs r)) = (Some [r_id r], None)"
  shows "\<exists>r'. Step raw Message_zero r = Some r' \<and>
    snd (snd (TallyVotes (r_prs r'))) = VoteWon \<and> r_state r' = StateCandidate \<and> \<not> hasLeader r'"
proof -
  have inv: "raft_inv r" using assms(1,2) by (rule reachable_inv)
  obtain la where la: "rl_lastIndex (r_raftLog r) = Some la" using inv by (auto simp: raft_inv_def)
  have v: "JointConfig_VoteResult (Some [r_id r], None) [(r_id r, True)] = VoteWon"
    by (simp add: joint_result_cases MajorityConfig_VoteResult_def count_vote_def)
  have "msg_Type Message_zero = MsgHup" by (simp add: Message_zero_def)
  then have "Step raw Message_zero r = Some (candidate_of raw la r)"
    using Step_cases [OF inv la, of raw Message_zero] assms(3,4) by simp
  moreover have "snd (snd (TallyVotes (r_prs (candidate_of raw la r)))) = VoteWon"
    by (simp add: TallyVotes_def candidate_of_def assms(5) v split_def Let_def)
  ultimately show ?thesis by (simp add: candidate_of_def hasLeader_def)
qed

text \<open>A node that starts on a storage with a persisted hard state forgets its term and vote:
  \<open>loadState\<close> restores nothing, so the node starts at term 0 with no vote.\<close>

lemma restart_forgets_hard_state:
  assumes "newRaft raw c = Some r" and "rc_ops c = memory_storage"
    and "rc_Storage c = ms_SetHardState hs ms"
  shows "(\<exists>cs. st_InitialState (rc_ops c) (rc_Storage c) = Some (Inr (hs, cs))) \<and>
    hs_Term (hardState r) = 0 \<and> hs_Vote (hardState r) = None_id"
  using newRaft_fields [OF assms(1)] assms(2,3)
  by (simp add: hardState_def HardState_zero_def memory_storage_def ms_InitialState_def ms_SetHardState_def)

definition example_restart :: "MemoryStorage RaftConfig" where
  "example_restart = example_config\<lparr>rc_Storage :=
     ms_SetHardState (HardState_zero\<lparr>hs_Term := 9, hs_Vote := 4\<rparr>) NewMemoryStorage\<rparr>"

text \<open>Applying a configuration change panics exactly when \<open>Simple\<close> fails; otherwise the node
  switches to the new configuration and returns it with its voters sorted.\<close>

lemma applyConfChange_result:
  assumes "raft_reachable c r" and "rc_ElectionTick c < 2 ^ 62" and "rl_lastIndex (r_raftLog r) = Some la"
  shows "case Simple \<lparr>chg_Tracker = r_prs r, chg_LastIndex = la\<rparr> (cc2_Changes cc) of
      Some (Inr (cfg, prs)) \<Rightarrow>
        (\<exists>cs r'. applyConfChange cc r = Some (cs, r') \<and> pt_Config (r_prs r') = cfg \<and>
           pt_Progress (r_prs r') = prs \<and> cs_Voters cs = sort (keys_of (fst (cfg_Voters cfg))) \<and>
           conf_inv cfg prs)
    | _ \<Rightarrow> applyConfChange cc r = None"
proof -
  let ?S = "Simple \<lparr>chg_Tracker = r_prs r, chg_LastIndex = la\<rparr> (cc2_Changes cc)"
  have inv: "raft_inv r" using assms(1,2) by (rule reachable_inv)
  have nl: "r_state r \<noteq> StateLeader" using inv by (auto simp: raft_inv_def)
  have A: "applyConfChange cc r = do { (cfg, prs) \<leftarrow> must ?S; Some (switchToConfig cfg prs r) }"
    by (simp add: applyConfChange_def assms(3))
  show ?thesis
  proof (cases "\<exists>cfg prs. ?S = Some (Inr (cfg, prs))")
    case True
    then obtain cfg prs where S: "?S = Some (Inr (cfg, prs))" by blast
    have "tracker_wf (chg_Tracker \<lparr>chg_Tracker = r_prs r, chg_LastIndex = la\<rparr>)"
      using inv by (simp add: raft_inv_def)
    then have "conf_inv cfg prs" using S by (rule Simple_ok)
    with S A nl show ?thesis
      by (auto simp: switchToConfig_def Let_def ProgressTracker_ConfState_def MajorityConfig_Slice_def)
  next
    case False
    then show ?thesis using A by (auto split: option.splits sum.splits)
  qed
qed

end
