(* ===== verification/Raw_Node.thy ===== *)
theory Raw_Node
  imports Raft_Core
begin

text \<open>
  \<open>raft/rawnode.go\<close>, \<open>raft/bootstrap.go\<close> and the \<open>Ready\<close> part of \<open>raft/node.go\<close>: a raft
  node together with the states last handed to the application, and the start of a new cluster.
\<close>

section \<open>Ready\<close>

record Ready =
  rd_SoftState :: "SoftState option"
  rd_HardState :: HardState
  rd_ReadStates :: "ReadState list"
  rd_Entries :: "Entry list"
  rd_Snapshot :: Snapshot
  rd_CommittedEntries :: "Entry list"
  rd_Messages :: "Message list"
  rd_MustSync :: bool

definition SoftState_equal :: "SoftState \<Rightarrow> SoftState \<Rightarrow> bool" where
  "SoftState_equal a b \<longleftrightarrow> ss_Lead a = ss_Lead b \<and> ss_RaftState a = ss_RaftState b"

definition emptyState :: HardState where
  "emptyState = HardState_zero"

definition IsEmptyHardState :: "HardState \<Rightarrow> bool" where
  "IsEmptyHardState st \<longleftrightarrow> isHardStateEqual st emptyState"

definition IsEmptySnap :: "Snapshot \<Rightarrow> bool" where
  "IsEmptySnap sp \<longleftrightarrow> sm_Index (snap_Metadata sp) = 0"

definition MustSync :: "HardState \<Rightarrow> HardState \<Rightarrow> nat \<Rightarrow> bool" where
  "MustSync st prevst entsnum \<longleftrightarrow>
     entsnum \<noteq> 0 \<or> hs_Vote st \<noteq> hs_Vote prevst \<or> hs_Term st \<noteq> hs_Term prevst"

definition newReady :: "'s raft \<Rightarrow> SoftState \<Rightarrow> HardState \<Rightarrow> Ready option" where
  "newReady r prevSoftSt prevHardSt =
     do { ents \<leftarrow> rl_nextEnts (r_raftLog r);
          let entries = rl_unstableEntries (r_raftLog r);
          Some \<lparr>rd_SoftState = (if \<not> SoftState_equal (softState r) prevSoftSt then Some (softState r) else None),
            rd_HardState = (if \<not> isHardStateEqual (hardState r) prevHardSt then hardState r else HardState_zero),
            rd_ReadStates = (if length (r_readStates r) \<noteq> 0 then r_readStates r else []),
            rd_Entries = entries,
            rd_Snapshot = (case un_snapshot (rl_unstable (r_raftLog r)) of None \<Rightarrow> Snapshot_zero | Some s \<Rightarrow> s),
            rd_CommittedEntries = ents,
            rd_Messages = r_msgs r,
            rd_MustSync = MustSync (hardState r) prevHardSt (length entries)\<rparr> }"

section \<open>RawNode\<close>

record 's RawNode =
  rn_raft :: "'s raft"
  rn_prevSoftSt :: SoftState
  rn_prevHardSt :: HardState

definition NewRawNode :: "nat \<Rightarrow> 's RaftConfig \<Rightarrow> 's RawNode option" where
  "NewRawNode raw c =
     (if rc_ID c = 0 then None
      else do { r \<leftarrow> newRaft raw c;
                Some \<lparr>rn_raft = r, rn_prevSoftSt = softState r, rn_prevHardSt = hardState r\<rparr> })"

definition RawNode_Tick :: "nat \<Rightarrow> 's RawNode \<Rightarrow> 's RawNode option" where
  "RawNode_Tick raw rn = do { r \<leftarrow> raft_tick raw (rn_raft rn); Some (rn\<lparr>rn_raft := r\<rparr>) }"

definition readyWithoutAccept :: "'s RawNode \<Rightarrow> Ready option" where
  "readyWithoutAccept rn = newReady (rn_raft rn) (rn_prevSoftSt rn) (rn_prevHardSt rn)"

definition acceptReady :: "Ready \<Rightarrow> 's RawNode \<Rightarrow> 's RawNode" where
  "acceptReady rd rn =
     (let rn = (case rd_SoftState rd of None \<Rightarrow> rn | Some s \<Rightarrow> rn\<lparr>rn_prevSoftSt := s\<rparr>);
          rn = (if length (rd_ReadStates rd) \<noteq> 0
                then rn\<lparr>rn_raft := (rn_raft rn)\<lparr>r_readStates := []\<rparr>\<rparr> else rn)
      in rn\<lparr>rn_raft := (rn_raft rn)\<lparr>r_msgs := []\<rparr>\<rparr>)"

definition RawNode_Ready :: "'s RawNode \<Rightarrow> (Ready \<times> 's RawNode) option" where
  "RawNode_Ready rn = do { rd \<leftarrow> readyWithoutAccept rn; Some (rd, acceptReady rd rn) }"

definition HasReady :: "'s RawNode \<Rightarrow> bool option" where
  "HasReady rn =
     (let r = rn_raft rn in
      if \<not> SoftState_equal (softState r) (rn_prevSoftSt rn) then Some True
      else if \<not> IsEmptyHardState (hardState r) \<and> \<not> isHardStateEqual (hardState r) (rn_prevHardSt rn)
      then Some True
      else if (case un_snapshot (rl_unstable (r_raftLog r)) of None \<Rightarrow> False | Some s \<Rightarrow> \<not> IsEmptySnap s)
      then Some True
      else if 0 < length (r_msgs r) \<or> 0 < length (rl_unstableEntries (r_raftLog r)) then Some True
      else do { next \<leftarrow> rl_hasNextEnts (r_raftLog r);
                if next then Some True else Some (length (r_readStates r) \<noteq> 0) })"

section \<open>Bootstrap\<close>

record Peer =
  peer_ID :: u64
  peer_Context :: "bytes option"

datatype bootstrap_error = ErrNoPeers | ErrNonemptyStorage | ErrStorage storage_error

text \<open>The loop that turns the peers into log entries, from position \<open>i\<close>.\<close>

fun bootstrap_ents :: "nat \<Rightarrow> Peer list \<Rightarrow> Entry list option" where
  "bootstrap_ents i [] = Some []"
| "bootstrap_ents i (peer # peers) =
     do { data \<leftarrow> ConfChange_Marshal (ConfChange_zero\<lparr>cc_Type := ConfChangeAddNode,
            cc_NodeID := peer_ID peer, cc_Context := peer_Context peer\<rparr>);
          rest \<leftarrow> bootstrap_ents (i + 1) peers;
          Some (\<lparr>ent_Term = 1, ent_Index = of_nat (i + 1), ent_Type = EntryConfChange,
                 ent_Data = Some data, ent_XXX = None\<rparr> # rest) }"

fun bootstrap_apply :: "Peer list \<Rightarrow> 's raft \<Rightarrow> 's raft option" where
  "bootstrap_apply [] r = Some r"
| "bootstrap_apply (peer # peers) r =
     do { (cs, r) \<leftarrow> applyConfChange (AsV2 (V1 (ConfChange_zero\<lparr>cc_NodeID := peer_ID peer,
            cc_Type := ConfChangeAddNode\<rparr>))) r;
          bootstrap_apply peers r }"

definition Bootstrap :: "nat \<Rightarrow> Peer list \<Rightarrow> 's RawNode \<Rightarrow> (bootstrap_error + 's RawNode) option" where
  "Bootstrap raw peers rn =
     (if length peers = 0 then Some (Inl ErrNoPeers)
      else do {
        li \<leftarrow> st_LastIndex (rl_ops (r_raftLog (rn_raft rn))) (rl_storage (r_raftLog (rn_raft rn)));
        (case li of
           Inl e \<Rightarrow> Some (Inl (ErrStorage e))
         | Inr lastIndex \<Rightarrow>
             (if lastIndex \<noteq> 0 then Some (Inl ErrNonemptyStorage)
              else do {
                r \<leftarrow> becomeFollower raw 1 None_id (rn_raft rn);
                ents \<leftarrow> bootstrap_ents 0 peers;
                (_, lg) \<leftarrow> rl_append ents (r_raftLog r);
                let r = r\<lparr>r_raftLog := lg\<lparr>rl_committed := of_nat (length ents)\<rparr>\<rparr>;
                r \<leftarrow> bootstrap_apply peers r;
                Some (Inr (rn\<lparr>rn_raft := r, rn_prevHardSt := emptyState\<rparr>)) })) })"

section \<open>Starting a cluster\<close>

text \<open>A simple configuration whose progress map tracks exactly the voters, none a learner.\<close>

definition plain_conf :: "u64 list \<Rightarrow> ProgressTracker \<Rightarrow> bool" where
  "plain_conf ks p \<longleftrightarrow> tracker_wf p \<and> simple_conf ks (pt_Config p, pt_Progress p) \<and>
     set (map_keys (pt_Progress p)) = set ks \<and> (\<forall>pr \<in> snd ` set (pt_Progress p). \<not> pr_IsLearner pr)"

lemma set_fold_insert_ids: "set (fold List.insert xs ys) = set xs \<union> set ys"
  by (induction xs arbitrary: ys) auto

lemma plain_conf_voters: "plain_conf ks p \<Longrightarrow> set (VoterNodes p) = set ks"
  by (simp add: plain_conf_def simple_conf_def VoterNodes_def JointConfig_IDs_set)

lemma plain_conf_promotable:
  assumes "plain_conf ks (r_prs r)"
  shows "promotable r \<longleftrightarrow> r_id r \<in> set ks"
proof (cases "map_of (pt_Progress (r_prs r)) (r_id r)")
  case None
  then have "r_id r \<notin> set ks" using assms map_of_None_keys by (metis plain_conf_def)
  with None show ?thesis by (simp add: promotable_def)
next
  case (Some pr)
  then have "\<not> pr_IsLearner pr" using assms by (metis plain_conf_def map_of_SomeD image_eqI snd_conv)
  moreover have "r_id r \<in> set ks" using map_of_in_keys [OF Some] assms by (simp add: plain_conf_def)
  ultimately show ?thesis using Some by (simp add: promotable_def)
qed

lemma makeVoter_progress:
  assumes "makeVoter c i (cfg, prs) = Some (cfg', prs')"
  shows "set (map_keys prs') = insert i (set (map_keys prs))"
    and "(\<forall>pr \<in> snd ` set prs. \<not> pr_IsLearner pr) \<Longrightarrow> \<forall>pr \<in> snd ` set prs'. \<not> pr_IsLearner pr"
proof -
  obtain pr where p: "prs' = AList.update i pr prs" "\<not> pr_IsLearner pr"
    using assms by (auto simp: makeVoter_def initProgress_def bind_eq_Some_conv split: option.splits)
  show "set (map_keys prs') = insert i (set (map_keys prs))"
    by (auto simp: p update_keys)
  show "(\<forall>pr \<in> snd ` set prs. \<not> pr_IsLearner pr) \<Longrightarrow> \<forall>pr \<in> snd ` set prs'. \<not> pr_IsLearner pr"
  proof -
    have "snd ` set (AList.update i pr prs) \<subseteq> insert pr (snd ` set prs)"
      by (induction prs) auto
    then show "(\<forall>pr \<in> snd ` set prs. \<not> pr_IsLearner pr) \<Longrightarrow> ?thesis" using p by blast
  qed
qed

lemma Simple_add_plain:
  assumes "plain_conf ks p" and "i \<noteq> 0"
  shows "\<exists>cfg prs. Simple \<lparr>chg_Tracker = p, chg_LastIndex = la\<rparr>
      [ConfChangeSingle_zero\<lparr>ccs_Type := ConfChangeAddNode, ccs_NodeID := i\<rparr>] = Some (Inr (cfg, prs)) \<and>
    plain_conf (List.insert i ks) (p\<lparr>pt_Config := cfg, pt_Progress := prs\<rparr>)"
proof -
  let ?c = "\<lparr>chg_Tracker = p, chg_LastIndex = la\<rparr>"
  let ?cc = "ConfChangeSingle_zero\<lparr>ccs_Type := ConfChangeAddNode, ccs_NodeID := i\<rparr>"
  have v: "cfg_Voters (pt_Config p) = (Some ks, None)" and inv: "conf_inv (pt_Config p) (pt_Progress p)"
    and wf: "tracker_wf p"
    using assms(1) by (simp_all add: plain_conf_def simple_conf_def)
  have al: "\<not> cfg_AutoLeave (pt_Config p)" using inv v by (simp add: conf_inv_def)
  then have cl: "Config_Clone (pt_Config p) = pt_Config p"
    unfolding Config_Clone_drops_AutoLeave by (cases "pt_Config p") simp
  have f: "find refused [?cc] = None" "added [?cc] = [i]"
    using assms(2) by (simp_all add: refused_def added_def ConfChangeSingle_zero_def)
  have "card (set [i] - set ks) \<le> 1" using card_mono [of "{i}" "set [i] - set ks"] by simp
  then obtain cfg prs where S: "Simple ?c [?cc] = Some (Inr (cfg, prs))"
    and sc: "simple_conf (List.insert i ks) (cfg, prs)"
    using Simple_cases [of ?c ks "[?cc]"] wf inv v cl f by auto
  have mw: "maps_wf (cfg, prs)" using wf S by (intro Simple_maps_wf [OF _ S]) simp
  have "apply_changes ?c [?cc] (pt_Config p, pt_Progress p) = Some (Inr (cfg, prs))"
    using S cl by (auto simp: Simple_def go_bind_ok checkAndCopy_def checkAndReturn_ok Changer_apply_def
        split: if_splits)
  then have "makeVoter ?c i (pt_Config p, pt_Progress p) = Some (cfg, prs)"
    using assms(2) by (auto simp: ConfChangeSingle_zero_def bind_eq_Some_conv)
  from makeVoter_progress [OF this] assms(1) S sc mw wf show ?thesis
    by (auto simp: plain_conf_def tracker_wf_def maps_wf_def)
qed

lemma bootstrap_apply_ok:
  assumes "plain_conf ks (r_prs r)" and "\<forall>p \<in> set peers. peer_ID p \<noteq> 0"
    and "rl_lastIndex (r_raftLog r) = Some la" and "r_state r \<noteq> StateLeader"
  shows "\<exists>p b. bootstrap_apply peers r = Some (r\<lparr>r_prs := p, r_isLearner := b\<rparr>) \<and>
    plain_conf (fold List.insert (map peer_ID peers) ks) p \<and> pt_Votes p = pt_Votes (r_prs r) \<and>
    pt_MaxInflight p = pt_MaxInflight (r_prs r)"
  using assms
proof (induction peers arbitrary: ks r)
  case Nil
  then show ?case by (intro exI [of _ "r_prs r"] exI [of _ "r_isLearner r"]) simp
next
  case (Cons peer peers)
  let ?cc = "AsV2 (V1 (ConfChange_zero\<lparr>cc_NodeID := peer_ID peer, cc_Type := ConfChangeAddNode\<rparr>))"
  obtain cfg prs where S: "Simple \<lparr>chg_Tracker = r_prs r, chg_LastIndex = la\<rparr> (cc2_Changes ?cc) = Some (Inr (cfg, prs))"
    and pc: "plain_conf (List.insert (peer_ID peer) ks) ((r_prs r)\<lparr>pt_Config := cfg, pt_Progress := prs\<rparr>)"
    using Simple_add_plain [OF Cons.prems(1), of "peer_ID peer" la] Cons.prems(2) by auto
  obtain b where A: "\<exists>cs. applyConfChange ?cc r = Some (cs, r\<lparr>r_prs := (r_prs r)\<lparr>pt_Config := cfg, pt_Progress := prs\<rparr>,
      r_isLearner := b\<rparr>)"
    using S Cons.prems(3,4) by (simp add: applyConfChange_def switchToConfig_def Let_def del: AsV2.simps)
  let ?r = "r\<lparr>r_prs := (r_prs r)\<lparr>pt_Config := cfg, pt_Progress := prs\<rparr>, r_isLearner := b\<rparr>"
  have "\<exists>p b. bootstrap_apply peers ?r = Some (?r\<lparr>r_prs := p, r_isLearner := b\<rparr>) \<and>
    plain_conf (fold List.insert (map peer_ID peers) (List.insert (peer_ID peer) ks)) p \<and>
    pt_Votes p = pt_Votes (r_prs ?r) \<and> pt_MaxInflight p = pt_MaxInflight (r_prs ?r)"
    using Cons.prems pc by (intro Cons.IH) simp_all
  then obtain p b' where "bootstrap_apply peers ?r = Some (?r\<lparr>r_prs := p, r_isLearner := b'\<rparr>)"
    "plain_conf (fold List.insert (map peer_ID peers) (List.insert (peer_ID peer) ks)) p"
    "pt_Votes p = pt_Votes (r_prs ?r)" "pt_MaxInflight p = pt_MaxInflight (r_prs ?r)" by blast
  with A show ?case
    by (intro exI [of _ p] exI [of _ b']) (auto simp del: AsV2.simps)
qed

lemma bootstrap_ents_ok:
  "\<exists>ents. bootstrap_ents i peers = Some ents \<and> length ents = length peers \<and>
    (i + length peers < 2 ^ 64 \<longrightarrow> numbered (i + 1) ents) \<and>
    (\<forall>k < length peers. ent_Term (ents ! k) = 1 \<and> ent_Type (ents ! k) = EntryConfChange \<and>
       ent_Data (ents ! k) = ConfChange_Marshal (ConfChange_zero\<lparr>cc_Type := ConfChangeAddNode,
            cc_NodeID := peer_ID (peers ! k), cc_Context := peer_Context (peers ! k)\<rparr>))"
proof (induction peers arbitrary: i)
  case (Cons peer peers)
  let ?cc = "ConfChange_zero\<lparr>cc_Type := ConfChangeAddNode, cc_NodeID := peer_ID peer, cc_Context := peer_Context peer\<rparr>"
  have m: "ConfChange_Marshal ?cc = Some (ConfChange_bytes ?cc)"
    by (simp add: ConfChange_Marshal_def conf_change.marshal_exact)
  from Cons [of "i + 1"] obtain ents where e: "bootstrap_ents (i + 1) peers = Some ents"
    "length ents = length peers" "i + 1 + length peers < 2 ^ 64 \<longrightarrow> numbered (i + 1 + 1) ents"
    "\<forall>k < length peers. ent_Term (ents ! k) = 1 \<and> ent_Type (ents ! k) = EntryConfChange \<and>
       ent_Data (ents ! k) = ConfChange_Marshal (ConfChange_zero\<lparr>cc_Type := ConfChangeAddNode,
            cc_NodeID := peer_ID (peers ! k), cc_Context := peer_Context (peers ! k)\<rparr>)" by blast
  let ?e = "\<lparr>ent_Term = 1, ent_Index = of_nat (i + 1), ent_Type = EntryConfChange,
                 ent_Data = Some (ConfChange_bytes ?cc), ent_XXX = None\<rparr> :: Entry"
  have "i + length (peer # peers) < 2 ^ 64 \<longrightarrow> numbered (i + 1) (?e # ents)"
    using e(3) unat_of_nat_64 [of "i + 1"] by (simp add: numbered_Cons del: of_nat_Suc of_nat_add)
  moreover have "bootstrap_ents i (peer # peers) = Some (?e # ents)" using m e(1) by simp
  moreover have "k < length (peer # peers) \<Longrightarrow> ent_Term ((?e # ents) ! k) = 1 \<and>
       ent_Type ((?e # ents) ! k) = EntryConfChange \<and>
       ent_Data ((?e # ents) ! k) = ConfChange_Marshal (ConfChange_zero\<lparr>cc_Type := ConfChangeAddNode,
            cc_NodeID := peer_ID ((peer # peers) ! k), cc_Context := peer_Context ((peer # peers) ! k)\<rparr>)" for k
    using e(4) m by (cases k) simp_all
  ultimately show ?case using e(2) by (intro exI [of _ "?e # ents"]) simp
qed simp

lemma new_storage:
  "ms_wf NewMemoryStorage" "ms_abs NewMemoryStorage = \<lparr>al_index = 0, al_term = 0, al_ents = []\<rparr>"
  by (simp_all add: ms_wf_def ms_abs_def NewMemoryStorage_def Entry_zero_def al_wf_def al_last_def)

text \<open>The log of a bootstrapped node: one configuration change per peer, all committed.\<close>

lemma bootstrap_log:
  assumes "newLogWithSize memory_storage NewMemoryStorage maxSize = Some l"
    and "numbered 1 ents" and "ents \<noteq> []" and "length ents < 2 ^ 62"
  shows "\<exists>i l'. rl_append ents l = Some (i, l') \<and>
    mem_log_wf (l'\<lparr>rl_committed := of_nat (length ents)\<rparr>) \<and>
    al_ents (mem_log (l'\<lparr>rl_committed := of_nat (length ents)\<rparr>)) = ents \<and>
    al_index (mem_log l') = 0"
proof -
  have l: "mem_log_wf l" "mem_log l = \<lparr>al_index = 0, al_term = 0, al_ents = []\<rparr>" "rl_committed l = 0"
    "rl_storage l = NewMemoryStorage" "un_entries (rl_unstable l) = []"
    using mem.newLog_abs [OF new_storage(1), of maxSize] assms(1) new_storage(2)
    by (auto simp: unsigned_eq_0_iff)
  from mem.rl_append_abs [OF l(1) assms(2,3)] assms(4) l(2-5) new_storage(2)
  obtain l' where l': "rl_append ents l = Some (of_nat (length ents), l')" "mem_log_wf l'"
    "mem_log l' = al_append ents \<lparr>al_index = 0, al_term = 0, al_ents = []\<rparr>"
    "rl_applied l' = rl_applied l"
    by (auto simp: al_last_def)
  have a: "al_append ents \<lparr>al_index = 0, al_term = 0, al_ents = []\<rparr>
      = \<lparr>al_index = 0, al_term = 0, al_ents = ents\<rparr>"
    using al_append_tail [of "\<lparr>al_index = 0, al_term = 0, al_ents = []\<rparr>" 1 ents] assms(2,3)
    by (simp add: al_wf_def al_last_def)
  have ap: "rl_applied l = 0" using l(1,3) by (simp add: rl_wf_def)
  have n: "unat (of_nat (length ents) :: u64) = length ents" using assms(4) by (intro unat_of_nat_64) simp
  have "mem_log (l'\<lparr>rl_committed := of_nat (length ents)\<rparr>) = mem_log l'" by (simp add: rl_abs_def)
  with l' a ap n show ?thesis by (simp add: rl_wf_def rl_abs_def al_last_def)
qed

lemma limitSize_Nil_iff [simp]: "limitSize es m = [] \<longleftrightarrow> es = []"
  using limitSize_prefix [of es m] by (cases es) auto

lemma ConfChange_size_bound:
  assumes "length (raw_bytes x) < 2 ^ 62"
  shows "ConfChange_Size (ConfChange_zero\<lparr>cc_Type := t, cc_NodeID := i, cc_Context := x\<rparr>) < 2 ^ 63"
proof -
  have "sovRaft w \<le> 10" for w by (rule sovRaft_max)
  then have "opt_bytes_size x \<le> 11 + length (raw_bytes x)"
    by (cases x) (simp_all add: opt_bytes_size_def raw_bytes_def add.commute add_mono)
  moreover have "sovRaft (0 :: u64) \<le> 10" "sovRaft i \<le> 10" "sovRaft (scast t) \<le> 10"
    by (rule sovRaft_max)+
  ultimately show ?thesis
    using assms by (simp add: ConfChange_Size_def ConfChange_zero_def unrecognized_size_def)
qed

lemma Bootstrap_ok:
  fixes c :: "MemoryStorage RaftConfig"
  assumes new: "NewRawNode raw0 c = Some rn" and st: "rc_ops c = memory_storage" "rc_Storage c = NewMemoryStorage"
    and ne: "peers \<noteq> []" and ids: "\<forall>p \<in> set peers. peer_ID p \<noteq> 0" and len: "length peers < 2 ^ 62"
  obtains rn' ents p where "Bootstrap raw peers rn = Some (Inr rn')"
    and "bootstrap_ents 0 peers = Some ents" and "length ents = length peers"
    and "mem_log_wf (r_raftLog (rn_raft rn'))" and "al_ents (mem_log (r_raftLog (rn_raft rn'))) = ents"
    and "al_index (mem_log (r_raftLog (rn_raft rn'))) = 0"
    and "rl_committed (r_raftLog (rn_raft rn')) = of_nat (length peers)"
    and "r_Term (rn_raft rn') = 1" and "r_state (rn_raft rn') = StateFollower" and "r_id (rn_raft rn') = rc_ID c"
    and "r_electionElapsed (rn_raft rn') = 0" and "r_electionTimeout (rn_raft rn') = rc_ElectionTick c"
    and "plain_conf (fold List.insert (map peer_ID peers) []) (r_prs (rn_raft rn'))"
proof -
  let ?r0 = "rn_raft rn"
  obtain e0: "newRaft raw0 c = Some ?r0"
    using new by (auto simp: NewRawNode_def bind_eq_Some_conv split: if_splits)
  note r0 = newRaft_fields [OF e0]
  let ?l0 = "r_raftLog ?r0"
  have log: "newLogWithSize memory_storage NewMemoryStorage (rc_MaxCommittedSizePerReady c) = Some ?l0"
    using r0 st by simp
  have ops: "rl_ops ?l0 = memory_storage" "rl_storage ?l0 = NewMemoryStorage"
    using mem.newLog_abs [OF new_storage(1), of "rc_MaxCommittedSizePerReady c"] log
    by (auto simp: rl_wf_def)
  have "st_LastIndex (rl_ops ?l0) (rl_storage ?l0) = Some (Inr 0)"
    using mem.LastIndex [OF new_storage(1)] by (simp add: ops new_storage(2) al_last_def)
  moreover obtain la where la: "rl_lastIndex ?l0 = Some la" using r0 by auto
  let ?r1 = "?r0\<lparr>r_step := Some StepFollower\<rparr>"
  have "\<exists>r2. reset raw 1 ?r1 = Some r2 \<and> r_prs r2 = MakeProgressTracker (rc_MaxInflightMsgs c) \<and> r_Term r2 = 1 \<and>
      r_raftLog r2 = ?l0 \<and> r_id r2 = rc_ID c \<and> r_electionElapsed r2 = 0 \<and> r_electionTimeout r2 = rc_ElectionTick c"
  proof -
    have "tracker_wf (r_prs ?r1)" using r0 by simp
    from reset_eq [OF this, of la raw 1] r0 la show ?thesis by (auto simp: MakeProgressTracker_def)
  qed
  then obtain r2 where b: "becomeFollower raw 1 None_id ?r0 = Some r2"
    and r2: "r_prs r2 = MakeProgressTracker (rc_MaxInflightMsgs c)" "r_Term r2 = 1" "r_raftLog r2 = ?l0"
      "r_id r2 = rc_ID c" "r_state r2 = StateFollower" "r_electionElapsed r2 = 0" "r_electionTimeout r2 = rc_ElectionTick c"
    by (auto simp: becomeFollower_def)
  obtain ents where e: "bootstrap_ents 0 peers = Some ents" "length ents = length peers" "numbered 1 ents"
    using bootstrap_ents_ok [of 0 peers] len by auto
  then have "ents \<noteq> []" "length ents < 2 ^ 62" using ne len by auto
  from bootstrap_log [OF log e(3) this] obtain i l' where l': "rl_append ents ?l0 = Some (i, l')"
    "mem_log_wf (l'\<lparr>rl_committed := of_nat (length ents)\<rparr>)"
    "al_ents (mem_log (l'\<lparr>rl_committed := of_nat (length ents)\<rparr>)) = ents" "al_index (mem_log l') = 0"
    by blast
  let ?l = "l'\<lparr>rl_committed := of_nat (length ents)\<rparr>" let ?r3 = "r2\<lparr>r_raftLog := ?l\<rparr>"
  obtain la' where la': "rl_lastIndex ?l = Some la'" using mem.rl_indices(2) [OF l'(2)] by blast
  have "plain_conf [] (r_prs ?r3)"
    by (simp add: plain_conf_def r2 simple_conf_def MakeProgressTracker_def conf_inv_def tracker_wf_def
        joint_wf_def JointConfig_IDs_def)
  from bootstrap_apply_ok [OF this ids] la' r2(5) obtain p bl where
    "bootstrap_apply peers ?r3 = Some (?r3\<lparr>r_prs := p, r_isLearner := bl\<rparr>)"
    and pc: "plain_conf (fold List.insert (map peer_ID peers) []) p" by auto
  ultimately have "Bootstrap raw peers rn = Some (Inr (rn\<lparr>rn_raft := ?r3\<lparr>r_prs := p, r_isLearner := bl\<rparr>,
      rn_prevHardSt := emptyState\<rparr>))"
    using ne e l'(1) b r2(3) by (simp add: Bootstrap_def Let_def)
  from that [OF this e(1,2)] l' r2 e(2) pc show thesis by (simp add: rl_abs_def)
qed

section \<open>Properties\<close>

text \<open>Starting a cluster on an empty storage writes one committed configuration change per
  peer, each of which decodes to that peer, and configures exactly the peers as voters; the node is
  a follower at term 1 and can be promoted exactly when it is one of the peers.\<close>

lemma Bootstrap_result:
  fixes c :: "MemoryStorage RaftConfig"
  assumes "NewRawNode raw0 c = Some rn" and "rc_ops c = memory_storage" and "rc_Storage c = NewMemoryStorage"
    and "peers \<noteq> []" and "\<forall>p \<in> set peers. peer_ID p \<noteq> 0 \<and> length (raw_bytes (peer_Context p)) < 2 ^ 62"
    and "length peers < 2 ^ 62"
  shows "\<exists>rn'. Bootstrap raw peers rn = Some (Inr rn') \<and> (let r = rn_raft rn' in
    r_Term r = 1 \<and> r_state r = StateFollower \<and> mem_log_wf (r_raftLog r) \<and>
    unat (rl_committed (r_raftLog r)) = length peers \<and> al_last (mem_log (r_raftLog r)) = length peers \<and>
    (\<forall>k < length peers. \<exists>e bs. al_get (mem_log (r_raftLog r)) (k + 1) = Some e \<and>
       ent_Type e = EntryConfChange \<and> ent_Term e = 1 \<and> ent_Data e = Some bs \<and>
       ConfChange_Unmarshal bs ConfChange_zero = Some (Inr (ConfChange_zero\<lparr>cc_Type := ConfChangeAddNode,
         cc_NodeID := peer_ID (peers ! k), cc_Context := peer_Context (peers ! k)\<rparr>))) \<and>
    set (VoterNodes (r_prs r)) = peer_ID ` set peers \<and>
    (promotable r \<longleftrightarrow> r_id r \<in> peer_ID ` set peers))"
proof -
  have ids: "\<forall>p \<in> set peers. peer_ID p \<noteq> 0" using assms(5) by blast
  obtain rn' ents where B: "Bootstrap raw peers rn = Some (Inr rn')" "bootstrap_ents 0 peers = Some ents"
    "length ents = length peers" "mem_log_wf (r_raftLog (rn_raft rn'))"
    "al_ents (mem_log (r_raftLog (rn_raft rn'))) = ents" "al_index (mem_log (r_raftLog (rn_raft rn'))) = 0"
    "rl_committed (r_raftLog (rn_raft rn')) = of_nat (length peers)"
    "r_Term (rn_raft rn') = 1" "r_state (rn_raft rn') = StateFollower"
    and pc: "plain_conf (fold List.insert (map peer_ID peers) []) (r_prs (rn_raft rn'))"
    by (rule Bootstrap_ok [OF assms(1-4) ids assms(6), of raw])
  let ?r = "rn_raft rn'" let ?a = "mem_log (r_raftLog ?r)"
  have n: "unat (of_nat (length peers) :: u64) = length peers" using assms(6) by (intro unat_of_nat_64) simp
  have ent: "\<exists>e bs. al_get ?a (k + 1) = Some e \<and> ent_Type e = EntryConfChange \<and> ent_Term e = 1 \<and>
      ent_Data e = Some bs \<and> ConfChange_Unmarshal bs ConfChange_zero = Some (Inr (ConfChange_zero
         \<lparr>cc_Type := ConfChangeAddNode, cc_NodeID := peer_ID (peers ! k), cc_Context := peer_Context (peers ! k)\<rparr>))"
    if k: "k < length peers" for k
  proof -
    let ?cc = "ConfChange_zero\<lparr>cc_Type := ConfChangeAddNode, cc_NodeID := peer_ID (peers ! k),
      cc_Context := peer_Context (peers ! k)\<rparr>"
    have "al_get ?a (k + 1) = Some (ents ! k)" using k B(3,5,6) by (simp add: al_get_def al_last_def)
    moreover have "ent_Term (ents ! k) = 1 \<and> ent_Type (ents ! k) = EntryConfChange \<and>
        ent_Data (ents ! k) = Some (ConfChange_bytes ?cc)"
      using bootstrap_ents_ok [of 0 peers] B(2) k by (auto simp: ConfChange_Marshal_def conf_change.marshal_exact)
    moreover have "ConfChange_Size ?cc < 2 ^ 63" using assms(5) k by (intro ConfChange_size_bound) simp
    then have "ConfChange_Unmarshal (ConfChange_bytes ?cc) ConfChange_zero = Some (Inr ?cc)"
      unfolding ConfChange_Unmarshal_def
      by (intro conf_change.unmarshal_known) (simp_all add: ConfChange_known_def ConfChange_zero_def)
    ultimately show ?thesis by blast
  qed
  from plain_conf_voters [OF pc] plain_conf_promotable [OF pc]
  have "set (VoterNodes (r_prs ?r)) = peer_ID ` set peers" "promotable ?r \<longleftrightarrow> r_id ?r \<in> peer_ID ` set peers"
    by (simp_all add: set_fold_insert_ids)
  then show ?thesis
    using B n ent by (intro exI [of _ rn'] conjI [OF B(1)]) (simp add: Let_def al_last_def)
qed

definition example_peers :: "Peer list" where
  "example_peers = [\<lparr>peer_ID = 7, peer_Context = Some [1, 2]\<rparr>, \<lparr>peer_ID = 8, peer_Context = None\<rparr>]"

definition example_node :: "MemoryStorage RawNode" where
  "example_node = the (NewRawNode 4 example_config)"

lemma example_node_new: "NewRawNode 4 example_config = Some example_node"
proof -
  have "\<not> Option.is_none (NewRawNode 4 example_config)" by code_simp
  then show ?thesis by (simp add: example_node_def Option.is_none_def)
qed

text \<open>C18: \<open>HasReady\<close> says exactly whether the next \<open>Ready\<close> carries anything, and building the
  \<open>Ready\<close> never panics on a well-formed log.\<close>

theorem HasReady_iff_work:
  assumes "mem_log_wf (r_raftLog (rn_raft rn))"
  shows "\<exists>rd. readyWithoutAccept rn = Some rd \<and>
    HasReady rn = Some (rd_SoftState rd \<noteq> None \<or> \<not> IsEmptyHardState (rd_HardState rd) \<or>
      rd_Entries rd \<noteq> [] \<or> rd_CommittedEntries rd \<noteq> [] \<or> rd_Messages rd \<noteq> [] \<or> rd_ReadStates rd \<noteq> [])"
proof -
  let ?l = "r_raftLog (rn_raft rn)"
  have s: "un_snapshot (rl_unstable ?l) = None" using assms by (simp add: rl_wf_def view_wf_def un_wf_def)
  let ?rng = "al_range (mem_log ?l) (unat (rl_applied ?l) + 1) (unat (rl_committed ?l) + 1)"
  have b: "al_index (mem_log ?l) \<le> unat (rl_applied ?l)" "unat (rl_committed ?l) \<le> al_last (mem_log ?l)"
    using assms by (simp_all add: rl_wf_def)
  then have "(?rng \<noteq> []) = (rl_applied ?l < rl_committed ?l)"
    by (auto simp: al_range_def al_last_def word_less_nat_alt)
  with s mem.rl_nextEnts_abs [OF assms] show ?thesis
    by (auto simp: readyWithoutAccept_def newReady_def HasReady_def Let_def IsEmptyHardState_def
        isHardStateEqual_def emptyState_def HardState_zero_def rl_unstableEntries_def)
qed

theorem HasReady_iff_work_witness:
  "let rn = example_node\<lparr>rn_raft := (rn_raft example_node)\<lparr>r_raftLog := example_log\<rparr>\<rparr> in
   \<exists>rd. readyWithoutAccept rn = Some rd \<and>
    HasReady rn = Some (rd_SoftState rd \<noteq> None \<or> \<not> IsEmptyHardState (rd_HardState rd) \<or>
      rd_Entries rd \<noteq> [] \<or> rd_CommittedEntries rd \<noteq> [] \<or> rd_Messages rd \<noteq> [] \<or> rd_ReadStates rd \<noteq> [])"
  unfolding Let_def by (rule HasReady_iff_work) (simp add: example_log_wf)

text \<open>C17: Messages are handed to the application once: \<open>Ready\<close> returns every pending message, and
  right after it none is pending and a second \<open>Ready\<close> has none and reports no change of role.\<close>

theorem Ready_hands_over_once:
  assumes "mem_log_wf (r_raftLog (rn_raft rn))"
  shows "\<exists>rd rn' rd'. RawNode_Ready rn = Some (rd, rn') \<and> rd_Messages rd = r_msgs (rn_raft rn) \<and>
    rd_ReadStates rd = r_readStates (rn_raft rn) \<and>
    readyWithoutAccept rn' = Some rd' \<and> rd_Messages rd' = [] \<and> rd_ReadStates rd' = [] \<and>
    rd_SoftState rd' = None"
  using mem.rl_nextEnts_abs(1) [OF assms]
  by (auto simp: RawNode_Ready_def readyWithoutAccept_def newReady_def acceptReady_def Let_def
      SoftState_equal_def softState_def)

theorem Ready_hands_over_once_witness:
  "let rn = example_node\<lparr>rn_raft := (rn_raft example_node)\<lparr>r_raftLog := example_log, r_msgs := [Message_zero]\<rparr>\<rparr> in
   \<exists>rd rn' rd'. RawNode_Ready rn = Some (rd, rn') \<and> rd_Messages rd = r_msgs (rn_raft rn) \<and>
    rd_ReadStates rd = r_readStates (rn_raft rn) \<and>
    readyWithoutAccept rn' = Some rd' \<and> rd_Messages rd' = [] \<and> rd_ReadStates rd' = [] \<and>
    rd_SoftState rd' = None"
  unfolding Let_def by (rule Ready_hands_over_once) (simp add: example_log_wf)

end
