(* ===== verification/Node_Loop.thy ===== *)
theory Node_Loop
  imports Raw_Node
begin

text \<open>
  The goroutine of \<open>raft/node.go\<close> and the methods that talk to it. The channels are part of the
  state: \<open>tickc\<close> is buffered and holds up to 128 ticks, \<open>propc\<close> and \<open>recvc\<close> are unbuffered, so a
  sender waits until the loop receives. The local variables of \<open>run\<close> are fields too; \<open>advancec\<close>
  and \<open>readyc\<close> stay nil, since every assignment to them is commented out, and a nil channel is
  never ready in a \<open>select\<close>. Nothing closes \<open>done\<close>.

  The inductive relation has one rule per atomic interaction; a run of the program is any sequence
  of them.
\<close>

abbreviation tick_capacity :: nat where
  "tick_capacity \<equiv> 128"

text \<open>A call of \<open>stepWithWaitOption\<close> in progress: waiting to send its message on a channel, or
  waiting for the result.\<close>

datatype call = SendProp Message | SendRecv Message | AwaitResult Message

datatype outcome = Accepted | CtxErr

record 's node =
  nd_rn :: "'s RawNode"
  nd_tickc :: nat
  nd_calls :: "call list"
  run_propc :: bool
  run_lead :: u64
  nd_outcomes :: "outcome list"

definition newNode :: "'s RawNode \<Rightarrow> 's node" where
  "newNode rn = \<lparr>nd_rn = rn, nd_tickc = 0, nd_calls = [], run_propc = False, run_lead = None_id,
     nd_outcomes = []\<rparr>"

text \<open>\<open>StartNode\<close> ignores the error of \<open>Bootstrap\<close>; it panics without peers.\<close>

definition StartNode :: "nat \<Rightarrow> nat \<Rightarrow> 's RaftConfig \<Rightarrow> Peer list \<Rightarrow> 's node option" where
  "StartNode raw raw' c peers =
     (if length peers = 0 then None
      else do { rn \<leftarrow> NewRawNode raw c;
                b \<leftarrow> Bootstrap raw' peers rn;
                Some (newNode (case b of Inl e \<Rightarrow> rn | Inr rn' \<Rightarrow> rn')) })"

definition RestartNode :: "nat \<Rightarrow> 's RaftConfig \<Rightarrow> 's node option" where
  "RestartNode raw c = do { rn \<leftarrow> NewRawNode raw c; Some (newNode rn) }"

text \<open>\<open>Tick\<close>: a full channel drops the tick.\<close>

definition node_Tick :: "'s node \<Rightarrow> 's node" where
  "node_Tick n = (if nd_tickc n < tick_capacity then n\<lparr>nd_tickc := nd_tickc n + 1\<rparr> else n)"

text \<open>The head of the loop body: \<open>HasReady\<close> is evaluated, and \<open>propc\<close> follows the leader.\<close>

definition run_head :: "'s node \<Rightarrow> 's node option" where
  "run_head n =
     do { _ \<leftarrow> HasReady (nd_rn n);
          let r = rn_raft (nd_rn n);
          Some (if run_lead n \<noteq> r_lead r
                then n\<lparr>run_propc := hasLeader r, run_lead := r_lead r\<rparr>
                else n) }"

text \<open>The two cases of the \<open>select\<close> that can be ready.\<close>

definition run_tick :: "nat \<Rightarrow> 's node \<Rightarrow> 's node option" where
  "run_tick raw n =
     do { rn \<leftarrow> RawNode_Tick raw (nd_rn n); Some (n\<lparr>nd_rn := rn, nd_tickc := nd_tickc n - 1\<rparr>) }"

definition run_prop :: "nat \<Rightarrow> Message \<Rightarrow> 's node \<Rightarrow> 's node option" where
  "run_prop raw m n =
     do { r \<leftarrow> Step raw (m\<lparr>msg_From := r_id (rn_raft (nd_rn n))\<rparr>) (rn_raft (nd_rn n));
          Some (n\<lparr>nd_rn := (nd_rn n)\<lparr>rn_raft := r\<rparr>\<rparr>) }"

text \<open>\<open>Propose\<close> and \<open>stepWithWaitOption\<close> up to their first \<open>select\<close>.\<close>

definition Propose_msg :: "bytes option \<Rightarrow> Message" where
  "Propose_msg data = Message_zero\<lparr>msg_Type := MsgProp, msg_Entries := [Entry_zero\<lparr>ent_Data := data\<rparr>]\<rparr>"

definition stepWithWaitOption :: "Message \<Rightarrow> call" where
  "stepWithWaitOption m = (if msg_Type m \<noteq> MsgProp then SendRecv m else SendProp m)"

inductive node_step :: "'s node \<Rightarrow> 's node \<Rightarrow> bool" where
  clock: "node_step n (node_Tick n)"
| call: "node_step n (n\<lparr>nd_calls := nd_calls n @ [stepWithWaitOption m]\<rparr>)"
| cancel: "i < length (nd_calls n) \<Longrightarrow>
    node_step n (n\<lparr>nd_calls := take i (nd_calls n) @ drop (i + 1) (nd_calls n),
                   nd_outcomes := nd_outcomes n @ [CtxErr]\<rparr>)"
| tick: "run_head n = Some n' \<Longrightarrow> 0 < nd_tickc n' \<Longrightarrow> run_tick raw n' = Some n'' \<Longrightarrow> node_step n n''"
| propose: "run_head n = Some n' \<Longrightarrow> run_propc n' \<Longrightarrow> i < length (nd_calls n') \<Longrightarrow>
    nd_calls n' ! i = SendProp m \<Longrightarrow> run_prop raw m n' = Some n'' \<Longrightarrow>
    node_step n (n''\<lparr>nd_calls := (nd_calls n'')[i := AwaitResult m]\<rparr>)"
| result: "i < length (nd_calls n) \<Longrightarrow> nd_calls n ! i = AwaitResult m \<Longrightarrow>
    node_step n (n\<lparr>nd_calls := take i (nd_calls n) @ drop (i + 1) (nd_calls n),
                   nd_outcomes := nd_outcomes n @ [Accepted]\<rparr>)"

inductive node_reachable :: "'s node \<Rightarrow> 's node \<Rightarrow> bool" for n0 where
  init: "node_reachable n0 n0"
| step: "node_reachable n0 n \<Longrightarrow> node_step n n' \<Longrightarrow> node_reachable n0 n'"

section \<open>The invariant of the loop\<close>

definition node_inv :: "'s node \<Rightarrow> bool" where
  "node_inv n \<longleftrightarrow> raft_inv (rn_raft (nd_rn n)) \<and> nd_tickc n \<le> tick_capacity \<and>
     run_lead n = None_id \<and> \<not> run_propc n \<and> Accepted \<notin> set (nd_outcomes n) \<and>
     (\<forall>m. AwaitResult m \<notin> set (nd_calls n))"

lemma run_head_inv: "node_inv n \<Longrightarrow> run_head n = Some n' \<Longrightarrow> n' = n"
  by (auto simp: node_inv_def run_head_def raft_inv_def bind_eq_Some_conv)

lemma node_step_inv:
  assumes "node_step n n'" and "node_inv n"
  shows "node_inv n'"
  using assms
proof (induction rule: node_step.induct)
  case (clock n)
  then show ?case by (auto simp: node_inv_def node_Tick_def)
next
  case (call n m)
  then show ?case by (auto simp: node_inv_def stepWithWaitOption_def)
next
  case (cancel i n)
  then show ?case by (auto simp: node_inv_def dest: in_set_takeD in_set_dropD)
next
  case (tick n n' raw n'')
  from run_head_inv [OF tick.prems tick.hyps(1)] tick.hyps(3) obtain r where
    r: "raft_tick raw (rn_raft (nd_rn n)) = Some r"
    and n: "n'' = n\<lparr>nd_rn := (nd_rn n)\<lparr>rn_raft := r\<rparr>, nd_tickc := nd_tickc n - 1\<rparr>"
    by (auto simp: run_tick_def RawNode_Tick_def bind_eq_Some_conv)
  have "raft_inv r"
    using raft_step_cases [OF _ raft_step.tick [OF r]] tick.prems by (simp add: node_inv_def)
  with tick.prems show ?case by (auto simp: node_inv_def n)
next
  case (propose n n' i m raw n'')
  from run_head_inv [OF propose.prems propose.hyps(1)] propose.hyps(2) propose.prems show ?case
    by (simp add: node_inv_def)
next
  case (result i n m)
  then show ?case by (metis node_inv_def nth_mem)
qed

lemma node_reachable_inv: "node_reachable n0 n \<Longrightarrow> node_inv n0 \<Longrightarrow> node_inv n"
  by (induction rule: node_reachable.induct) (auto intro: node_step_inv)

section \<open>Properties\<close>

lemma NewRawNode_inv:
  "NewRawNode raw c = Some rn \<Longrightarrow> rc_ElectionTick c < 2 ^ 62 \<Longrightarrow> raft_inv (rn_raft rn)"
  by (auto simp: NewRawNode_def bind_eq_Some_conv newRaft_inv split: if_splits)

lemma becomeFollower_inv:
  assumes "raft_inv r" and "becomeFollower raw trm None_id r = Some r'"
  shows "raft_inv r' \<and> r_raftLog r' = r_raftLog r"
proof -
  obtain la where la: "rl_lastIndex (r_raftLog r) = Some la" using assms(1) by (auto simp: raft_inv_def)
  have pre: "tracker_wf (r_prs (r\<lparr>r_step := Some StepFollower\<rparr>))"
    "rl_lastIndex (r_raftLog (r\<lparr>r_step := Some StepFollower\<rparr>)) = Some la"
    "0 < r_electionTimeout (r\<lparr>r_step := Some StepFollower\<rparr>)"
    using assms(1) la by (simp_all add: raft_inv_def)
  have "r_electionTimeout r < 2 ^ 62" "0 < r_electionTimeout r" using assms(1) by (simp_all add: raft_inv_def)
  note rb = randomized_bounds [OF this(2,1), of raw]
  obtain r1 where r1: "reset raw trm (r\<lparr>r_step := Some StepFollower\<rparr>) = Some r1" using reset_eq [OF pre] by blast
  have "r_id r1 = r_id r \<and> r_raftLog r1 = r_raftLog r \<and> r_electionTimeout r1 = r_electionTimeout r \<and>
      r_randomizedElectionTimeout r1 = wrap_int (r_electionTimeout r + int raw mod r_electionTimeout r) \<and>
      r_step r1 = Some StepFollower \<and> (r_Vote r1 = None_id \<or> r_Vote r1 = r_Vote r) \<and> tracker_wf (r_prs r1)"
    using reset_eq [OF pre, of raw trm] r1 pre(1) by (simp add: tracker_wf_def)
  moreover have "r' = r1\<lparr>r_tick := Some TickElection, r_lead := None_id, r_state := StateFollower\<rparr>"
    using assms(2) r1 by (simp add: becomeFollower_def)
  ultimately show ?thesis using assms(1) rb la by (auto simp: raft_inv_def)
qed

lemma bootstrap_apply_inv: "bootstrap_apply peers r = Some r' \<Longrightarrow> raft_inv r \<Longrightarrow> raft_inv r'"
  by (induction peers r rule: bootstrap_apply.induct)
    (auto simp: bind_eq_Some_conv simp del: AsV2.simps dest: applyConfChange_inv)

lemma Bootstrap_inv:
  assumes "Bootstrap raw peers rn = Some (Inr rn')" and "raft_inv (rn_raft rn)"
  shows "raft_inv (rn_raft rn')"
proof -
  from assms(1) obtain "st_LastIndex (rl_ops (r_raftLog (rn_raft rn))) (rl_storage (r_raftLog (rn_raft rn)))
      = Some (Inr 0)"
    by (auto simp: Bootstrap_def bind_eq_Some_conv split: if_split_asm sum.splits)
      (metis Inl_Inr_False sum.exhaust)
  with assms(1) obtain r ents i lg r' where b: "becomeFollower raw 1 None_id (rn_raft rn) = Some r"
    and ap: "rl_append ents (r_raftLog r) = Some (i, lg)"
    and r': "bootstrap_apply peers (r\<lparr>r_raftLog := lg\<lparr>rl_committed := of_nat (length ents)\<rparr>\<rparr>) = Some r'"
    and rn': "rn_raft rn' = r'"
    by (auto simp: Bootstrap_def Let_def bind_eq_Some_conv split: if_split_asm)
  have "rl_lastIndex (lg\<lparr>rl_committed := k\<rparr>) = rl_lastIndex lg" for k
    by (simp add: rl_lastIndex_def cong: option.case_cong)
  moreover have "rl_lastIndex lg \<noteq> None"
    using ap by (auto simp: rl_append_def bind_eq_Some_conv Let_def split: if_splits)
  ultimately have "raft_inv (r\<lparr>r_raftLog := lg\<lparr>rl_committed := of_nat (length ents)\<rparr>\<rparr>)"
    using becomeFollower_inv [OF assms(2) b] by (simp add: raft_inv_def)
  with bootstrap_apply_inv [OF r'] show ?thesis by (simp add: rn')
qed

lemma started_inv:
  assumes "StartNode raw raw' c peers = Some n0 \<or> RestartNode raw c = Some n0" and "rc_ElectionTick c < 2 ^ 62"
  shows "node_inv n0"
proof -
  have new: "raft_inv (rn_raft rn)" if "NewRawNode raw c = Some rn" for rn
    using NewRawNode_inv [OF that assms(2)] .
  have start: "raft_inv (rn_raft (case b of Inl e \<Rightarrow> rn | Inr rn' \<Rightarrow> rn'))"
    if "NewRawNode raw c = Some rn" "Bootstrap raw' peers rn = Some b" for rn b
    using new [OF that(1)] Bootstrap_inv that(2) by (cases b) auto
  have "\<exists>rn. n0 = newNode rn \<and> raft_inv (rn_raft rn)"
    using assms(1)
  proof
    assume "StartNode raw raw' c peers = Some n0"
    then show ?thesis using start by (auto simp: StartNode_def bind_eq_Some_conv split: if_split_asm)
  next
    assume "RestartNode raw c = Some n0"
    then show ?thesis using new by (auto simp: RestartNode_def bind_eq_Some_conv)
  qed
  then show ?thesis by (auto simp: node_inv_def newNode_def)
qed

text \<open>The loop of a started node never receives a proposal: no leader is ever known, so the
  proposal channel stays disabled and a call of \<open>Propose\<close> can only end with its context. The tick
  channel never holds more than 128 ticks.\<close>

lemma proposals_never_accepted:
  assumes "StartNode raw raw' c peers = Some n0 \<or> RestartNode raw c = Some n0"
    and "rc_ElectionTick c < 2 ^ 62" and "node_reachable n0 n"
  shows "\<not> run_propc n \<and> Accepted \<notin> set (nd_outcomes n) \<and> nd_tickc n \<le> 128"
  using node_reachable_inv [OF assms(3) started_inv [OF assms(1,2)]] by (simp add: node_inv_def)

end
