(* ===== verification/Raft_Node.thy ===== *)
theory Raft_Node
  imports Server_Config Node_Loop
begin

text \<open>
  \<open>etcdserver/raft.go\<close>: the server's side of raft. \<open>startNode\<close> turns the cluster into a raft node, and
  the raft node of the server drives its clock.

  The storage of raft is shared between the server and the node; it is a field of the node here.
  The encoder of \<open>encoding/json\<close> is an argument. A nil node is \<open>None\<close>, and calling a method of it panics.
\<close>

section \<open>The raft node of a server\<close>

record TimeoutDetector =
  td_maxDuration :: int
  td_records :: "(u64, int) gomap"

definition NewTimeoutDetector :: "int \<Rightarrow> TimeoutDetector" where
  "NewTimeoutDetector maxDuration = \<lparr>td_maxDuration = maxDuration, td_records = []\<rparr>"

record apply_data =
  ap_entries :: "Entry list"
  ap_snapshot :: Snapshot

definition maxInFlightMsgSnap :: nat where
  "maxInFlightMsgSnap = 16"

text \<open>Buffered channels are lists with their capacity; \<open>ern_ticker\<close> is the period of the ticker, \<open>None\<close>
  for the zero ticker, which never fires.\<close>

record 's raftNode =
  ern_Node :: "'s node option"
  ern_storage :: "WAL option \<times> Snapshotter"
  ern_heartbeat :: int
  ern_msgSnapC :: "Message list"
  ern_msgSnapC_cap :: nat
  ern_readStateC :: "ReadState list"
  ern_readStateC_cap :: nat
  ern_applyc :: "apply_data list"
  ern_ticker :: "int option"
  ern_td :: TimeoutDetector
  ern_stopped :: bool
  ern_done :: bool

text \<open>\<open>time.NewTicker\<close> panics for a negative period.\<close>

definition newRaftNode :: "'s node option \<Rightarrow> WAL option \<times> Snapshotter \<Rightarrow> int \<Rightarrow> 's raftNode option" where
  "newRaftNode n st heartbeat =
     (if heartbeat < 0 then None
      else Some \<lparr>ern_Node = n, ern_storage = st, ern_heartbeat = heartbeat,
        ern_msgSnapC = [], ern_msgSnapC_cap = maxInFlightMsgSnap, ern_readStateC = [], ern_readStateC_cap = 1,
        ern_applyc = [], ern_ticker = (if heartbeat = 0 then None else Some heartbeat),
        ern_td = NewTimeoutDetector (wrap_int (2 * heartbeat)), ern_stopped = False, ern_done = False\<rparr>)"

definition raftNode_tick :: "'s raftNode \<Rightarrow> 's raftNode option" where
  "raftNode_tick r = do { n \<leftarrow> ern_Node r; Some (r\<lparr>ern_Node := Some (node_Tick n)\<rparr>) }"

text \<open>The loop of \<open>advanceTicks\<close>: no round for a count that is not positive.\<close>

fun advance_loop :: "nat \<Rightarrow> 's raftNode \<Rightarrow> 's raftNode option" where
  "advance_loop 0 r = Some r"
| "advance_loop (Suc k) r = do { r \<leftarrow> raftNode_tick r; advance_loop k r }"

definition advanceTicks :: "int \<Rightarrow> 's raftNode \<Rightarrow> 's raftNode option" where
  "advanceTicks n r = advance_loop (nat n) r"

text \<open>The goroutine of \<open>start\<close>: its ticker fires, or \<open>stopped\<close> is closed and it returns; \<open>onStop\<close> has an
  empty body. The channel of \<open>Ready\<close> never delivers, since the loop of the node keeps it nil.\<close>

inductive raftNode_step :: "'s raftNode \<times> bool \<Rightarrow> 's raftNode \<times> bool \<Rightarrow> bool" where
  ticker: "ern_ticker r = Some d \<Longrightarrow> raftNode_tick r = Some r' \<Longrightarrow> raftNode_step (r, True) (r', True)"
| stop: "ern_stopped r \<Longrightarrow> raftNode_step (r, True) (r, False)"

section \<open>startNode\<close>

definition maxSizePerMsg :: u64 where
  "maxSizePerMsg = 1 * 1024 * 1024"

definition maxInflightMsgs :: int where
  "maxInflightMsgs = 4096 div 8"

definition server_raft_config :: "('u, 'tls) ServerConfig \<Rightarrow> ID \<Rightarrow> MemoryStorage RaftConfig" where
  "server_raft_config cfg i =
     \<lparr>rc_ID = i, rc_ElectionTick = sc_ElectionTicks cfg, rc_HeartbeatTick = 1, rc_ops = memory_storage,
      rc_Storage = NewMemoryStorage, rc_Applied = 0, rc_MaxSizePerMsg = maxSizePerMsg,
      rc_MaxCommittedSizePerReady = 0, rc_MaxUncommittedEntriesSize = 0, rc_MaxInflightMsgs = maxInflightMsgs,
      rc_CheckQuorum = True, rc_PreVote = sc_PreVote cfg, rc_ReadOnlyOption = 0,
      rc_DisableProposalForwarding = False\<rparr>"

text \<open>One peer per id; an encoding error panics with a logger and leaves an empty context without.\<close>

fun make_peers :: "(Member option \<Rightarrow> 'e + bytes) \<Rightarrow> bool \<Rightarrow> ('v, 'b) RaftCluster \<Rightarrow> ID list \<Rightarrow> Peer list option" where
  "make_peers enc lg cl [] = Some []"
| "make_peers enc lg cl (i # ids) =
     (case enc (cluster_Member i cl) of
        Inl e \<Rightarrow> if lg then None
                 else do { ps \<leftarrow> make_peers enc lg cl ids; Some (\<lparr>peer_ID = i, peer_Context = None\<rparr> # ps) }
      | Inr b \<Rightarrow> do { ps \<leftarrow> make_peers enc lg cl ids; Some (\<lparr>peer_ID = i, peer_Context = Some b\<rparr> # ps) })"

text \<open>The constant metadata is the text \<open>test\<close>. The draws \<open>raw\<close> and \<open>raw'\<close> are the random numbers of the
  two calls of \<open>becomeFollower\<close>.\<close>

definition startNode ::
  "(Member option \<Rightarrow> 'e + bytes) \<Rightarrow> nat \<Rightarrow> nat \<Rightarrow> ('u, 'tls) ServerConfig \<Rightarrow> ('v, 'b) RaftCluster \<Rightarrow> ID list \<Rightarrow> fsys \<Rightarrow>
   ((ID \<times> MemoryStorage node option \<times> WAL option) \<times> fsys) call_result" where
  "startNode enc raw raw' cfg cl ids s =
     (case MemberByName (sc_Logger cfg) (sc_Name cfg) cl of
        None \<Rightarrow> Panics
      | Some member \<Rightarrow>
          (case wal_Create (WALDir cfg) (string_bytes ''test'') s of
             None \<Rightarrow> Waits
           | Some (w, s) \<Rightarrow>
               if (case w of Inl e \<Rightarrow> True | Inr x \<Rightarrow> False) \<and> sc_Logger cfg then Panics
               else
                 (case make_peers enc (sc_Logger cfg) cl ids of
                    None \<Rightarrow> Panics
                  | Some peers \<Rightarrow>
                      (case member of
                         None \<Rightarrow> Panics
                       | Some m \<Rightarrow>
                           (let i = mb_ID m; w = (case w of Inl e \<Rightarrow> None | Inr x \<Rightarrow> Some x)
                            in if length peers = 0 then Returned ((i, None, w), s)
                               else (case StartNode raw raw' (server_raft_config cfg i) peers of
                                       None \<Rightarrow> Panics
                                     | Some n \<Rightarrow> Returned ((i, Some n, w), s)))))))"

section \<open>Lemmas\<close>

lemma new_log_indices:
  "case newLogWithSize memory_storage NewMemoryStorage sz of
     None \<Rightarrow> False | Some l \<Rightarrow> rl_lastIndex l = Some 0 \<and> rl_lastTerm l = Some 0"
  by code_simp

lemma NewRawNode_ok:
  assumes "rc_ops c = memory_storage" and "rc_Storage c = NewMemoryStorage" and "rc_ID c \<noteq> 0" and "0 < rc_ElectionTick c"
  shows "\<exists>rn. NewRawNode raw c = Some rn"
proof -
  obtain l where l: "newLogWithSize memory_storage NewMemoryStorage (rc_MaxCommittedSizePerReady c) = Some l"
    "rl_lastIndex l = Some 0" "rl_lastTerm l = Some 0"
    using new_log_indices [of "rc_MaxCommittedSizePerReady c"] by (auto split: option.splits)
  have ini: "must (st_InitialState memory_storage NewMemoryStorage) = Some (HardState_zero, ConfState_zero)"
    by code_simp
  have eq: "isHardStateEqual HardState_zero HardState_zero" by code_simp
  have wf: "tracker_wf (MakeProgressTracker k)" for k
    by (simp add: tracker_wf_def joint_wf_def MakeProgressTracker_def)
  have R: "\<exists>r1. reset raw trm r \<bind> (\<lambda>y. rl_lastIndex (r_raftLog y) \<bind> (\<lambda>_. rl_lastTerm (r_raftLog y) \<bind> (\<lambda>_. Some (f y)))) = Some r1"
    if "r_prs r = MakeProgressTracker k" "r_raftLog r = l" "r_electionTimeout r = rc_ElectionTick c" for r f k trm
    using reset_eq [of r 0 raw trm] that wf l assms(4) by simp
  have "\<exists>r1. newRaft raw c = Some r1"
    using assms l ini eq by (simp add: newRaft_def validate_def becomeFollower_def Let_def) (rule R, simp_all)
  then show ?thesis using assms(3) by (auto simp: NewRawNode_def)
qed

lemma make_peers_ids:
  assumes "\<forall>i \<in> set ids. \<exists>b. enc (cluster_Member i cl) = Inr b"
  shows "\<exists>ps. make_peers enc lg cl ids = Some ps \<and> map peer_ID ps = ids"
  using assms by (induction ids) auto

lemma StartNode_ok:
  assumes "rc_ops c = memory_storage" and "rc_Storage c = NewMemoryStorage" and "rc_ID c \<noteq> 0" and "0 < rc_ElectionTick c"
    and "peers \<noteq> []" and "\<forall>p \<in> set peers. peer_ID p \<noteq> 0" and "length peers < 2 ^ 62"
  obtains rn where "StartNode raw raw' c peers = Some (newNode rn)" and "r_Term (rn_raft rn) = 1"
    and "r_state (rn_raft rn) = StateFollower" and "r_id (rn_raft rn) = rc_ID c" and "r_electionElapsed (rn_raft rn) = 0"
    and "r_electionTimeout (rn_raft rn) = rc_ElectionTick c"
    and "rl_committed (r_raftLog (rn_raft rn)) = of_nat (length peers)"
    and "plain_conf (fold List.insert (map peer_ID peers) []) (r_prs (rn_raft rn))"
proof -
  obtain rn0 where rn0: "NewRawNode raw c = Some rn0" using NewRawNode_ok [OF assms(1-4)] by blast
  obtain rn where rn: "Bootstrap raw' peers rn0 = Some (Inr rn)" "r_Term (rn_raft rn) = 1"
    "r_state (rn_raft rn) = StateFollower" "r_id (rn_raft rn) = rc_ID c" "r_electionElapsed (rn_raft rn) = 0"
    "r_electionTimeout (rn_raft rn) = rc_ElectionTick c"
    "rl_committed (r_raftLog (rn_raft rn)) = of_nat (length peers)"
    "plain_conf (fold List.insert (map peer_ID peers) []) (r_prs (rn_raft rn))"
    by (rule Bootstrap_ok [OF rn0 assms(1,2,5,6,7), of raw'])
  have "StartNode raw raw' c peers = Some (newNode rn)" using rn0 rn(1) assms(5) by (simp add: StartNode_def)
  from that [OF this rn(2-8)] show thesis .
qed

lemma raft_config_fields [simp]:
  "rc_ops (server_raft_config cfg i) = memory_storage" "rc_Storage (server_raft_config cfg i) = NewMemoryStorage"
  "rc_ID (server_raft_config cfg i) = i" "rc_ElectionTick (server_raft_config cfg i) = sc_ElectionTicks cfg"
  by (simp_all add: server_raft_config_def)

text \<open>The member of a name in the cluster of the initial map.\<close>

lemma initial_MemberByName:
  assumes "NewClusterFromURLsMap sha1 ops visit token m = Inr (cl :: ('v, 'b) RaftCluster)"
    and "distinct (map_keys (visit m))" and "name \<in> set (map_keys (visit m))"
  obtains mb where "MemberByName lg name cl = Some (Some mb)" and "mb_Name mb = name" and "mb_ID mb \<in> set (MemberIDs cl)"
    and "mb_ID mb \<noteq> 0"
proof -
  let ?mem = "\<lambda>e. (mb_ID (initial_member sha1 ops token e), initial_member sha1 ops token e)"
  have ok: "distinct (initial_ids sha1 ops token (visit m)) \<and> 0 \<notin> set (initial_ids sha1 ops token (visit m))"
    and cl: "cl = genID sha1 ((NewCluster token)\<lparr>rc_members := map ?mem (visit m)\<rparr>)"
    using cluster_result [where ?'v = 'v and ?'b = 'b, of sha1 ops token visit m] assms(1) by (auto split: if_splits)
  obtain urls where e: "(name, urls) \<in> set (visit m)" using assms(3) by auto
  let ?mb = "initial_member sha1 ops token (name, urls)"
  have names: "map (mb_Name \<circ> initial_member sha1 ops token) (visit m) = map_keys (visit m)" by simp
  have "MemberByName lg name cl = Some (Some ?mb)"
    using by_name_unique [of "map (initial_member sha1 ops token) (visit m)" lg name]
      find_initial [OF assms(2) e, of sha1 ops token] assms(2) names
    by (simp add: MemberByName_def cl genID_def comp_def)
  moreover have i: "mb_ID ?mb \<in> set (initial_ids sha1 ops token (visit m))" using e by (force simp: initial_ids_def)
  moreover have "mb_ID ?mb \<noteq> 0" using i ok by metis
  moreover have "mb_Name ?mb = name" by (simp add: NewMember_def newMember_def Let_def)
  ultimately show thesis using that [of ?mb] by (simp add: cl MemberIDs_initial)
qed

lemma initial_ids_ne0:
  assumes "NewClusterFromURLsMap sha1 ops visit token m = Inr (cl :: ('v, 'b) RaftCluster)"
  shows "0 \<notin> set (MemberIDs cl)" and "distinct (MemberIDs cl)" and "length (MemberIDs cl) = length (visit m)"
    and "i \<in> set (MemberIDs cl) \<Longrightarrow> cluster_Member i cl \<noteq> None"
proof -
  let ?mem = "\<lambda>e. (mb_ID (initial_member sha1 ops token e), initial_member sha1 ops token e)"
  have ok: "distinct (initial_ids sha1 ops token (visit m)) \<and> 0 \<notin> set (initial_ids sha1 ops token (visit m))"
    and cl: "cl = genID sha1 ((NewCluster token)\<lparr>rc_members := map ?mem (visit m)\<rparr>)"
    using cluster_result [where ?'v = 'v and ?'b = 'b, of sha1 ops token visit m] assms(1) by (auto split: if_splits)
  have ids: "MemberIDs cl = sort (initial_ids sha1 ops token (visit m))" unfolding cl by (rule MemberIDs_initial)
  from ok show "0 \<notin> set (MemberIDs cl)" "distinct (MemberIDs cl)" "length (MemberIDs cl) = length (visit m)"
    by (simp_all add: ids initial_ids_def)
  show "i \<in> set (MemberIDs cl) \<Longrightarrow> cluster_Member i cl \<noteq> None"
    unfolding ids by (auto simp: cluster_Member_def cl genID_def initial_ids_def map_of_eq_None_iff image_image)
qed

lemma advance_loop_ticks:
  "ern_Node r = Some n \<Longrightarrow> nd_tickc n \<le> 128 \<Longrightarrow>
   advance_loop k r = Some (r\<lparr>ern_Node := Some (n\<lparr>nd_tickc := min 128 (nd_tickc n + k)\<rparr>)\<rparr>)"
  by (induction k arbitrary: r n) (simp_all add: raftNode_tick_def node_Tick_def)

text \<open>Starting a server on the initial cluster makes it a follower at term 1 whose raft id is the id of
  the member with the server's name, and whose voters are exactly the members of the cluster, one
  committed configuration change each; it may start elections itself. The random numbers and the
  encoding of the members do not matter.\<close>

lemma startNode_ok:
  assumes "NewClusterFromURLsMap sha1 ops visit token m = Inr (cl :: ('v, 'b) RaftCluster)"
    and "distinct (map_keys (visit m))" and "sc_Name cfg \<in> set (map_keys (visit m))" and "length (visit m) < 2 ^ 62"
    and "0 < sc_ElectionTicks cfg" and "\<forall>mb. \<exists>b. enc (Some mb) = Inr b"
    and "wal_Create (WALDir cfg) (string_bytes ''test'') s = Some (Inr w, s')"
  shows "\<exists>mb n. MemberByName (sc_Logger cfg) (sc_Name cfg) cl = Some (Some mb) \<and>
    startNode enc raw raw' cfg cl (MemberIDs cl) s = Returned ((mb_ID mb, Some n, Some w), s') \<and>
    (let r = rn_raft (nd_rn n) in
     r_id r = mb_ID mb \<and> r_Term r = 1 \<and> r_state r = StateFollower \<and> promotable r \<and>
     set (VoterNodes (r_prs r)) = set (MemberIDs cl) \<and>
     unat (rl_committed (r_raftLog r)) = length (MemberIDs cl))"
proof -
  obtain mb where mb: "MemberByName (sc_Logger cfg) (sc_Name cfg) cl = Some (Some mb)"
    "mb_ID mb \<in> set (MemberIDs cl)" "mb_ID mb \<noteq> 0"
    by (rule initial_MemberByName [OF assms(1-3)])
  note ids = initial_ids_ne0 [OF assms(1)]
  have "\<exists>b. enc (cluster_Member i cl) = Inr b" if "i \<in> set (MemberIDs cl)" for i
    using ids(4) [OF that] assms(6) by auto
  then obtain ps where ps: "make_peers enc (sc_Logger cfg) cl (MemberIDs cl) = Some ps" "map peer_ID ps = MemberIDs cl"
    using make_peers_ids by blast
  have ne: "ps \<noteq> []" using mb(2) ps(2) by auto
  have nz: "\<forall>p \<in> set ps. peer_ID p \<noteq> 0" using ids(1) ps(2) by (metis image_eqI list.set_map)
  have len: "length ps = length (MemberIDs cl)" using ps(2) by (metis length_map)
  have pl: "length ps < 2 ^ 62" using len ids(3) assms(4) by simp
  obtain rn where rn: "StartNode raw raw' (server_raft_config cfg (mb_ID mb)) ps = Some (newNode rn)"
    "r_Term (rn_raft rn) = 1" "r_state (rn_raft rn) = StateFollower" "r_id (rn_raft rn) = mb_ID mb"
    "rl_committed (r_raftLog (rn_raft rn)) = of_nat (length ps)"
    "plain_conf (fold List.insert (map peer_ID ps) []) (r_prs (rn_raft rn))"
    by (rule StartNode_ok [of "server_raft_config cfg (mb_ID mb)" ps raw raw'])
      (use mb(3) assms(5) ne nz pl in simp_all)
  have v: "set (VoterNodes (r_prs (rn_raft rn))) = set (MemberIDs cl)" "promotable (rn_raft rn)"
    using plain_conf_voters [OF rn(6)] plain_conf_promotable [OF rn(6)] ps(2) mb(2) rn(4)
    by (simp_all add: set_fold_insert_ids)
  have "startNode enc raw raw' cfg cl (MemberIDs cl) s = Returned ((mb_ID mb, Some (newNode rn), Some w), s')"
    using mb(1) assms(7) ps(1) rn(1) ne by (simp add: startNode_def Let_def)
  moreover have "unat (of_nat (length ps) :: u64) = length ps" using pl by (intro unat_of_nat_64) simp
  ultimately show ?thesis
    using mb(1) rn v len by (intro exI [of _ mb] exI [of _ "newNode rn"]) (simp add: newNode_def Let_def)
qed

section \<open>Properties\<close>

definition example_server_config :: "(string, unit) ServerConfig" where
  "example_server_config =
     \<lparr>sc_Name = ''a'', sc_DiscoveryURL = [], sc_DiscoveryProxy = [], sc_ClientURLs = [''http://host:9''],
      sc_PeerURLs = [''http://host:1''], sc_DataDir = ''/data'', sc_DedicatedWALDir = [], sc_SnapshotCount = 0,
      sc_SnapshotCatchUpEntries = 0, sc_MaxSnapFiles = 5, sc_MaxWALFiles = 5, sc_BackendBatchInterval = 0,
      sc_BackendBatchLimit = 0, sc_BackendFreelistType = [], sc_InitialPeerURLsMap = example_urls,
      sc_InitialClusterToken = ''t'', sc_NewCluster = True, sc_PeerTLSInfo = (), sc_CORS = [], sc_HostWhitelist = [],
      sc_TickMs = 100, sc_ElectionTicks = 10, sc_InitialElectionTickAdvance = True, sc_BootstrapTimeout = 0,
      sc_AutoCompactionRetention = 0, sc_AutoCompactionMode = [], sc_QuotaBackendBytes = 0, sc_MaxTxnOps = 128,
      sc_MaxRequestBytes = 1572864, sc_StrictReconfigCheck = True, sc_ClientCertAuthEnabled = False,
      sc_AuthToken = ''simple'', sc_BcryptCost = 10, sc_InitialCorruptCheck = False, sc_CorruptCheckTime = 0,
      sc_PreVote = False, sc_Logger = True, sc_LoggerConfig = False, sc_LoggerCore = False,
      sc_LoggerWriteSyncer = False, sc_Debug = False, sc_ForceNewCluster = False, sc_EnableLeaseCheckpoint = False,
      sc_LeaseCheckpointInterval = 0, sc_EnableGRPCGateway = True\<rparr>"



end
