(* ===== verification/Checked_Wire.thy ===== *)
theory Checked_Wire
  imports Proto_Codec
begin

text \<open>
  The decoder that the newer protobuf generator wrote for \<open>etcdserver/etcdserverpb\<close>. It differs
  from the one of \<open>raft/raftpb\<close> in checking every sum of positions for wrap-around:
  \<open>skipRaftInternal\<close>, \<open>skipRpc\<close> and \<open>skipEtcdserver\<close> are one text up to the names of their
  errors, modelled once as \<open>skipRaftInternal\<close>, and so are the loops of the \<open>Unmarshal\<close> methods.
  Encoders and \<open>sov\<dots>\<close> functions of both generators agree, so the writers of \<open>Proto_Wire\<close> serve
  here too.

  Two facts are shown: the checked decoder never panics, whatever the bytes are
  (\<open>unmarshal_checked_total\<close>), and it returns what the unchecked one returns wherever that one
  succeeds (\<open>unmarshal_checked_agrees\<close>), which carries the contract \<open>message_codec\<close> over.
\<close>

unbundle bit_operations_syntax

section \<open>Skipping an unknown field\<close>

text \<open>
  Every sum is an \<open>int\<close> sum; the loop of a group gives up on a negative position. The last branch
  of \<open>skip_group_checked\<close>, a step that does not advance, is shown to be unreachable below.
\<close>

function skipRaftInternal :: "bytes \<Rightarrow> (proto_error + int) option"
  and skip_group_checked :: "bytes \<Rightarrow> nat \<Rightarrow> (proto_error + int) option" where
  "skipRaftInternal dAtA =
     (if dAtA = [] then None
      else case (read_varint dAtA 0 :: proto_error + u64 \<times> nat) of
        Inl e \<Rightarrow> Some (Inl e)
      | Inr (wire, i) \<Rightarrow>
          (let wireType = wire AND 7 in
           if wireType = 0 then
             (case skip_varint dAtA i of Inl e \<Rightarrow> Some (Inl e) | Inr i' \<Rightarrow> Some (Inr (int i')))
           else if wireType = 1 then Some (Inr (wrap_int (int i + 8)))
           else if wireType = 2 then
             (case (read_varint dAtA i :: proto_error + u64 \<times> nat) of
                Inl e \<Rightarrow> Some (Inl e)
              | Inr (len, i') \<Rightarrow>
                  (if sint len < 0 then Some (Inl ErrInvalidLengthRaft)
                   else let iNdEx = wrap_int (int i' + sint len)
                        in if iNdEx < 0 then Some (Inl ErrInvalidLengthRaft) else Some (Inr iNdEx)))
           else if wireType = 3 then skip_group_checked dAtA i
           else if wireType = 4 then Some (Inr (int i))
           else if wireType = 5 then Some (Inr (wrap_int (int i + 4)))
           else Some (Inl ErrIllegalWireType)))"
| "skip_group_checked dAtA start =
     (case (read_varint dAtA start :: proto_error + u64 \<times> nat) of
        Inl e \<Rightarrow> Some (Inl e)
      | Inr (innerWire, i) \<Rightarrow>
          (if innerWire AND 7 = 4 then Some (Inr (int i))
           else case skipRaftInternal (drop start dAtA) of
                  None \<Rightarrow> None
                | Some (Inl e) \<Rightarrow> Some (Inl e)
                | Some (Inr next) \<Rightarrow>
                    (let iNdEx = wrap_int (int start + next) in
                     if iNdEx < 0 then Some (Inl ErrInvalidLengthRaft)
                     else if int start < iNdEx then skip_group_checked dAtA (nat iNdEx)
                     else None)))"
  by pat_completeness auto
termination
  by (relation "measure (\<lambda>s. case s of Inl d \<Rightarrow> 2 * length d
                              | Inr (d, i) \<Rightarrow> 2 * (length d - i) + 1)")
    (auto dest!: read_varint_progress)

declare skipRaftInternal.simps [simp del] skip_group_checked.simps [simp del]

section \<open>Reading one field, and the loop\<close>

text \<open>The cases of \<open>switch fieldNum\<close>: a 64-bit number, a bool, a byte string or string, and an
  embedded message that is created when it is not there yet.\<close>

datatype 'm pfield =
    PVarint "u64 \<Rightarrow> 'm \<Rightarrow> 'm"
  | PBool "bool \<Rightarrow> 'm \<Rightarrow> 'm"
  | PBytes "bytes \<Rightarrow> 'm \<Rightarrow> 'm"
  | PMessage "bytes \<Rightarrow> 'm \<Rightarrow> (proto_error + 'm) option"

definition read_length_checked :: "bytes \<Rightarrow> nat \<Rightarrow> proto_error + nat \<times> int" where
  "read_length_checked dAtA iNdEx =
     (case (read_varint dAtA iNdEx :: proto_error + u64 \<times> nat) of
        Inl e \<Rightarrow> Inl e
      | Inr (len, i) \<Rightarrow>
          (if sint len < 0 then Inl ErrInvalidLengthRaft
           else let postIndex = wrap_int (int i + sint len)
                in if postIndex < 0 then Inl ErrInvalidLengthRaft
                   else if int (length dAtA) < postIndex then Inl ErrUnexpectedEOF
                   else Inr (i, postIndex)))"

fun read_pfield ::
  "'m pfield \<Rightarrow> u64 \<Rightarrow> bytes \<Rightarrow> nat \<Rightarrow> 'm \<Rightarrow> (proto_error + 'm \<times> nat) option" where
  "read_pfield (PVarint put) wireType dAtA i m =
     (if wireType \<noteq> 0 then Some (Inl ErrWrongWireType)
      else case read_varint dAtA i of
             Inl e \<Rightarrow> Some (Inl e) | Inr (v, i') \<Rightarrow> Some (Inr (put v m, i')))"
| "read_pfield (PBool put) wireType dAtA i m =
     (if wireType \<noteq> 0 then Some (Inl ErrWrongWireType)
      else case (read_varint dAtA i :: proto_error + u64 \<times> nat) of
             Inl e \<Rightarrow> Some (Inl e) | Inr (v, i') \<Rightarrow> Some (Inr (put (v \<noteq> 0) m, i')))"
| "read_pfield (PBytes put) wireType dAtA i m =
     (if wireType \<noteq> 2 then Some (Inl ErrWrongWireType)
      else case read_length_checked dAtA i of
             Inl e \<Rightarrow> Some (Inl e)
           | Inr (i', postIndex) \<Rightarrow>
               do { bs \<leftarrow> byte_range dAtA i' postIndex;
                    Some (Inr (put bs m, nat postIndex)) })"
| "read_pfield (PMessage put) wireType dAtA i m =
     (if wireType \<noteq> 2 then Some (Inl ErrWrongWireType)
      else case read_length_checked dAtA i of
             Inl e \<Rightarrow> Some (Inl e)
           | Inr (i', postIndex) \<Rightarrow>
               do { bs \<leftarrow> byte_range dAtA i' postIndex;
                    r \<leftarrow> put bs m;
                    (case r of Inl e \<Rightarrow> Some (Inl e)
                     | Inr m' \<Rightarrow> Some (Inr (m', nat postIndex))) })"

text \<open>The case of the unchecked decoder that does the same with the message.\<close>

fun raft_field :: "'m pfield \<Rightarrow> 'm field" where
  "raft_field (PVarint put) = FUint64 put"
| "raft_field (PBool put) = FBool put"
| "raft_field (PBytes put) = FBytes put"
| "raft_field (PMessage put) = FMessage put"

lemma read_length_checked_Inr:
  "read_length_checked dAtA i = Inr (j, p) \<longleftrightarrow> read_length dAtA i = Inr (j, p) \<and> 0 \<le> p"
  by (auto simp: read_length_checked_def read_length_def Let_def split: sum.splits if_splits)

lemma read_length_checked_Inl:
  "read_length_checked dAtA i = Inl e \<Longrightarrow> read_length dAtA i = Inr (j, p) \<Longrightarrow> p < 0"
  by (auto simp: read_length_checked_def read_length_def Let_def split: sum.splits if_splits)

lemma read_pfield_agrees:
  "read_field (raft_field f) wt dAtA i m = Some (Inr (m', i')) \<Longrightarrow> read_pfield f wt dAtA i m = Some (Inr (m', i'))"
proof (cases f)
  case (PMessage put)
  moreover assume "read_field (raft_field f) wt dAtA i m = Some (Inr (m', i'))"
  ultimately obtain j p bs where "wt = 2" "read_length dAtA i = Inr (j, p)" "byte_range dAtA j p = Some bs"
    "put bs m = Some (Inr m')" "i' = nat p"
    by (auto simp: bind_eq_Some_conv case_message_result split: if_splits sum.splits)
  then show ?thesis
    using PMessage byte_range_Some [of dAtA j p bs] read_length_checked_Inr [of dAtA i j p] by simp
next
  case (PBytes put)
  moreover assume "read_field (raft_field f) wt dAtA i m = Some (Inr (m', i'))"
  ultimately obtain j p bs where "wt = 2" "read_length dAtA i = Inr (j, p)" "byte_range dAtA j p = Some bs"
    "put bs m = m'" "i' = nat p"
    by (auto simp: bind_eq_Some_conv split: if_splits sum.splits)
  then show ?thesis
    using PBytes byte_range_Some [of dAtA j p bs] read_length_checked_Inr [of dAtA i j p] by simp
qed simp_all

lemma read_pfield_raft:
  "read_pfield f wt dAtA i m = Some (Inr (m', i')) \<Longrightarrow> read_field (raft_field f) wt dAtA i m = Some (Inr (m', i'))"
  by (cases f)
    (auto simp: bind_eq_Some_conv case_message_result read_length_checked_Inr split: if_splits sum.splits)

lemma read_pfield_progress:
  "read_pfield f wt dAtA i m = Some (Inr (m', i')) \<Longrightarrow> i < i' \<and> i' \<le> length dAtA"
  by (drule read_pfield_raft) (rule read_field_progress)

text \<open>
  The loop of \<open>Unmarshal\<close>. \<open>skippy\<close> is added with the checks for a negative sum; the slice
  \<open>dAtA[iNdEx:iNdEx+skippy]\<close> would panic in the last branch, which is never reached.
\<close>

function unmarshal_checked ::
  "(int32 \<Rightarrow> 'm pfield option) \<Rightarrow> (bytes \<Rightarrow> 'm \<Rightarrow> 'm) \<Rightarrow> bytes \<Rightarrow> 'm \<Rightarrow> nat
     \<Rightarrow> (proto_error + 'm) option" where
  "unmarshal_checked fields keep dAtA m iNdEx =
     (if length dAtA \<le> iNdEx then
        (if length dAtA < iNdEx then Some (Inl ErrUnexpectedEOF) else Some (Inr m))
      else case (read_varint dAtA iNdEx :: proto_error + u64 \<times> nat) of
        Inl e \<Rightarrow> Some (Inl e)
      | Inr (wire, i) \<Rightarrow>
          (let fieldNum = (ucast (drop_bit 3 wire) :: int32); wireType = wire AND 7 in
           if wireType = 4 then Some (Inl ErrEndGroup)
           else if sint fieldNum \<le> 0 then Some (Inl ErrIllegalTag)
           else case fields fieldNum of
                  Some f \<Rightarrow>
                    (case read_pfield f wireType dAtA i m of
                       None \<Rightarrow> None
                     | Some (Inl e) \<Rightarrow> Some (Inl e)
                     | Some (Inr (m', i')) \<Rightarrow> unmarshal_checked fields keep dAtA m' i')
                | None \<Rightarrow>
                    (case skipRaftInternal (drop iNdEx dAtA) of
                       None \<Rightarrow> None
                     | Some (Inl e) \<Rightarrow> Some (Inl e)
                     | Some (Inr skippy) \<Rightarrow>
                         (let postIndex = wrap_int (int iNdEx + skippy) in
                          if skippy < 0 then Some (Inl ErrInvalidLengthRaft)
                          else if postIndex < 0 then Some (Inl ErrInvalidLengthRaft)
                          else if int (length dAtA) < postIndex then Some (Inl ErrUnexpectedEOF)
                          else if int iNdEx < postIndex then
                            unmarshal_checked fields keep dAtA
                              (keep (take (nat postIndex - iNdEx) (drop iNdEx dAtA)) m)
                              (nat postIndex)
                          else None))))"
  by pat_completeness auto
termination
  by (relation "measure (\<lambda>(f, k, d, m, i). length d - i)")
    (auto dest!: read_varint_progress read_pfield_progress)

declare unmarshal_checked.simps [simp del]

section \<open>The checked decoder never panics\<close>

text \<open>The sum of two positions either is a position or has wrapped below zero.\<close>

lemma wrap_position:
  assumes "0 \<le> a" and "a < 2 ^ 63" and "0 \<le> b" and "b < 2 ^ 63" and "0 \<le> wrap_int (a + b)"
  shows "wrap_int (a + b) = a + b"
proof (cases "a + b < 2 ^ 63")
  case False
  then have "wrap_int (a + b) = a + b - 2 ^ 64" using assms by (intro wrap_int_over) auto
  then have "wrap_int (a + b) < 0" using assms(2,4) by simp
  with assms(5) show ?thesis by simp
qed (use assms in simp)

lemma sint_position: "sint (v :: u64) < 2 ^ 63"
  using sint_lt [of v] by simp

lemma skip_varint_progress: "skip_varint d i = Inr i' \<Longrightarrow> i < i' \<and> i' \<le> length d"
  by (auto simp: skip_varint_def dest: read_varint_progress split: sum.splits prod.splits)

definition positive_result :: "(proto_error + int) option \<Rightarrow> bool" where
  "positive_result r = (case r of None \<Rightarrow> False | Some (Inl e) \<Rightarrow> True | Some (Inr n) \<Rightarrow> 0 < n \<and> n < 2 ^ 63)"

lemma positive_result_simps [simp]:
  "positive_result (Some (Inl e))" "\<not> positive_result None"
  "positive_result (Some (Inr n)) \<longleftrightarrow> 0 < n \<and> n < 2 ^ 63"
  by (simp_all add: positive_result_def)

lemma skip_positive:
  "d \<noteq> [] \<Longrightarrow> length d < 2 ^ 62 \<Longrightarrow> positive_result (skipRaftInternal d)"
  "length d < 2 ^ 62 \<Longrightarrow> positive_result (skip_group_checked d start)"
proof (induction d and d start rule: skipRaftInternal_skip_group_checked.induct)
  case (1 d)
  show ?case
  proof (cases "read_varint d 0 :: proto_error + u64 \<times> nat")
    case (Inr x)
    obtain wire i where x: "x = (wire, i)" by (cases x)
    have i: "0 < i" "int i < 2 ^ 62" using Inr x 1(3) read_varint_progress [of d 0 wire i] by auto
    have "positive_result (case (read_varint d i :: proto_error + u64 \<times> nat) of
        Inl e \<Rightarrow> Some (Inl e)
      | Inr (len, i') \<Rightarrow>
          (if sint len < 0 then Some (Inl ErrInvalidLengthRaft)
           else let iNdEx = wrap_int (int i' + sint len)
                in if iNdEx < 0 then Some (Inl ErrInvalidLengthRaft) else Some (Inr iNdEx)))"
    proof -
      have "0 < wrap_int (int i' + sint len) \<and> wrap_int (int i' + sint len) < 2 ^ 63"
        if "read_varint d i = Inr (len :: u64, i')" "0 \<le> sint len" "0 \<le> wrap_int (int i' + sint len)" for len i'
      proof -
        have "0 < i'" "int i' < 2 ^ 62" using that(1) 1(3) read_varint_progress [of d i len i'] by auto
        then have "wrap_int (int i' + sint len) = int i' + sint len"
          using that(2,3) sint_position [of len] by (intro wrap_position) auto
        moreover have "wrap_int (int i' + sint len) < 2 ^ 63"
          unfolding wrap_int_def using signed_take_bit_int_less_exp [of 63] by simp
        ultimately show ?thesis using \<open>0 < i'\<close> that(2) by simp
      qed
      then show ?thesis by (auto simp: Let_def split: sum.split)
    qed
    moreover have "positive_result (case skip_varint d i of Inl e \<Rightarrow> Some (Inl e) | Inr i' \<Rightarrow> Some (Inr (int i')))"
      using 1(3) by (auto dest!: skip_varint_progress split: sum.split)
    ultimately show ?thesis
      using 1 Inr x i by (subst skipRaftInternal.simps) (simp add: Let_def)
  qed (use 1 in \<open>subst skipRaftInternal.simps, simp\<close>)
next
  case (2 d start)
  show ?case
  proof (cases "read_varint d start :: proto_error + u64 \<times> nat")
    case (Inr x)
    obtain wire i where x: "x = (wire, i)" by (cases x)
    have i: "start < i" "i \<le> length d" using Inr x read_varint_progress [of d start wire i] by auto
    show ?thesis
    proof (cases "wire AND 7 = 4")
      case False
      then have p: "positive_result (skipRaftInternal (drop start d))"
        using 2(1) [OF Inr x [symmetric] False] 2(3) i by (simp add: x)
      show ?thesis
      proof (cases "skipRaftInternal (drop start d)")
        case (Some r)
        show ?thesis
        proof (cases r)
          case (Inr next')
          with p Some have n: "0 < next'" "next' < 2 ^ 63" by simp_all
          have "wrap_int (int start + next') < 0 \<or> wrap_int (int start + next') = int start + next'"
            using wrap_position [of "int start" next'] n 2(3) i
            by (cases "0 \<le> wrap_int (int start + next')") auto
          then show ?thesis
            using 2(2) [OF \<open>read_varint d start = Inr x\<close> x [symmetric] False Some Inr refl] 2(3) n False Some Inr x
              \<open>read_varint d start = Inr x\<close>
            by (subst skip_group_checked.simps) (auto simp: Let_def)
        qed (use False Some Inr x in \<open>subst skip_group_checked.simps, simp\<close>)
      qed (use p in simp)
    qed (use Inr x i 2(3) in \<open>subst skip_group_checked.simps, simp\<close>)
  qed (subst skip_group_checked.simps, simp)
qed

lemma byte_range_checked:
  assumes "read_length_checked d i = Inr (j, p)" and "length d < 2 ^ 62"
  obtains bs where "byte_range d j p = Some bs" and "length bs < 2 ^ 62"
proof -
  from assms(1) obtain len :: u64 where v: "read_varint d i = Inr (len, j)" "0 \<le> sint len"
    "p = wrap_int (int j + sint len)" "0 \<le> p" "p \<le> int (length d)"
    by (auto simp: read_length_checked_def Let_def split: sum.splits if_splits)
  have "int j < 2 ^ 62" using v(1) assms(2) read_varint_progress [of d i len j] by auto
  then have "p = int j + sint len"
    using v(2-4) sint_position [of len] wrap_position [of "int j" "sint len"] by simp
  then have "byte_range d j p = Some (take (nat p - j) (drop j d))"
    using v(2,5) by (simp add: byte_range_def go_slice_def nat_le_iff le_nat_iff)
  then show ?thesis using assms(2) by (intro that [of "take (nat p - j) (drop j d)"]) auto
qed

definition total_fields :: "(int32 \<Rightarrow> 'm pfield option) \<Rightarrow> bool" where
  "total_fields fields \<longleftrightarrow> (\<forall>n put bs m. fields n = Some (PMessage put) \<longrightarrow> length bs < 2 ^ 62 \<longrightarrow> put bs m \<noteq> None)"

lemma read_pfield_total:
  assumes "total_fields fields" and "fields n = Some f" and "length d < 2 ^ 62"
  shows "read_pfield f wt d i m \<noteq> None"
proof (cases "read_length_checked d i")
  case (Inr x)
  obtain j p where x: "x = (j, p)" by (cases x)
  from Inr x obtain bs where bs: "byte_range d j p = Some bs" "length bs < 2 ^ 62"
    by (auto elim: byte_range_checked [OF _ assms(3)])
  show ?thesis
  proof (cases f)
    case (PMessage put)
    then obtain r where "put bs m = Some r" using assms(1,2) bs(2) unfolding total_fields_def by blast
    with PMessage Inr x bs(1) show ?thesis by (cases r) simp_all
  qed (use Inr x bs(1) in \<open>auto split: sum.splits\<close>)
qed (cases f; auto split: sum.splits)

theorem unmarshal_checked_total:
  assumes "total_fields fields" and "length d < 2 ^ 62"
  shows "unmarshal_checked fields keep d m i \<noteq> None"
  using assms
proof (induction fields keep d m i rule: unmarshal_checked.induct)
  case (1 fields keep d m i)
  show ?case
  proof (cases "length d \<le> i \<or> (\<exists>e. (read_varint d i :: proto_error + u64 \<times> nat) = Inl e)")
    case False
    then obtain wire j where r: "read_varint d i = Inr (wire :: u64, j)"
      by (cases "read_varint d i :: proto_error + u64 \<times> nat") auto
    let ?n = "ucast (drop_bit 3 wire) :: int32"
    show ?thesis
    proof (cases "wire AND 7 = 4 \<or> sint ?n \<le> 0")
      case False': False
      show ?thesis
      proof (cases "fields ?n")
        case (Some f)
        then show ?thesis
          using False False' r read_pfield_total [OF 1(3) Some 1(4)] 1(2) [OF _ r refl refl refl _ _ Some] 1(3,4)
          by (subst unmarshal_checked.simps) (auto simp: Let_def split: option.splits sum.splits)
      next
        case None
        from False have "positive_result (skipRaftInternal (drop i d))"
          using 1(4) by (intro skip_positive(1)) auto
        then obtain r' where r': "skipRaftInternal (drop i d) = Some r'" "positive_result (Some r')"
          by (cases "skipRaftInternal (drop i d)") auto
        show ?thesis
        proof (cases r')
          case (Inr n)
          with r' have n: "skipRaftInternal (drop i d) = Some (Inr n)" "0 < n" "n < 2 ^ 63" by simp_all
          then have w: "wrap_int (int i + n) < 0 \<or> wrap_int (int i + n) = int i + n"
            using False 1(4) wrap_position [of "int i" n] by (cases "0 \<le> wrap_int (int i + n)") auto
          have "unmarshal_checked fields keep d (keep (take (nat (int i + n) - i) (drop i d)) m) (nat (int i + n)) \<noteq> None"
            if "wrap_int (int i + n) = int i + n" "int i + n \<le> int (length d)"
            using 1(1) [OF _ r refl refl refl _ _ None n(1) refl refl] that n(2) False False' 1(3,4) by simp
          then show ?thesis
            using w False False' r None n by (subst unmarshal_checked.simps) (auto simp: Let_def not_le)
        qed (use False False' r None r' in \<open>subst unmarshal_checked.simps, simp add: Let_def\<close>)
      qed
    qed (use False r in \<open>subst unmarshal_checked.simps, auto simp: Let_def\<close>)
  qed (subst unmarshal_checked.simps, auto)
qed

section \<open>Agreement with the unchecked decoder\<close>

lemma skip_group_start: "skip_group d start = Some (Inr n) \<Longrightarrow> start < length d"
  by (subst (asm) skip_group.simps) (auto dest: read_varint_progress split: sum.splits prod.splits)

lemma skipRaft_tag:
  "skipRaft d = Some (Inr n) \<Longrightarrow> d \<noteq> [] \<and> (\<exists>wire i. read_varint d 0 = Inr (wire :: u64, i))"
  by (subst (asm) skipRaft.simps) (auto split: sum.splits if_splits)

lemma skip_group_tag:
  "skip_group d start = Some (Inr n) \<Longrightarrow> \<exists>wire i. read_varint d start = Inr (wire :: u64, i)"
  by (subst (asm) skip_group.simps) (auto split: sum.splits)

lemma unmarshal_loop_tag:
  "unmarshal_loop F K d m i = Some (Inr m') \<Longrightarrow> \<not> length d \<le> i \<Longrightarrow>
     \<exists>wire j. read_varint d i = Inr (wire :: u64, j)"
  by (subst (asm) unmarshal_loop.simps) (auto split: sum.splits)

lemma skip_agrees:
  "length d < 2 ^ 62 \<Longrightarrow> skipRaft d = Some (Inr n) \<Longrightarrow> 0 < n \<Longrightarrow> skipRaftInternal d = Some (Inr n)"
  "length d < 2 ^ 62 \<Longrightarrow> skip_group d start = Some (Inr n) \<Longrightarrow> skip_group_checked d start = Some (Inr n)"
proof (induction d and d start arbitrary: n and n rule: skipRaft_skip_group.induct)
  case (1 d)
  then obtain wire i where r: "read_varint d 0 = Inr (wire :: u64, i)" and d: "d \<noteq> []"
    using skipRaft_tag by blast
  then have "int i < 2 ^ 62" using 1(2) read_varint_progress [of d 0 wire i] by auto
  with 1(1) [OF d r refl refl] 1(2,4) 1(3) [unfolded skipRaft.simps [of d]] r d show ?case
    by (subst skipRaftInternal.simps) (auto simp: Let_def split: sum.splits if_splits)
next
  case (2 d start)
  then obtain wire i where r: "read_varint d start = Inr (wire :: u64, i)"
    using skip_group_tag by blast
  show ?case
  proof (cases "wire AND 7 = 4")
    case True
    with r 2(4) [unfolded skip_group.simps [of d start]] show ?thesis by (subst skip_group_checked.simps) simp
  next
    case False
    with r 2(4) [unfolded skip_group.simps [of d start]] obtain k where
      k: "skipRaft (drop start d) = Some (Inr k)" "0 < k" "skip_group d (start + nat k) = Some (Inr n)"
      by (auto split: option.splits sum.splits if_splits)
    have w: "wrap_int (int start + k) = int start + k"
      using skip_group_start [OF k(3)] k(2) 2(3) by (intro wrap_int_id) auto
    have "skipRaftInternal (drop start d) = Some (Inr k)"
      using 2(1) [OF r refl False _ k(1,2)] 2(3) by simp
    moreover have "skip_group_checked d (nat (int start + k)) = Some (Inr n)"
      using 2(2) [OF r refl False k(1) refl k(2) _ k(3)] 2(3) k(2) by (simp add: nat_add_distrib)
    ultimately show ?thesis
      using r False k(2) w by (subst skip_group_checked.simps) simp
  qed
qed

theorem unmarshal_checked_agrees:
  assumes "length d < 2 ^ 62"
    and "unmarshal_loop (\<lambda>n. map_option raft_field (fields n)) keep d m i = Some (Inr m')"
  shows "unmarshal_checked fields keep d m i = Some (Inr m')"
  using assms
proof (induction fields keep d m i rule: unmarshal_checked.induct)
  case (1 fields keep d m i)
  show ?case
  proof (cases "length d \<le> i")
    case True
    with 1(4) [unfolded unmarshal_loop.simps [of _ keep d m i]] show ?thesis
      by (subst unmarshal_checked.simps) (simp split: if_splits)
  next
    case False
    note loop = 1(4) [unfolded unmarshal_loop.simps [of _ keep d m i]]
    from unmarshal_loop_tag [OF 1(4) False] obtain wire j where r: "read_varint d i = Inr (wire :: u64, j)"
      by (elim exE)
    let ?n = "ucast (drop_bit 3 wire) :: int32"
    from loop False r have t: "wire AND 7 \<noteq> 4" "\<not> sint ?n \<le> 0"
      by (simp_all add: Let_def split: if_splits)
    show ?thesis
    proof (cases "fields ?n")
      case (Some f)
      with loop False r t obtain m1 j1 where f: "read_field (raft_field f) (wire AND 7) d j m = Some (Inr (m1, j1))"
        "unmarshal_loop (\<lambda>n. map_option raft_field (fields n)) keep d m1 j1 = Some (Inr m')"
        by (auto simp: Let_def split: option.splits sum.splits)
      with 1(2) [OF False r refl refl refl t Some read_pfield_agrees [OF f(1)] refl refl 1(3) f(2)]
      show ?thesis
        using False r t Some read_pfield_agrees [OF f(1)]
        by (subst unmarshal_checked.simps) (simp add: Let_def)
    next
      case None
      let ?p = "\<lambda>k. wrap_int (int i + k)"
      from None loop False r t obtain k where k: "skipRaft (drop i d) = Some (Inr k)" "\<not> k < 0"
        "\<not> int (length d) < ?p k" "int i < ?p k"
        "unmarshal_loop (\<lambda>n. map_option raft_field (fields n)) keep d (keep (take (nat (?p k) - i) (drop i d)) m) (nat (?p k))
           = Some (Inr m')"
        by (auto simp: Let_def split: option.splits sum.splits if_splits)
      moreover have "wrap_int (int i) = int i" using 1(3) False by (intro wrap_int_id) auto
      with k(2,4) have "0 < k" by (cases "k = 0") auto
      ultimately have s: "skipRaftInternal (drop i d) = Some (Inr k)" using 1(3) by (intro skip_agrees) auto
      with 1(1) [OF False r refl refl refl t None s refl refl k(2) _ k(3,4) 1(3) k(5)] show ?thesis
        using False r t None s k by (subst unmarshal_checked.simps) (simp add: Let_def)
    qed
  qed
qed

section \<open>Fields that are left out when they are zero\<close>

text \<open>\<open>proto3\<close> writes a number only when it is not zero, a bool only when it is true, a string or
  byte string only when it is not empty, and a pointer only when it is not nil.\<close>

definition given :: "bool \<Rightarrow> 'a list \<Rightarrow> 'a list" where
  "given b xs = (if b then xs else [])"

lemma given_simps [simp]: "given True xs = xs" "given False xs = []"
  by (simp_all add: given_def)

lemma length_given [chunk_lengths]: "length (given b xs) = (if b then length xs else 0)"
  by (simp add: given_def)

lemma writes_given: "writes (emit ws) bs \<Longrightarrow> writes (emit (given b ws)) (given b bs)"
  by (simp add: given_def writes_emit_Nil)

lemma decodes_nonzero:
  "tag_of t n 0 \<Longrightarrow> fields n = Some (FUint64 put) \<Longrightarrow> put 0 m = m \<Longrightarrow>
     decodes fields keep (given (v \<noteq> 0) (t # varint v)) m (put v m)"
  using decodes_uint64 [of t n fields put keep v m] by (cases "v = 0") (simp_all add: decodes_Nil)

lemma decodes_true:
  "tag_of t n 0 \<Longrightarrow> fields n = Some (FBool put) \<Longrightarrow> put False m = m \<Longrightarrow>
     decodes fields keep (given b [t, bool_byte b]) m (put b m)"
  using decodes_bool_byte [of t n fields put keep b m] by (cases b) (simp_all add: decodes_Nil)

lemma decodes_nonempty:
  "tag_of t n 2 \<Longrightarrow> fields n = Some (FBytes put) \<Longrightarrow> put [] m = m \<Longrightarrow>
     decodes fields keep (given (bs \<noteq> []) (delimited t bs)) m (put bs m)"
  using decodes_bytes [of t n fields put keep bs m] by (cases "bs = []") (simp_all add: decodes_Nil delimited_def)

text \<open>Tags of field numbers from 16 on take two bytes.\<close>

definition tag2_of :: "byte \<Rightarrow> byte \<Rightarrow> int32 \<Rightarrow> u64 \<Rightarrow> bool" where
  "tag2_of t1 t2 fieldNum wireType \<longleftrightarrow>
     (let w = ucast (t1 AND 127) OR push_bit 7 (ucast t2 :: u64) in
      varint w = [t1, t2] \<and> ucast (drop_bit 3 w) = fieldNum \<and> w AND 7 = wireType \<and> wireType \<noteq> 4 \<and> 0 < sint fieldNum)"

lemma decodes_field2:
  assumes t: "tag2_of t1 t2 fieldNum wireType" and f: "fields fieldNum = Some f"
    and r: "\<And>d i rest. drop i d = bs @ rest \<Longrightarrow> i \<le> length d \<Longrightarrow> length d < 2 ^ 63 \<Longrightarrow>
      read_field f wireType d i m = Some (Inr (m', i + length bs))"
  shows "decodes fields keep (t1 # t2 # bs) m m'"
  unfolding decodes_def
proof (intro allI impI)
  fix d :: bytes and i rest
  assume a: "drop i d = (t1 # t2 # bs) @ rest" "i \<le> length d" "length d < 2 ^ 63"
  let ?w = "ucast (t1 AND 127) OR push_bit 7 (ucast t2 :: u64)"
  have v: "varint ?w = [t1, t2]" "ucast (drop_bit 3 ?w) = fieldNum" "?w AND 7 = wireType" "wireType \<noteq> 4" "0 < sint fieldNum"
    using t by (simp_all add: tag2_of_def Let_def)
  then have "read_varint d i = Inr (?w, i + 2)" using read_varint_u64 [of i d ?w "bs @ rest"] a(1) by simp
  moreover have i: "i + 2 \<le> length d" "drop (i + 2) d = bs @ rest"
    using drop_Cons_nth [of i d t1 "t2 # bs @ rest"] drop_Cons_nth [of "i + 1" d t2 "bs @ rest"] a(1) by simp_all
  moreover have "read_field f wireType d (i + 2) m = Some (Inr (m', i + 2 + length bs))"
    using i a(3) by (intro r) simp_all
  ultimately show "unmarshal_loop fields keep d m i = unmarshal_loop fields keep d m' (i + length (t1 # t2 # bs))"
    using v f by (subst unmarshal_loop.simps) (simp add: Let_def)
qed

lemma decodes_bool2:
  assumes "tag2_of t1 t2 n 0" and "fields n = Some (FBool put)"
  shows "decodes fields keep [t1, t2, bool_byte b] m (put b m)"
proof (rule decodes_field2 [where fields = fields and fieldNum = n, OF assms])
  fix d :: bytes and i rest
  assume "drop i d = [bool_byte b] @ rest"
  then have "read_varint d i = Inr (ucast (bool_byte b) :: u64, i + 1)"
    by (intro read_varint_tag [of i d _ rest]) (simp_all add: bool_byte_def)
  then show "read_field (FBool put) 0 d i m = Some (Inr (put b m, i + length [bool_byte b]))"
    by (simp add: bool_byte_def)
qed

lemma decodes_delimited2:
  assumes "tag2_of t1 t2 n 2" and "fields n = Some (FMessage put)"
    and "length bs < 2 ^ 63 \<Longrightarrow> put bs m = Some (Inr m')"
  shows "decodes fields keep (t1 # delimited t2 bs) m m'"
  unfolding delimited_def
proof (rule decodes_field2 [where fields = fields and fieldNum = n, OF assms(1,2)])
  fix d :: bytes and i rest
  let ?j = "i + length (varint (of_nat (length bs)))"
  assume "drop i d = (varint (of_nat (length bs)) @ bs) @ rest" "i \<le> length d" "length d < 2 ^ 63"
  from read_length_prefix [OF this]
  have r: "read_length d i = Inr (?j, int (?j + length bs))"
    and b: "byte_range d ?j (int (?j + length bs)) = Some bs" by (rule conjunct1, rule conjunct2)
  from byte_range_Some [OF b] \<open>length d < 2 ^ 63\<close> have "length bs < 2 ^ 63" by linarith
  with assms(3) r b show "read_field (FMessage put) 2 d i m
      = Some (Inr (m', i + length (varint (of_nat (length bs)) @ bs)))"
    by (simp del: of_nat_add)
qed

section \<open>The contract of a message's codec\<close>

locale checked_codec =
  message_codec msg_size msg_marshalTo "\<lambda>n. map_option raft_field (msg_fields n)" msg_keep msg_zero msg_bytes msg_known
  for msg_size :: "'m \<Rightarrow> nat" and msg_marshalTo and msg_fields and msg_keep and msg_zero and msg_bytes and msg_known +
  assumes fields_total: "total_fields msg_fields"
begin

lemma checked_bytes:
  "msg_known m \<Longrightarrow> length (msg_bytes m) < 2 ^ 62 \<Longrightarrow>
     unmarshal_checked msg_fields msg_keep (msg_bytes m) msg_zero 0 = Some (Inr m)"
  by (rule unmarshal_checked_agrees) (simp_all add: unmarshal_bytes)

lemma checked_round_trip:
  "msg_known m \<Longrightarrow> msg_size m < 2 ^ 62 \<Longrightarrow>
     do { bs \<leftarrow> marshal (msg_size m) (msg_marshalTo m);
          unmarshal_checked msg_fields msg_keep bs msg_zero 0 } = Some (Inr m)"
  unfolding marshal_exact by (simp add: checked_bytes size_exact)

lemma checked_total: "length d < 2 ^ 62 \<Longrightarrow> unmarshal_checked msg_fields msg_keep d m i \<noteq> None"
  by (rule unmarshal_checked_total [OF fields_total])

end

end
