(* ===== verification/Internal_Request.thy ===== *)
theory Internal_Request
  imports Raftpb Checked_Wire
begin

text \<open>
  The requests the server sends through raft, from \<open>etcdserver/etcdserverpb\<close>: \<open>RequestHeader\<close> and
  \<open>InternalRaftRequest\<close> of \<open>raft_internal.pb.go\<close>, \<open>PutRequest\<close> of \<open>rpc.pb.go\<close>, and the
  v2 \<open>Request\<close> of \<open>etcdserver.pb.go\<close>. An \<open>int64\<close> is a 64-bit word read with \<open>sint\<close>; a \<open>[]byte\<close>
  field is its bytes, since the code looks only at its length and never tells nil from empty; a
  pointer is an option.

  Each message interprets \<open>checked_codec\<close>. Together these give that the bytes of a proposal carry
  the request exactly, and that no bytes make the decoder panic.
\<close>

section \<open>RequestHeader\<close>

record RequestHeader =
  rh_ID :: u64
  rh_Username :: string
  rh_AuthRevision :: u64
  rh_XXX :: "bytes option"

definition RequestHeader_zero :: RequestHeader where
  "RequestHeader_zero = \<lparr>rh_ID = 0, rh_Username = [], rh_AuthRevision = 0, rh_XXX = None\<rparr>"

definition RequestHeader_Size :: "RequestHeader \<Rightarrow> nat" where
  "RequestHeader_Size m =
     (if rh_ID m \<noteq> 0 then 1 + sovRaft (rh_ID m) else 0) +
     (let l = length (rh_Username m) in if 0 < l then 1 + l + sovRaft (of_nat l) else 0) +
     (if rh_AuthRevision m \<noteq> 0 then 1 + sovRaft (rh_AuthRevision m) else 0) + unrecognized_size (rh_XXX m)"

definition RequestHeader_MarshalTo :: "RequestHeader \<Rightarrow> bytes \<Rightarrow> (bytes \<times> nat) option" where
  "RequestHeader_MarshalTo m dAtA = emit
     (given (rh_ID m \<noteq> 0) [put_byte 0x08, put_varint (rh_ID m)] @
      given (string_bytes (rh_Username m) \<noteq> [])
        [put_byte 0x12, put_varint (of_nat (length (rh_Username m))), put_copy (string_bytes (rh_Username m))] @
      given (rh_AuthRevision m \<noteq> 0) [put_byte 0x18, put_varint (rh_AuthRevision m)] @
      unrecognized (rh_XXX m)) dAtA 0"

definition RequestHeader_fields :: "int32 \<Rightarrow> RequestHeader pfield option" where
  "RequestHeader_fields n =
     (if n = 1 then Some (PVarint (\<lambda>v m. m\<lparr>rh_ID := v\<rparr>))
      else if n = 2 then Some (PBytes (\<lambda>bs m. m\<lparr>rh_Username := bytes_string bs\<rparr>))
      else if n = 3 then Some (PVarint (\<lambda>v m. m\<lparr>rh_AuthRevision := v\<rparr>))
      else None)"

definition RequestHeader_keep :: "bytes \<Rightarrow> RequestHeader \<Rightarrow> RequestHeader" where
  "RequestHeader_keep bs m = m\<lparr>rh_XXX := keep_bytes bs (rh_XXX m)\<rparr>"

definition RequestHeader_Unmarshal :: "bytes \<Rightarrow> RequestHeader \<Rightarrow> (proto_error + RequestHeader) option" where
  "RequestHeader_Unmarshal dAtA m = unmarshal_checked RequestHeader_fields RequestHeader_keep dAtA m 0"

definition RequestHeader_bytes :: "RequestHeader \<Rightarrow> bytes" where
  "RequestHeader_bytes m =
     given (rh_ID m \<noteq> 0) (0x08 # varint (rh_ID m)) @
     given (string_bytes (rh_Username m) \<noteq> []) (delimited 0x12 (string_bytes (rh_Username m))) @
     given (rh_AuthRevision m \<noteq> 0) (0x18 # varint (rh_AuthRevision m)) @ raw_bytes (rh_XXX m)"

definition RequestHeader_known :: "RequestHeader \<Rightarrow> bool" where
  "RequestHeader_known m \<longleftrightarrow> rh_XXX m = None"

lemmas decodes_given = decodes_nonzero decodes_true decodes_nonempty

lemma bytes_string_Nil [simp]: "bytes_string [] = []"
  by (simp add: bytes_string_def)

lemma RequestHeader_decodes:
  assumes "RequestHeader_known m"
  shows "decodes (\<lambda>n. map_option raft_field (RequestHeader_fields n)) RequestHeader_keep
    (RequestHeader_bytes m) RequestHeader_zero m"
  unfolding RequestHeader_bytes_def
  by (rule decodes_eq,
      ((rule decodes_append, rule decodes_given, rule tag_simps, (simp add: RequestHeader_fields_def; fail),
        (simp add: RequestHeader_zero_def; fail))+,
       rule decodes_none))
    (use assms in \<open>cases m; simp add: RequestHeader_known_def RequestHeader_zero_def\<close>)+

lemma writes_given_delimited:
  "writes w bs \<Longrightarrow> n = length bs \<Longrightarrow>
     writes (emit (given b [put_byte t, put_varint (of_nat n), w])) (given b (delimited t bs))"
  by (rule writes_given) (rule writes_last_delimited)

lemma writes_given_varint: "writes (emit (given b [put_byte t, put_varint v])) (given b (t # varint v))"
  by (rule writes_given) (rule writes_last_field, rule writes_put_varint)

lemma writes_given_bool: "writes (emit (given b [put_byte t, put_byte c])) (given b [t, c])"
  by (rule writes_given) (rule writes_last_field, rule writes_put_byte)

lemmas writes_proto3 = writes_emit_append writes_given_varint writes_given_bool writes_given_delimited
  writes_unrecognized writes_put_copy

interpretation request_header: checked_codec RequestHeader_Size RequestHeader_MarshalTo RequestHeader_fields
  RequestHeader_keep RequestHeader_zero RequestHeader_bytes RequestHeader_known
proof
  show "RequestHeader_Size m = length (RequestHeader_bytes m)" for m
    by (simp add: RequestHeader_Size_def RequestHeader_bytes_def chunk_lengths Let_def)
  show "length (RequestHeader_bytes m) \<le> length buf \<Longrightarrow> RequestHeader_MarshalTo m buf
      = Some (RequestHeader_bytes m @ drop (length (RequestHeader_bytes m)) buf, length (RequestHeader_bytes m))"
    for m buf
    unfolding RequestHeader_MarshalTo_def
    by (rule emit_exact) (simp_all only: RequestHeader_bytes_def, intro writes_proto3 length_string_bytes [symmetric])
  show "total_fields RequestHeader_fields"
    by (auto simp: total_fields_def RequestHeader_fields_def split: if_splits)
qed (rule RequestHeader_decodes)

section \<open>PutRequest\<close>

record PutRequest =
  pr_Key :: bytes
  pr_Value :: bytes
  pr_Lease :: u64
  pr_PrevKv :: bool
  pr_IgnoreValue :: bool
  pr_IgnoreLease :: bool
  pr_XXX :: "bytes option"

definition PutRequest_zero :: PutRequest where
  "PutRequest_zero = \<lparr>pr_Key = [], pr_Value = [], pr_Lease = 0, pr_PrevKv = False, pr_IgnoreValue = False,
     pr_IgnoreLease = False, pr_XXX = None\<rparr>"

definition PutRequest_Size :: "PutRequest \<Rightarrow> nat" where
  "PutRequest_Size m =
     (let l = length (pr_Key m) in if 0 < l then 1 + l + sovRaft (of_nat l) else 0) +
     (let l = length (pr_Value m) in if 0 < l then 1 + l + sovRaft (of_nat l) else 0) +
     (if pr_Lease m \<noteq> 0 then 1 + sovRaft (pr_Lease m) else 0) +
     (if pr_PrevKv m then 2 else 0) + (if pr_IgnoreValue m then 2 else 0) + (if pr_IgnoreLease m then 2 else 0) +
     unrecognized_size (pr_XXX m)"

definition PutRequest_MarshalTo :: "PutRequest \<Rightarrow> bytes \<Rightarrow> (bytes \<times> nat) option" where
  "PutRequest_MarshalTo m dAtA = emit
     (given (pr_Key m \<noteq> []) [put_byte 0x0a, put_varint (of_nat (length (pr_Key m))), put_copy (pr_Key m)] @
      given (pr_Value m \<noteq> []) [put_byte 0x12, put_varint (of_nat (length (pr_Value m))), put_copy (pr_Value m)] @
      given (pr_Lease m \<noteq> 0) [put_byte 0x18, put_varint (pr_Lease m)] @
      given (pr_PrevKv m) [put_byte 0x20, put_byte (bool_byte (pr_PrevKv m))] @
      given (pr_IgnoreValue m) [put_byte 0x28, put_byte (bool_byte (pr_IgnoreValue m))] @
      given (pr_IgnoreLease m) [put_byte 0x30, put_byte (bool_byte (pr_IgnoreLease m))] @
      unrecognized (pr_XXX m)) dAtA 0"

definition PutRequest_fields :: "int32 \<Rightarrow> PutRequest pfield option" where
  "PutRequest_fields n =
     (if n = 1 then Some (PBytes (\<lambda>bs m. m\<lparr>pr_Key := bs\<rparr>))
      else if n = 2 then Some (PBytes (\<lambda>bs m. m\<lparr>pr_Value := bs\<rparr>))
      else if n = 3 then Some (PVarint (\<lambda>v m. m\<lparr>pr_Lease := v\<rparr>))
      else if n = 4 then Some (PBool (\<lambda>v m. m\<lparr>pr_PrevKv := v\<rparr>))
      else if n = 5 then Some (PBool (\<lambda>v m. m\<lparr>pr_IgnoreValue := v\<rparr>))
      else if n = 6 then Some (PBool (\<lambda>v m. m\<lparr>pr_IgnoreLease := v\<rparr>))
      else None)"

definition PutRequest_keep :: "bytes \<Rightarrow> PutRequest \<Rightarrow> PutRequest" where
  "PutRequest_keep bs m = m\<lparr>pr_XXX := keep_bytes bs (pr_XXX m)\<rparr>"

definition PutRequest_Unmarshal :: "bytes \<Rightarrow> PutRequest \<Rightarrow> (proto_error + PutRequest) option" where
  "PutRequest_Unmarshal dAtA m = unmarshal_checked PutRequest_fields PutRequest_keep dAtA m 0"

definition PutRequest_bytes :: "PutRequest \<Rightarrow> bytes" where
  "PutRequest_bytes m =
     given (pr_Key m \<noteq> []) (delimited 0x0a (pr_Key m)) @ given (pr_Value m \<noteq> []) (delimited 0x12 (pr_Value m)) @
     given (pr_Lease m \<noteq> 0) (0x18 # varint (pr_Lease m)) @
     given (pr_PrevKv m) [0x20, bool_byte (pr_PrevKv m)] @
     given (pr_IgnoreValue m) [0x28, bool_byte (pr_IgnoreValue m)] @
     given (pr_IgnoreLease m) [0x30, bool_byte (pr_IgnoreLease m)] @ raw_bytes (pr_XXX m)"

definition PutRequest_known :: "PutRequest \<Rightarrow> bool" where
  "PutRequest_known m \<longleftrightarrow> pr_XXX m = None"

lemma PutRequest_decodes:
  assumes "PutRequest_known m"
  shows "decodes (\<lambda>n. map_option raft_field (PutRequest_fields n)) PutRequest_keep
    (PutRequest_bytes m) PutRequest_zero m"
  unfolding PutRequest_bytes_def
  by (rule decodes_eq,
      ((rule decodes_append, rule decodes_given, rule tag_simps, (simp add: PutRequest_fields_def; fail),
        (simp add: PutRequest_zero_def; fail))+,
       rule decodes_none))
    (use assms in \<open>cases m; simp add: PutRequest_known_def PutRequest_zero_def\<close>)+

interpretation put_request: checked_codec PutRequest_Size PutRequest_MarshalTo PutRequest_fields
  PutRequest_keep PutRequest_zero PutRequest_bytes PutRequest_known
proof
  show "PutRequest_Size m = length (PutRequest_bytes m)" for m
    by (simp add: PutRequest_Size_def PutRequest_bytes_def chunk_lengths Let_def)
  show "length (PutRequest_bytes m) \<le> length buf \<Longrightarrow> PutRequest_MarshalTo m buf
      = Some (PutRequest_bytes m @ drop (length (PutRequest_bytes m)) buf, length (PutRequest_bytes m))"
    for m buf
    unfolding PutRequest_MarshalTo_def
    by (rule emit_exact) (simp_all only: PutRequest_bytes_def, intro writes_proto3 refl)
  show "total_fields PutRequest_fields"
    by (auto simp: total_fields_def PutRequest_fields_def split: if_splits)
qed (rule PutRequest_decodes)

section \<open>The v2 Request\<close>

record Request =
  rq_ID :: u64
  rq_Method :: string
  rq_Path :: string
  rq_Val :: string
  rq_Dir :: bool
  rq_PrevValue :: string
  rq_PrevIndex :: u64
  rq_PrevExist :: "bool option"
  rq_Expiration :: u64
  rq_Wait :: bool
  rq_Since :: u64
  rq_Recursive :: bool
  rq_Sorted :: bool
  rq_Quorum :: bool
  rq_Time :: u64
  rq_Stream :: bool
  rq_Refresh :: "bool option"
  rq_XXX :: "bytes option"

definition Request_zero :: Request where
  "Request_zero = \<lparr>rq_ID = 0, rq_Method = [], rq_Path = [], rq_Val = [], rq_Dir = False, rq_PrevValue = [],
     rq_PrevIndex = 0, rq_PrevExist = None, rq_Expiration = 0, rq_Wait = False, rq_Since = 0, rq_Recursive = False,
     rq_Sorted = False, rq_Quorum = False, rq_Time = 0, rq_Stream = False, rq_Refresh = None, rq_XXX = None\<rparr>"

definition string_size :: "string \<Rightarrow> nat" where
  "string_size s = (let l = length s in 1 + l + sovRaft (of_nat l))"

definition Request_Size :: "Request \<Rightarrow> nat" where
  "Request_Size m =
     (1 + sovRaft (rq_ID m)) + string_size (rq_Method m) + string_size (rq_Path m) + string_size (rq_Val m) + 2 +
     string_size (rq_PrevValue m) + (1 + sovRaft (rq_PrevIndex m)) + (if rq_PrevExist m \<noteq> None then 2 else 0) +
     (1 + sovRaft (rq_Expiration m)) + 2 + (1 + sovRaft (rq_Since m)) + 2 + 2 + 2 + (1 + sovRaft (rq_Time m)) + 3 +
     (if rq_Refresh m \<noteq> None then 3 else 0) + unrecognized_size (rq_XXX m)"

definition put_string :: "byte \<Rightarrow> string \<Rightarrow> writer list" where
  "put_string t s = [put_byte t, put_varint (of_nat (length s)), put_copy (string_bytes s)]"

definition put_bool :: "byte list \<Rightarrow> bool \<Rightarrow> writer list" where
  "put_bool ts b = map put_byte (ts @ [bool_byte b])"

definition put_opt_bool :: "byte list \<Rightarrow> bool option \<Rightarrow> writer list" where
  "put_opt_bool ts x = (case x of None \<Rightarrow> [] | Some b \<Rightarrow> put_bool ts b)"

definition Request_MarshalTo :: "Request \<Rightarrow> bytes \<Rightarrow> (bytes \<times> nat) option" where
  "Request_MarshalTo m dAtA = emit
     ([put_byte 0x08, put_varint (rq_ID m)] @ put_string 0x12 (rq_Method m) @ put_string 0x1a (rq_Path m) @
      put_string 0x22 (rq_Val m) @ put_bool [0x28] (rq_Dir m) @ put_string 0x32 (rq_PrevValue m) @
      [put_byte 0x38, put_varint (rq_PrevIndex m)] @ put_opt_bool [0x40] (rq_PrevExist m) @
      [put_byte 0x48, put_varint (rq_Expiration m)] @ put_bool [0x50] (rq_Wait m) @
      [put_byte 0x58, put_varint (rq_Since m)] @ put_bool [0x60] (rq_Recursive m) @ put_bool [0x68] (rq_Sorted m) @
      put_bool [0x70] (rq_Quorum m) @ [put_byte 0x78, put_varint (rq_Time m)] @ put_bool [0x80, 0x01] (rq_Stream m) @
      put_opt_bool [0x88, 0x01] (rq_Refresh m) @ unrecognized (rq_XXX m)) dAtA 0"

definition Request_fields :: "int32 \<Rightarrow> Request pfield option" where
  "Request_fields n =
     (if n = 1 then Some (PVarint (\<lambda>v m. m\<lparr>rq_ID := v\<rparr>))
      else if n = 2 then Some (PBytes (\<lambda>bs m. m\<lparr>rq_Method := bytes_string bs\<rparr>))
      else if n = 3 then Some (PBytes (\<lambda>bs m. m\<lparr>rq_Path := bytes_string bs\<rparr>))
      else if n = 4 then Some (PBytes (\<lambda>bs m. m\<lparr>rq_Val := bytes_string bs\<rparr>))
      else if n = 5 then Some (PBool (\<lambda>v m. m\<lparr>rq_Dir := v\<rparr>))
      else if n = 6 then Some (PBytes (\<lambda>bs m. m\<lparr>rq_PrevValue := bytes_string bs\<rparr>))
      else if n = 7 then Some (PVarint (\<lambda>v m. m\<lparr>rq_PrevIndex := v\<rparr>))
      else if n = 8 then Some (PBool (\<lambda>v m. m\<lparr>rq_PrevExist := Some v\<rparr>))
      else if n = 9 then Some (PVarint (\<lambda>v m. m\<lparr>rq_Expiration := v\<rparr>))
      else if n = 10 then Some (PBool (\<lambda>v m. m\<lparr>rq_Wait := v\<rparr>))
      else if n = 11 then Some (PVarint (\<lambda>v m. m\<lparr>rq_Since := v\<rparr>))
      else if n = 12 then Some (PBool (\<lambda>v m. m\<lparr>rq_Recursive := v\<rparr>))
      else if n = 13 then Some (PBool (\<lambda>v m. m\<lparr>rq_Sorted := v\<rparr>))
      else if n = 14 then Some (PBool (\<lambda>v m. m\<lparr>rq_Quorum := v\<rparr>))
      else if n = 15 then Some (PVarint (\<lambda>v m. m\<lparr>rq_Time := v\<rparr>))
      else if n = 16 then Some (PBool (\<lambda>v m. m\<lparr>rq_Stream := v\<rparr>))
      else if n = 17 then Some (PBool (\<lambda>v m. m\<lparr>rq_Refresh := Some v\<rparr>))
      else None)"

definition Request_keep :: "bytes \<Rightarrow> Request \<Rightarrow> Request" where
  "Request_keep bs m = m\<lparr>rq_XXX := keep_bytes bs (rq_XXX m)\<rparr>"

definition Request_Unmarshal :: "bytes \<Rightarrow> Request \<Rightarrow> (proto_error + Request) option" where
  "Request_Unmarshal dAtA m = unmarshal_checked Request_fields Request_keep dAtA m 0"

definition string_field :: "byte \<Rightarrow> string \<Rightarrow> bytes" where
  "string_field t s = delimited t (string_bytes s)"

definition bool_field :: "byte list \<Rightarrow> bool \<Rightarrow> bytes" where
  "bool_field ts b = ts @ [bool_byte b]"

definition opt_bool_field :: "byte list \<Rightarrow> bool option \<Rightarrow> bytes" where
  "opt_bool_field ts x = (case x of None \<Rightarrow> [] | Some b \<Rightarrow> bool_field ts b)"

definition Request_bytes :: "Request \<Rightarrow> bytes" where
  "Request_bytes m =
     (0x08 # varint (rq_ID m)) @ string_field 0x12 (rq_Method m) @ string_field 0x1a (rq_Path m) @
     string_field 0x22 (rq_Val m) @ bool_field [0x28] (rq_Dir m) @ string_field 0x32 (rq_PrevValue m) @
     (0x38 # varint (rq_PrevIndex m)) @ opt_bool_field [0x40] (rq_PrevExist m) @
     (0x48 # varint (rq_Expiration m)) @ bool_field [0x50] (rq_Wait m) @
     (0x58 # varint (rq_Since m)) @ bool_field [0x60] (rq_Recursive m) @ bool_field [0x68] (rq_Sorted m) @
     bool_field [0x70] (rq_Quorum m) @ (0x78 # varint (rq_Time m)) @ bool_field [0x80, 0x01] (rq_Stream m) @
     opt_bool_field [0x88, 0x01] (rq_Refresh m) @ raw_bytes (rq_XXX m)"

definition Request_known :: "Request \<Rightarrow> bool" where
  "Request_known m \<longleftrightarrow> rq_XXX m = None"

lemma tags_request [tag_simps]:
  "tag_of 0x32 6 2" "tag_of 0x38 7 0" "tag_of 0x48 9 0" "tag_of 0x60 12 0" "tag_of 0x68 13 0" "tag_of 0x70 14 0" "tag_of 0x78 15 0"
  unfolding tag_of_def by code_simp+

lemma tags_two_bytes [tag_simps]:
  "tag2_of 0x80 0x01 16 0" "tag2_of 0x88 0x01 17 0" "tag2_of 0xa2 0x06 100 2"
  unfolding tag2_of_def by code_simp+

lemma decodes_string:
  "tag_of t n 2 \<Longrightarrow> F n = Some (FBytes put) \<Longrightarrow> decodes F K (string_field t s) m (put (string_bytes s) m)"
  using decodes_bytes [of t n F put K "string_bytes s" m] by (simp add: string_field_def delimited_def)

lemma decodes_bool_field:
  "tag_of t n 0 \<Longrightarrow> F n = Some (FBool put) \<Longrightarrow> decodes F K (bool_field [t] b) m (put b m)"
  unfolding bool_field_def using decodes_bool_byte [of t n F put K b m] by simp

lemma decodes_bool_field2:
  "tag2_of t1 t2 n 0 \<Longrightarrow> F n = Some (FBool put) \<Longrightarrow> decodes F K (bool_field [t1, t2] b) m (put b m)"
  unfolding bool_field_def using decodes_bool2 [of t1 t2 n F put K b m] by simp

lemma decodes_opt_bool:
  "tag_of t n 0 \<Longrightarrow> F n = Some (FBool put) \<Longrightarrow>
     decodes F K (opt_bool_field [t] x) m (case x of None \<Rightarrow> m | Some b \<Rightarrow> put b m)"
  using decodes_bool_field [of t n F put K] by (cases x) (simp_all add: opt_bool_field_def decodes_Nil)

lemma decodes_opt_bool2:
  "tag2_of t1 t2 n 0 \<Longrightarrow> F n = Some (FBool put) \<Longrightarrow>
     decodes F K (opt_bool_field [t1, t2] x) m (case x of None \<Rightarrow> m | Some b \<Rightarrow> put b m)"
  using decodes_bool_field2 [of t1 t2 n F put K] by (cases x) (simp_all add: opt_bool_field_def decodes_Nil)

lemmas decodes_proto2 = decodes_uint64 decodes_string decodes_bool_field decodes_bool_field2 decodes_opt_bool decodes_opt_bool2

lemma Request_decodes:
  assumes "Request_known m"
  shows "decodes (\<lambda>n. map_option raft_field (Request_fields n)) Request_keep (Request_bytes m) Request_zero m"
  unfolding Request_bytes_def
  by (rule decodes_eq,
      ((rule decodes_append, rule decodes_proto2, rule tag_simps, (simp add: Request_fields_def; fail))+, rule decodes_none))
    (use assms in \<open>cases m; simp add: Request_known_def Request_zero_def split: option.split\<close>)+

lemma writes_string: "writes (emit (put_string t s)) (string_field t s)"
  unfolding put_string_def string_field_def
  by (rule writes_last_delimited) (simp_all add: writes_put_copy)

lemma writes_bytes: "writes (emit (map put_byte bs)) bs"
proof (induction bs)
  case (Cons b bs)
  with writes_emit_Cons [OF writes_put_byte, of "map put_byte bs" bs b] show ?case by (simp del: emit.simps)
qed (simp add: writes_emit_Nil del: emit.simps)

lemma writes_bool_field: "writes (emit (put_bool ts b)) (bool_field ts b)"
  unfolding put_bool_def bool_field_def by (rule writes_bytes)

lemma writes_opt_bool: "writes (emit (put_opt_bool ts x)) (opt_bool_field ts x)"
  by (cases x) (simp_all add: put_opt_bool_def opt_bool_field_def writes_emit_Nil writes_bool_field del: emit.simps)

lemma proto2_lengths [chunk_lengths]:
  "length (string_field t s) = string_size s" "length (bool_field ts b) = length ts + 1"
  "length (opt_bool_field ts x) = (if x \<noteq> None then length ts + 1 else 0)"
  by (simp_all add: string_field_def string_size_def length_delimited bool_field_def opt_bool_field_def Let_def split: option.split)

lemma writes_varint_field: "writes (emit [put_byte t, put_varint v]) (t # varint v)"
  by (rule writes_last_field) (rule writes_put_varint)

lemmas writes_proto2 = writes_emit_append writes_varint_field writes_string writes_bool_field writes_opt_bool writes_unrecognized

interpretation v2_request: checked_codec Request_Size Request_MarshalTo Request_fields
  Request_keep Request_zero Request_bytes Request_known
proof
  show "Request_Size m = length (Request_bytes m)" for m
    by (simp add: Request_Size_def Request_bytes_def chunk_lengths)
  show "length (Request_bytes m) \<le> length buf \<Longrightarrow> Request_MarshalTo m buf
      = Some (Request_bytes m @ drop (length (Request_bytes m)) buf, length (Request_bytes m))"
    for m buf
    unfolding Request_MarshalTo_def
    by (rule emit_exact) (simp_all only: Request_bytes_def, intro writes_proto2)
  show "total_fields Request_fields"
    by (auto simp: total_fields_def Request_fields_def split: if_splits)
qed (rule Request_decodes)

section \<open>InternalRaftRequest\<close>

record InternalRaftRequest =
  ir_Header :: "RequestHeader option"
  ir_ID :: u64
  ir_V2 :: "Request option"
  ir_Put :: "PutRequest option"
  ir_XXX :: "bytes option"

definition InternalRaftRequest_zero :: InternalRaftRequest where
  "InternalRaftRequest_zero = \<lparr>ir_Header = None, ir_ID = 0, ir_V2 = None, ir_Put = None, ir_XXX = None\<rparr>"

definition message_size :: "nat \<Rightarrow> nat" where
  "message_size l = 1 + l + sovRaft (of_nat l)"

definition InternalRaftRequest_Size :: "InternalRaftRequest \<Rightarrow> nat" where
  "InternalRaftRequest_Size m =
     (if ir_ID m \<noteq> 0 then 1 + sovRaft (ir_ID m) else 0) +
     (case ir_V2 m of None \<Rightarrow> 0 | Some r \<Rightarrow> message_size (Request_Size r)) +
     (case ir_Put m of None \<Rightarrow> 0 | Some r \<Rightarrow> message_size (PutRequest_Size r)) +
     (case ir_Header m of None \<Rightarrow> 0 | Some r \<Rightarrow> 1 + message_size (RequestHeader_Size r)) + unrecognized_size (ir_XXX m)"

definition put_embedded :: "byte \<Rightarrow> nat \<Rightarrow> (bytes \<Rightarrow> (bytes \<times> nat) option) \<Rightarrow> writer list" where
  "put_embedded t sz marshalTo = [put_byte t, put_varint (of_nat sz), put_message marshalTo]"

definition InternalRaftRequest_MarshalTo :: "InternalRaftRequest \<Rightarrow> bytes \<Rightarrow> (bytes \<times> nat) option" where
  "InternalRaftRequest_MarshalTo m dAtA = emit
     (given (ir_ID m \<noteq> 0) [put_byte 0x08, put_varint (ir_ID m)] @
      (case ir_V2 m of None \<Rightarrow> [] | Some r \<Rightarrow> put_embedded 0x12 (Request_Size r) (Request_MarshalTo r)) @
      (case ir_Put m of None \<Rightarrow> [] | Some r \<Rightarrow> put_embedded 0x22 (PutRequest_Size r) (PutRequest_MarshalTo r)) @
      (case ir_Header m of None \<Rightarrow> []
       | Some r \<Rightarrow> put_byte 0xa2 # put_embedded 0x06 (RequestHeader_Size r) (RequestHeader_MarshalTo r)) @
      unrecognized (ir_XXX m)) dAtA 0"

definition InternalRaftRequest_Marshal :: "InternalRaftRequest \<Rightarrow> bytes option" where
  "InternalRaftRequest_Marshal m = marshal (InternalRaftRequest_Size m) (InternalRaftRequest_MarshalTo m)"

text \<open>An embedded message that is nil is created before it is read into.\<close>

definition or_zero :: "'a \<Rightarrow> 'a option \<Rightarrow> 'a" where
  "or_zero z x = (case x of None \<Rightarrow> z | Some v \<Rightarrow> v)"

definition InternalRaftRequest_fields :: "int32 \<Rightarrow> InternalRaftRequest pfield option" where
  "InternalRaftRequest_fields n =
     (if n = 1 then Some (PVarint (\<lambda>v m. m\<lparr>ir_ID := v\<rparr>))
      else if n = 2 then Some (PMessage (\<lambda>bs m. store_result (\<lambda>x. m\<lparr>ir_V2 := Some x\<rparr>)
        (Request_Unmarshal bs (or_zero Request_zero (ir_V2 m)))))
      else if n = 4 then Some (PMessage (\<lambda>bs m. store_result (\<lambda>x. m\<lparr>ir_Put := Some x\<rparr>)
        (PutRequest_Unmarshal bs (or_zero PutRequest_zero (ir_Put m)))))
      else if n = 100 then Some (PMessage (\<lambda>bs m. store_result (\<lambda>x. m\<lparr>ir_Header := Some x\<rparr>)
        (RequestHeader_Unmarshal bs (or_zero RequestHeader_zero (ir_Header m)))))
      else None)"

definition InternalRaftRequest_keep :: "bytes \<Rightarrow> InternalRaftRequest \<Rightarrow> InternalRaftRequest" where
  "InternalRaftRequest_keep bs m = m\<lparr>ir_XXX := keep_bytes bs (ir_XXX m)\<rparr>"

definition InternalRaftRequest_Unmarshal ::
  "bytes \<Rightarrow> InternalRaftRequest \<Rightarrow> (proto_error + InternalRaftRequest) option" where
  "InternalRaftRequest_Unmarshal dAtA m =
     unmarshal_checked InternalRaftRequest_fields InternalRaftRequest_keep dAtA m 0"

definition InternalRaftRequest_bytes :: "InternalRaftRequest \<Rightarrow> bytes" where
  "InternalRaftRequest_bytes m =
     given (ir_ID m \<noteq> 0) (0x08 # varint (ir_ID m)) @
     (case ir_V2 m of None \<Rightarrow> [] | Some r \<Rightarrow> delimited 0x12 (Request_bytes r)) @
     (case ir_Put m of None \<Rightarrow> [] | Some r \<Rightarrow> delimited 0x22 (PutRequest_bytes r)) @
     (case ir_Header m of None \<Rightarrow> [] | Some r \<Rightarrow> 0xa2 # delimited 0x06 (RequestHeader_bytes r)) @ raw_bytes (ir_XXX m)"

definition InternalRaftRequest_known :: "InternalRaftRequest \<Rightarrow> bool" where
  "InternalRaftRequest_known m \<longleftrightarrow>
     (case ir_V2 m of None \<Rightarrow> True | Some r \<Rightarrow> Request_known r) \<and>
     (case ir_Put m of None \<Rightarrow> True | Some r \<Rightarrow> PutRequest_known r) \<and>
     (case ir_Header m of None \<Rightarrow> True | Some r \<Rightarrow> RequestHeader_known r) \<and>
     ir_XXX m = None \<and> InternalRaftRequest_Size m < 2 ^ 62"

lemma embedded_requests:
  "Request_known r \<Longrightarrow> Request_Size r < 2 ^ 62 \<Longrightarrow> Request_Unmarshal (Request_bytes r) Request_zero = Some (Inr r)"
  "PutRequest_known p \<Longrightarrow> PutRequest_Size p < 2 ^ 62 \<Longrightarrow> PutRequest_Unmarshal (PutRequest_bytes p) PutRequest_zero = Some (Inr p)"
  "RequestHeader_known h \<Longrightarrow> RequestHeader_Size h < 2 ^ 62 \<Longrightarrow>
     RequestHeader_Unmarshal (RequestHeader_bytes h) RequestHeader_zero = Some (Inr h)"
  unfolding Request_Unmarshal_def PutRequest_Unmarshal_def RequestHeader_Unmarshal_def
    v2_request.size_exact put_request.size_exact request_header.size_exact
  by (rule v2_request.checked_bytes put_request.checked_bytes request_header.checked_bytes; assumption)+

lemma InternalRaftRequest_decodes:
  assumes "InternalRaftRequest_known m"
  shows "decodes (\<lambda>n. map_option raft_field (InternalRaftRequest_fields n)) InternalRaftRequest_keep
    (InternalRaftRequest_bytes m) InternalRaftRequest_zero m"
proof -
  let ?D = "decodes (\<lambda>n. map_option raft_field (InternalRaftRequest_fields n)) InternalRaftRequest_keep"
  let ?m1 = "InternalRaftRequest_zero\<lparr>ir_ID := ir_ID m\<rparr>"
  let ?m2 = "?m1\<lparr>ir_V2 := ir_V2 m\<rparr>" let ?m3 = "?m2\<lparr>ir_Put := ir_Put m\<rparr>"
  note known = assms [unfolded InternalRaftRequest_known_def InternalRaftRequest_Size_def message_size_def]
  have 1: "?D (given (ir_ID m \<noteq> 0) (0x08 # varint (ir_ID m))) InternalRaftRequest_zero ?m1"
    by (rule decodes_nonzero, rule tag_simps)
      (simp_all add: InternalRaftRequest_fields_def InternalRaftRequest_zero_def)
  have 2: "?D (case ir_V2 m of None \<Rightarrow> [] | Some r \<Rightarrow> delimited 0x12 (Request_bytes r)) ?m1 ?m2"
  proof (cases "ir_V2 m")
    case (Some r)
    with known have r: "Request_known r" "Request_Size r < 2 ^ 62" by auto
    show ?thesis
      unfolding Some option.case
      by (rule decodes_delimited, rule tag_simps, simp add: InternalRaftRequest_fields_def)
        (simp add: InternalRaftRequest_zero_def or_zero_def embedded_requests(1) [OF r])
  qed (simp add: decodes_Nil InternalRaftRequest_zero_def)
  have 3: "?D (case ir_Put m of None \<Rightarrow> [] | Some r \<Rightarrow> delimited 0x22 (PutRequest_bytes r)) ?m2 ?m3"
  proof (cases "ir_Put m")
    case (Some r)
    with known have r: "PutRequest_known r" "PutRequest_Size r < 2 ^ 62" by auto
    show ?thesis
      unfolding Some option.case
      by (rule decodes_delimited, rule tag_simps, simp add: InternalRaftRequest_fields_def)
        (simp add: InternalRaftRequest_zero_def or_zero_def embedded_requests(2) [OF r])
  qed (simp add: decodes_Nil InternalRaftRequest_zero_def)
  have 4: "?D (case ir_Header m of None \<Rightarrow> [] | Some r \<Rightarrow> 0xa2 # delimited 0x06 (RequestHeader_bytes r)) ?m3 m"
  proof (cases "ir_Header m")
    case (Some r)
    with known have r: "RequestHeader_known r" "RequestHeader_Size r < 2 ^ 62" by auto
    show ?thesis
      unfolding Some option.case
      by (rule decodes_delimited2, rule tag_simps, simp add: InternalRaftRequest_fields_def)
        (use known Some in \<open>cases m; simp add: InternalRaftRequest_zero_def or_zero_def embedded_requests(3) [OF r]\<close>)
  qed (use known in \<open>cases m; simp add: decodes_Nil InternalRaftRequest_zero_def\<close>)
  have 5: "?D (raw_bytes (ir_XXX m)) m m" using known by (simp add: decodes_none)
  show ?thesis
    unfolding InternalRaftRequest_bytes_def
    by (rule decodes_append [OF 1 decodes_append [OF 2 decodes_append [OF 3 decodes_append [OF 4 5]]]])
qed

lemma writes_embedded_message:
  "writes (put_message marshalTo) bs \<Longrightarrow> n = length bs \<Longrightarrow> writes (emit (put_embedded t n marshalTo)) (delimited t bs)"
  unfolding put_embedded_def by (rule writes_last_delimited)

lemma writes_embedded2:
  "writes (put_message marshalTo) bs \<Longrightarrow> n = length bs \<Longrightarrow>
     writes (emit (put_byte t1 # put_embedded t2 n marshalTo)) (t1 # delimited t2 bs)"
  using writes_emit_Cons [OF writes_put_byte writes_embedded_message, of marshalTo bs n t1 t2] by (simp del: emit.simps)

lemma total_store_result: "r \<noteq> None \<Longrightarrow> store_result put r \<noteq> None"
  by (auto simp: store_result_def)

lemma InternalRaftRequest_total: "total_fields InternalRaftRequest_fields"
  unfolding total_fields_def InternalRaftRequest_fields_def Request_Unmarshal_def PutRequest_Unmarshal_def RequestHeader_Unmarshal_def
  by (auto intro!: total_store_result v2_request.checked_total put_request.checked_total request_header.checked_total
      simp del: not_None_eq split: if_splits)

interpretation internal_request: checked_codec InternalRaftRequest_Size InternalRaftRequest_MarshalTo
  InternalRaftRequest_fields InternalRaftRequest_keep InternalRaftRequest_zero InternalRaftRequest_bytes
  InternalRaftRequest_known
proof
  show "InternalRaftRequest_Size m = length (InternalRaftRequest_bytes m)" for m
    by (simp add: InternalRaftRequest_Size_def InternalRaftRequest_bytes_def message_size_def chunk_lengths
        v2_request.size_exact put_request.size_exact request_header.size_exact split: option.split)
  show "length (InternalRaftRequest_bytes m) \<le> length buf \<Longrightarrow> InternalRaftRequest_MarshalTo m buf
      = Some (InternalRaftRequest_bytes m @ drop (length (InternalRaftRequest_bytes m)) buf,
              length (InternalRaftRequest_bytes m))"
    for m buf
    unfolding InternalRaftRequest_MarshalTo_def
  proof (rule emit_exact)
    show "writes (emit (given (ir_ID m \<noteq> 0) [put_byte 0x08, put_varint (ir_ID m)] @
      (case ir_V2 m of None \<Rightarrow> [] | Some r \<Rightarrow> put_embedded 0x12 (Request_Size r) (Request_MarshalTo r)) @
      (case ir_Put m of None \<Rightarrow> [] | Some r \<Rightarrow> put_embedded 0x22 (PutRequest_Size r) (PutRequest_MarshalTo r)) @
      (case ir_Header m of None \<Rightarrow> []
       | Some r \<Rightarrow> put_byte 0xa2 # put_embedded 0x06 (RequestHeader_Size r) (RequestHeader_MarshalTo r)) @
      unrecognized (ir_XXX m))) (InternalRaftRequest_bytes m)"
      unfolding InternalRaftRequest_bytes_def
      by (intro writes_emit_append writes_given_varint writes_unrecognized)
        (auto intro!: writes_emit_Nil writes_embedded_message writes_embedded2 v2_request.writes_embedded
          put_request.writes_embedded request_header.writes_embedded
          simp: v2_request.size_exact put_request.size_exact request_header.size_exact
          simp del: emit.simps split: option.split)
  qed
  show "total_fields InternalRaftRequest_fields" by (rule InternalRaftRequest_total)
qed (rule InternalRaftRequest_decodes)

section \<open>Properties\<close>

lemma small_size_62: "n < (200 :: nat) \<Longrightarrow> n < 2 ^ 62"
  by simp

text \<open>C11: A request survives its way through the log: the bytes of an internal request whose messages
  carry no unrecognized fields are decoded to the same request, the embedded v2 request, put request
  and header included, and fields left out because they are zero come back as zero.\<close>

theorem InternalRaftRequest_round_trip:
  assumes "InternalRaftRequest_known m"
  shows "do { bs \<leftarrow> InternalRaftRequest_Marshal m; InternalRaftRequest_Unmarshal bs InternalRaftRequest_zero } = Some (Inr m)"
  unfolding InternalRaftRequest_Marshal_def InternalRaftRequest_Unmarshal_def
  using assms by (intro internal_request.checked_round_trip) (simp_all add: InternalRaftRequest_known_def)

theorem InternalRaftRequest_round_trip_witness:
  "let m = InternalRaftRequest_zero\<lparr>ir_ID := 7, ir_Header := Some (RequestHeader_zero\<lparr>rh_ID := 300, rh_Username := ''root''\<rparr>),
             ir_Put := Some (PutRequest_zero\<lparr>pr_Key := [107], pr_IgnoreValue := True, pr_Lease := - 1\<rparr>),
             ir_V2 := Some (Request_zero\<lparr>rq_Method := ''PUT'', rq_PrevExist := Some False\<rparr>)\<rparr>
   in do { bs \<leftarrow> InternalRaftRequest_Marshal m; InternalRaftRequest_Unmarshal bs InternalRaftRequest_zero } = Some (Inr m)"
  unfolding Let_def
  by (rule InternalRaftRequest_round_trip, unfold InternalRaftRequest_known_def, intro conjI,
      (simp_all add: InternalRaftRequest_zero_def Request_known_def PutRequest_known_def RequestHeader_known_def
        Request_zero_def PutRequest_zero_def RequestHeader_zero_def)[4],
      rule small_size_62, code_simp)

text \<open>C19: No bytes make the server panic: decoding an internal request, whatever arrives, returns a
  request or an error. (The decoder of raft messages panics on a wrapped length.)\<close>

theorem InternalRaftRequest_Unmarshal_total:
  assumes "length bs < 2 ^ 62"
  shows "\<exists>r. InternalRaftRequest_Unmarshal bs m = Some r"
  using internal_request.checked_total [OF assms, of m 0] by (auto simp: InternalRaftRequest_Unmarshal_def)

theorem InternalRaftRequest_Unmarshal_total_witness:
  "\<exists>r. InternalRaftRequest_Unmarshal [0x22, 0xff, 0xff, 0xff, 0xff, 0xff, 0xff, 0xff, 0xff, 0x7f] InternalRaftRequest_zero = Some r"
  by (rule InternalRaftRequest_Unmarshal_total) simp

end
