(* ===== verification/Lease.thy ===== *)
theory Lease
  imports Go_Sort
begin

text \<open>
  \<open>lease\<close>: the queue of leases ordered by time, which \<open>container/heap\<close> works on through \<open>Less\<close>,
  \<open>Swap\<close>, \<open>Push\<close> and \<open>Pop\<close>, and the construction of the lessor. Every element of the queue knows
  its position; the elements are values here, since no code shares them yet.
\<close>

section \<open>LeaseQueue\<close>

type_synonym LeaseID = "64 word"

record LeaseWithTime =
  lw_id :: LeaseID
  lw_time :: int
  lw_index :: int

type_synonym LeaseQueue = "LeaseWithTime list"

definition LeaseQueue_Len :: "LeaseQueue \<Rightarrow> nat" where
  "LeaseQueue_Len pq = length pq"

definition LeaseQueue_Less :: "LeaseQueue \<Rightarrow> nat \<Rightarrow> nat \<Rightarrow> bool option" where
  "LeaseQueue_Less pq i j = do { a \<leftarrow> go_index pq i; b \<leftarrow> go_index pq j; Some (lw_time a < lw_time b) }"

definition LeaseQueue_Swap :: "LeaseQueue \<Rightarrow> nat \<Rightarrow> nat \<Rightarrow> LeaseQueue option" where
  "LeaseQueue_Swap pq i j =
     do { pq \<leftarrow> exchange pq i j;
          a \<leftarrow> go_index pq i;
          pq \<leftarrow> go_store pq i (a\<lparr>lw_index := int i\<rparr>);
          b \<leftarrow> go_index pq j;
          go_store pq j (b\<lparr>lw_index := int j\<rparr>) }"

definition LeaseQueue_Push :: "LeaseWithTime \<Rightarrow> LeaseQueue \<Rightarrow> LeaseQueue" where
  "LeaseQueue_Push item pq = (let n = length pq in pq @ [item\<lparr>lw_index := int n\<rparr>])"

text \<open>Popping the empty queue panics.\<close>

definition LeaseQueue_Pop :: "LeaseQueue \<Rightarrow> (LeaseWithTime \<times> LeaseQueue) option" where
  "LeaseQueue_Pop old =
     do { let n = length old;
          item \<leftarrow> (if n = 0 then None else go_index old (n - 1));
          pq \<leftarrow> go_slice old 0 (n - 1);
          Some (item\<lparr>lw_index := -1\<rparr>, pq) }"

section \<open>LeaseExpiredNotifier and lessor\<close>

record LeaseExpiredNotifier =
  len_m :: "(LeaseID, LeaseWithTime) gomap"
  len_queue :: LeaseQueue

definition newLeaseExpiredNotifier :: LeaseExpiredNotifier where
  "newLeaseExpiredNotifier = \<lparr>len_m = [], len_queue = []\<rparr>"

record LessorConfig =
  lc_MinLeaseTTL :: int
  lc_CheckpointInterval :: int
  lc_ExpiredLeasesRetryInterval :: int

record Lease =
  le_ID :: LeaseID
  le_ttl :: int
  le_remainingTTL :: int
  le_expiry :: int
  le_itemSet :: "string list"

record 'b lessor =
  lr_leaseMap :: "(LeaseID, Lease) gomap"
  lr_itemMap :: "(string, LeaseID) gomap"
  lr_leaseExpiredNotifier :: LeaseExpiredNotifier
  lr_leaseCheckpointHeap :: LeaseQueue
  lr_b :: 'b
  lr_minLeaseTTL :: int
  lr_checkpointInterval :: int
  lr_expiredLeaseRetryInterval :: int
  lr_expiredC :: "Lease list list"

text \<open>Durations are nanoseconds: the defaults are five minutes and three seconds.\<close>

definition defaultLeaseCheckpointInterval :: int where
  "defaultLeaseCheckpointInterval = 5 * 60 * 1000000000"

definition defaultExpiredleaseRetryInterval :: int where
  "defaultExpiredleaseRetryInterval = 3 * 1000000000"

definition newLessor :: "'b \<Rightarrow> LessorConfig \<Rightarrow> 'b lessor" where
  "newLessor b cfg =
     (let checkpointInterval =
            (if lc_CheckpointInterval cfg = 0 then defaultLeaseCheckpointInterval else lc_CheckpointInterval cfg);
          expiredLeaseRetryInterval =
            (if lc_ExpiredLeasesRetryInterval cfg = 0 then defaultExpiredleaseRetryInterval
             else lc_ExpiredLeasesRetryInterval cfg)
      in \<lparr>lr_leaseMap = [], lr_itemMap = [], lr_leaseExpiredNotifier = newLeaseExpiredNotifier,
          lr_leaseCheckpointHeap = [], lr_b = b, lr_minLeaseTTL = lc_MinLeaseTTL cfg,
          lr_checkpointInterval = checkpointInterval,
          lr_expiredLeaseRetryInterval = expiredLeaseRetryInterval, lr_expiredC = []\<rparr>)"

section \<open>Positions\<close>

text \<open>What a lease is, apart from its position, and the invariant that positions are right.\<close>

definition lease_key :: "LeaseWithTime \<Rightarrow> LeaseID \<times> int" where
  "lease_key l = (lw_id l, lw_time l)"

definition positions_ok :: "LeaseQueue \<Rightarrow> bool" where
  "positions_ok pq \<longleftrightarrow> (\<forall>i < length pq. lw_index (pq ! i) = int i)"

lemma Swap_result:
  assumes "i < length pq" and "j < length pq"
  shows "LeaseQueue_Swap pq i j = Some (pq[i := (pq ! j)\<lparr>lw_index := int i\<rparr>, j := (pq ! i)\<lparr>lw_index := int j\<rparr>])"
  using assms by (auto simp: LeaseQueue_Swap_def exchange_def go_simps nth_list_update intro!: nth_equalityI)

lemma Swap_keys:
  assumes "LeaseQueue_Swap pq i j = Some q"
  shows "image_mset lease_key (mset q) = image_mset lease_key (mset pq)"
proof -
  have b: "i < length pq" "j < length pq" using assms by (auto simp: LeaseQueue_Swap_def exchange_def split: if_splits)
  have "map lease_key q = (map lease_key pq)[i := map lease_key pq ! j, j := map lease_key pq ! i]"
    using assms b by (auto simp: Swap_result map_update lease_key_def)
  then have "mset (map lease_key q) = mset (map lease_key pq)" using b by (simp only: mset_swap length_map)
  then show ?thesis by simp
qed

lemma time_of_key: "image_mset lw_time m = image_mset snd (image_mset lease_key m)"
  by (simp add: multiset.map_comp comp_def lease_key_def)

interpretation lease_queue: sort_interface lw_time LeaseQueue_Less LeaseQueue_Swap
proof
  show "LeaseQueue_Less p i j = Some (lw_time (p ! i) < lw_time (p ! j))"
    if "i < length p" "j < length p" for p i j
    using that by (simp add: LeaseQueue_Less_def go_simps)
  show "image_mset lw_time (mset q) = image_mset lw_time (mset p)"
    if "LeaseQueue_Swap p i j = Some q" for p i j q
    by (simp only: time_of_key Swap_keys [OF that])
qed

section \<open>Properties\<close>

datatype queue_op = OpPush LeaseWithTime | OpPop | OpSwap nat nat

fun run_op :: "queue_op \<Rightarrow> LeaseQueue \<Rightarrow> LeaseQueue option" where
  "run_op (OpPush l) pq = Some (LeaseQueue_Push l pq)"
| "run_op OpPop pq = map_option snd (LeaseQueue_Pop pq)"
| "run_op (OpSwap i j) pq = LeaseQueue_Swap pq i j"

fun queue_ops :: "queue_op list \<Rightarrow> LeaseQueue \<Rightarrow> LeaseQueue option" where
  "queue_ops [] pq = Some pq"
| "queue_ops (x # xs) pq = do { pq \<leftarrow> run_op x pq; queue_ops xs pq }"

lemma queue_op_positions: "run_op x pq = Some q \<Longrightarrow> positions_ok pq \<Longrightarrow> positions_ok q"
proof (cases x)
  case (OpSwap i j)
  assume x: "run_op x pq = Some q" and p: "positions_ok pq"
  then have "i < length pq" "j < length pq"
    using OpSwap by (auto simp: LeaseQueue_Swap_def exchange_def split: if_splits)
  with x p OpSwap show ?thesis by (auto simp: Swap_result positions_ok_def nth_list_update)
qed (auto simp: LeaseQueue_Push_def LeaseQueue_Pop_def positions_ok_def nth_append go_simps bind_eq_Some_conv
    Let_def split: if_splits)

lemma queue_ops_positions: "queue_ops xs pq = Some q \<Longrightarrow> positions_ok pq \<Longrightarrow> positions_ok q"
  by (induction xs arbitrary: pq) (auto simp: bind_eq_Some_conv dest: queue_op_positions)

text \<open>C36: Whatever a heap algorithm does with the lease queue, every element knows its position: after
  any sequence of \<open>Push\<close>, \<open>Pop\<close> and \<open>Swap\<close> from the empty queue, the element at \<open>i\<close> has index
  \<open>i\<close>, \<open>Swap\<close> within the queue never panics and only exchanges the two leases, and \<open>Pop\<close> returns
  the last element.\<close>

theorem lease_queue_positions:
  assumes "queue_ops xs [] = Some pq"
  shows "(\<forall>i < length pq. lw_index (pq ! i) = int i) \<and>
    (\<forall>i < length pq. \<forall>j < length pq. \<exists>q. LeaseQueue_Swap pq i j = Some q \<and>
       lease_key (q ! i) = lease_key (pq ! j) \<and> lease_key (q ! j) = lease_key (pq ! i) \<and>
       (\<forall>k < length pq. k \<noteq> i \<longrightarrow> k \<noteq> j \<longrightarrow> q ! k = pq ! k)) \<and>
    LeaseQueue_Pop (LeaseQueue_Push l pq) = Some (l\<lparr>lw_index := -1\<rparr>, pq)"
proof (intro conjI allI impI)
  show "lw_index (pq ! i) = int i" if "i < length pq" for i
    using queue_ops_positions [OF assms] that by (simp add: positions_ok_def)
  show "\<exists>q. LeaseQueue_Swap pq i j = Some q \<and> lease_key (q ! i) = lease_key (pq ! j) \<and>
      lease_key (q ! j) = lease_key (pq ! i) \<and> (\<forall>k < length pq. k \<noteq> i \<longrightarrow> k \<noteq> j \<longrightarrow> q ! k = pq ! k)"
    if "i < length pq" "j < length pq" for i j
    using that by (auto simp: Swap_result nth_list_update lease_key_def)
  show "LeaseQueue_Pop (LeaseQueue_Push l pq) = Some (l\<lparr>lw_index := -1\<rparr>, pq)"
    by (simp add: LeaseQueue_Pop_def LeaseQueue_Push_def go_simps Let_def)
qed

theorem lease_queue_positions_witness:
  "let a = \<lparr>lw_id = 1, lw_time = 9, lw_index = 0\<rparr>; b = \<lparr>lw_id = 2, lw_time = 4, lw_index = 0\<rparr> in
   \<exists>pq. queue_ops [OpPush a, OpPush b, OpSwap 0 1] [] = Some pq \<and> pq = [b, a\<lparr>lw_index := 1\<rparr>] \<and>
     (\<forall>i < length pq. lw_index (pq ! i) = int i)"
proof -
  let ?a = "\<lparr>lw_id = 1, lw_time = 9, lw_index = 0\<rparr>" and ?b = "\<lparr>lw_id = 2, lw_time = 4, lw_index = 0\<rparr>"
  have "queue_ops [OpPush ?a, OpPush ?b, OpSwap 0 1] [] = Some [?b, ?a\<lparr>lw_index := 1\<rparr>]" by code_simp
  with lease_queue_positions [OF this] show ?thesis unfolding Let_def by blast
qed

end
