(* ===== verification/Stats_Queue.thy ===== *)
theory Stats_Queue
  imports Etcd_Prelude
begin

text \<open>
  \<open>etcdserver/api/v2stats\<close>: the ring buffer of the last 200 requests and the statistics records
  that hold it. Positions of the ring are naturals, except \<open>back\<close>, which starts at -1; times are
  nanoseconds. The specification is the list of the last 200 inserted requests: the locale
  \<open>bounded_queue\<close> states it, and the ring buffer interprets it.
\<close>

section \<open>The ring buffer\<close>

abbreviation queueCapacity :: nat where
  "queueCapacity \<equiv> 200"

record RequestStats =
  rs_SendingTime :: int
  rs_Size :: int

record statsQueue =
  sq_items :: "RequestStats option list"
  sq_size :: nat
  sq_front :: nat
  sq_back :: int
  sq_totalReqSize :: int

text \<open>\<open>&statsQueue{back: -1}\<close>\<close>

definition new_statsQueue :: statsQueue where
  "new_statsQueue = \<lparr>sq_items = replicate queueCapacity None, sq_size = 0, sq_front = 0, sq_back = -1,
     sq_totalReqSize = 0\<rparr>"

definition sq_Len :: "statsQueue \<Rightarrow> nat" where
  "sq_Len q = sq_size q"

definition sq_ReqSize :: "statsQueue \<Rightarrow> int" where
  "sq_ReqSize q = sq_totalReqSize q"

text \<open>\<open>items[i]\<close> for an \<open>int\<close> position: a negative one panics.\<close>

definition item_at :: "statsQueue \<Rightarrow> int \<Rightarrow> RequestStats option option" where
  "item_at q i = (if i < 0 then None else go_index (sq_items q) (nat i))"

definition frontAndBack :: "statsQueue \<Rightarrow> (RequestStats option \<times> RequestStats option) option" where
  "frontAndBack q =
     (if sq_size q \<noteq> 0
      then do { f \<leftarrow> item_at q (int (sq_front q)); b \<leftarrow> item_at q (sq_back q); Some (f, b) }
      else Some (None, None))"

text \<open>\<open>Insert\<close>: reading the size of a missing item dereferences nil and panics.\<close>

definition sq_Insert :: "RequestStats \<Rightarrow> statsQueue \<Rightarrow> statsQueue option" where
  "sq_Insert p q =
     do { let back = (sq_back q + 1) mod int queueCapacity;
          let q = q\<lparr>sq_back := back\<rparr>;
          q \<leftarrow> (if sq_size q = queueCapacity
                then do { it \<leftarrow> item_at q (int (sq_front q));
                          r \<leftarrow> it;
                          Some (q\<lparr>sq_totalReqSize := wrap_int (sq_totalReqSize q - rs_Size r),
                                  sq_front := nat ((back + 1) mod int queueCapacity)\<rparr>) }
                else Some (q\<lparr>sq_size := sq_size q + 1\<rparr>));
          items \<leftarrow> go_store (sq_items q) (nat back) (Some p);
          Some (q\<lparr>sq_items := items, sq_totalReqSize := wrap_int (sq_totalReqSize q + rs_Size p)\<rparr>) }"

definition sq_Clear :: "statsQueue \<Rightarrow> statsQueue" where
  "sq_Clear q = q\<lparr>sq_back := -1, sq_front := 0, sq_size := 0, sq_totalReqSize := 0\<rparr>"

text \<open>\<open>Rate\<close> at the time \<open>now\<close>. The floating-point expression
  \<open>float64(n) / float64(d) * float64(time.Second)\<close> is the argument \<open>per_second n d\<close>.\<close>

definition sq_Rate ::
  "(int \<Rightarrow> int \<Rightarrow> 'f) \<Rightarrow> 'f \<Rightarrow> int \<Rightarrow> statsQueue \<Rightarrow> (('f \<times> 'f) \<times> statsQueue) option" where
  "sq_Rate per_second zero now q =
     do { fb \<leftarrow> frontAndBack q;
          (case fb of
             (Some front, Some back) \<Rightarrow>
               (if 1000000000 < now - rs_SendingTime back then Some ((zero, zero), sq_Clear q)
                else let d = rs_SendingTime back - rs_SendingTime front
                     in Some ((per_second (int (sq_Len q)) d, per_second (sq_ReqSize q) d), q))
           | _ \<Rightarrow> Some ((zero, zero), q)) }"

section \<open>The statistics records\<close>

text \<open>The statistics of a follower are floating-point numbers; \<open>'f\<close> is their type.\<close>

record 'f LeaderStats =
  ls_Leader :: string
  ls_Followers :: "(string, 'f) gomap"

definition NewLeaderStats :: "string \<Rightarrow> 'f LeaderStats" where
  "NewLeaderStats i = \<lparr>ls_Leader = i, ls_Followers = []\<rparr>"

record ServerStats =
  ss_Name :: string
  ss_ID :: string
  ss_StartTime :: int
  ss_LeaderStartTime :: int
  ss_sendRateQueue :: statsQueue
  ss_recvRateQueue :: statsQueue

definition NewServerStats :: "string \<Rightarrow> string \<Rightarrow> int \<Rightarrow> ServerStats" where
  "NewServerStats name i now =
     \<lparr>ss_Name = name, ss_ID = i, ss_StartTime = now, ss_LeaderStartTime = now,
      ss_sendRateQueue = new_statsQueue, ss_recvRateQueue = new_statsQueue\<rparr>"

section \<open>The specification\<close>

text \<open>A queue that keeps the last \<open>capacity\<close> elements.\<close>

definition push_last :: "nat \<Rightarrow> 'a \<Rightarrow> 'a list \<Rightarrow> 'a list" where
  "push_last n x xs = drop (length xs + 1 - n) (xs @ [x])"

lemma drop_to_last: "drop (length (drop (n + 1 - c) xs) - c) (drop (n + 1 - c) xs) = drop (length xs - c) xs"
  if "n < length xs"
proof -
  have "length xs - (n + 1 - c) - c + (n + 1 - c) = length xs - c" using that by arith
  then show ?thesis by simp
qed

locale bounded_queue =
  fixes cap :: nat and insert_q :: "'a \<Rightarrow> 'q \<Rightarrow> 'q option" and empty_q :: 'q
    and inv_q :: "'q \<Rightarrow> bool" and view :: "'q \<Rightarrow> 'a list"
  assumes empty_inv: "inv_q empty_q" and view_empty: "view empty_q = []"
    and view_cap: "inv_q q \<Longrightarrow> length (view q) \<le> cap"
    and insert_view: "inv_q q \<Longrightarrow> \<exists>q'. insert_q x q = Some q' \<and> inv_q q' \<and> view q' = push_last cap x (view q)"
begin

text \<open>Inserting a sequence never fails and leaves its last elements.\<close>

fun insert_all :: "'a list \<Rightarrow> 'q \<Rightarrow> 'q option" where
  "insert_all [] q = Some q"
| "insert_all (x # xs) q = Option.bind (insert_q x q) (insert_all xs)"

lemma insert_all_view:
  assumes "inv_q q" and "0 < cap"
  shows "\<exists>q'. insert_all xs q = Some q' \<and> inv_q q' \<and>
    view q' = drop (length (view q @ xs) - cap) (view q @ xs)"
  using assms(1)
proof (induction xs arbitrary: q)
  case Nil
  then show ?case using view_cap by simp
next
  case (Cons x xs)
  from insert_view [OF Cons.prems, of x] obtain q' where
    q': "insert_q x q = Some q'" "inv_q q'" "view q' = push_last cap x (view q)" by blast
  from Cons.IH [OF q'(2)] obtain q'' where
    q'': "insert_all xs q' = Some q''" "inv_q q''" "view q'' = drop (length (view q' @ xs) - cap) (view q' @ xs)"
    by blast
  have "drop (length (view q' @ xs) - cap) (view q' @ xs) =
      drop (length (view q @ x # xs) - cap) (view q @ x # xs)"
  proof -
    have "view q' @ xs = drop (length (view q) + 1 - cap) (view q @ x # xs)"
      using assms(2) by (simp add: q'(3) push_last_def)
    then show ?thesis by (simp only: drop_to_last length_append list.size less_add_Suc1 add_Suc_right)
  qed
  with q' q'' show ?case by simp
qed

end

section \<open>The ring buffer implements it\<close>

lemma wrap_int_plus: "wrap_int (wrap_int a + b) = wrap_int (a + b)"
  unfolding wrap_int_def
  by (metis signed_take_bit_add signed_take_bit_signed_take_bit min.idem)

lemma wrap_int_minus: "wrap_int (wrap_int a - b) = wrap_int (a - b)"
  using wrap_int_plus [of a "- b"] by simp

definition ring_view :: "statsQueue \<Rightarrow> RequestStats list" where
  "ring_view q = map (\<lambda>k. the (sq_items q ! ((sq_front q + k) mod queueCapacity))) [0..<sq_size q]"

definition ring_inv :: "statsQueue \<Rightarrow> bool" where
  "ring_inv q \<longleftrightarrow> length (sq_items q) = queueCapacity \<and> sq_size q \<le> queueCapacity \<and>
     sq_front q < queueCapacity \<and> (sq_size q < queueCapacity \<longrightarrow> sq_front q = 0) \<and>
     sq_back q = (if sq_size q < queueCapacity then int (sq_size q) - 1
                  else int ((sq_front q + 199) mod queueCapacity)) \<and>
     (\<forall>k < sq_size q. sq_items q ! ((sq_front q + k) mod queueCapacity) \<noteq> None) \<and>
     sq_totalReqSize q = wrap_int (\<Sum>r\<leftarrow>ring_view q. rs_Size r)"

lemma length_ring_view [simp]: "length (ring_view q) = sq_size q"
  by (simp add: ring_view_def)

lemma Insert_room:
  assumes "ring_inv q" and "sq_size q < queueCapacity"
  shows "\<exists>q'. sq_Insert p q = Some q' \<and> ring_inv q' \<and> ring_view q' = ring_view q @ [p]"
proof -
  let ?q = "q\<lparr>sq_back := int (sq_size q), sq_size := sq_size q + 1,
      sq_items := (sq_items q)[sq_size q := Some p],
      sq_totalReqSize := wrap_int (sq_totalReqSize q + rs_Size p)\<rparr>"
  have run: "sq_Insert p q = Some ?q"
    using assms by (simp add: sq_Insert_def ring_inv_def Let_def go_simps)
  have view: "ring_view ?q = ring_view q @ [p]"
    using assms by (auto simp: ring_view_def ring_inv_def nth_list_update intro!: map_cong)
  moreover have "ring_inv ?q"
    using assms view unfolding ring_inv_def
    by (auto simp: nth_list_update less_Suc_eq wrap_int_plus)
  ultimately show ?thesis using run by blast
qed

lemma Insert_full:
  assumes "ring_inv q" and "sq_size q = queueCapacity"
  shows "\<exists>q'. sq_Insert p q = Some q' \<and> ring_inv q' \<and> ring_view q' = tl (ring_view q) @ [p]"
proof -
  define f where "f = sq_front q"
  from assms have f: "f < 200" "length (sq_items q) = 200" "sq_items q ! f \<noteq> None"
    by (auto simp: ring_inv_def f_def dest: spec [of _ 0])
  then obtain r where r: "sq_items q ! f = Some r" by auto
  let ?q = "q\<lparr>sq_back := int f, sq_front := (f + 1) mod 200, sq_items := (sq_items q)[f := Some p],
      sq_totalReqSize := wrap_int (wrap_int (sq_totalReqSize q - rs_Size r) + rs_Size p)\<rparr>"
  have "(int ((f + 199) mod 200) + 1) mod 200 = int ((f + 199 + 1) mod 200)"
    by (simp add: zmod_int mod_simps)
  then have bk: "(sq_back q + 1) mod 200 = int f"
    using assms f(1) by (simp add: ring_inv_def flip: f_def)
  have front: "nat ((int f + 1) mod 200) = (f + 1) mod 200"
    by (metis nat_int of_nat_1 of_nat_add of_nat_mod of_nat_numeral)
  have run: "sq_Insert p q = Some ?q"
    using assms f r bk front by (simp add: sq_Insert_def Let_def item_at_def go_simps f_def)
  have pos: "((f + 1) mod 200 + k) mod 200 = (f + Suc k) mod 200" for k
    by (simp add: mod_simps)
  have last: "(f + 200) mod 200 = f" using f by simp
  have other: "(f + Suc k) mod 200 \<noteq> f" if "k < 199" for k using f(1) that by (simp add: mod_if) arith
  have upt: "[0..<200] = 0 # map Suc [0..<199]" "[0..<200] = [0..<199] @ [199]"
    using upt_conv_Cons [of 0 200] upt_Suc_append [of 0 199] by (simp_all add: map_Suc_upt)
  have old: "ring_view q = r # map (\<lambda>k. the (sq_items q ! ((f + Suc k) mod 200))) [0..<199]"
    using assms(2) f r by (simp add: ring_view_def upt(1) flip: f_def)
  have view: "ring_view ?q = tl (ring_view q) @ [p]"
  proof -
    have "ring_view ?q = map (\<lambda>k. the ((sq_items q)[f := Some p] ! ((f + Suc k) mod 200))) ([0..<199] @ [199])"
      using assms(2) pos by (simp add: ring_view_def upt(2))
    also have "\<dots> = map (\<lambda>k. the (sq_items q ! ((f + Suc k) mod 200))) [0..<199] @ [p]"
      using f other last by (auto simp: nth_list_update_neq [OF not_sym])
    finally show ?thesis by (simp add: old)
  qed
  have all: "\<exists>y. sq_items q ! (j mod 200) = Some y" for j
  proof -
    have "(f + (j mod 200 + 200 - f) mod 200) mod 200 = j mod 200"
      using f(1) mod_less_divisor [of 200 j] by (simp add: mod_simps)
    then show ?thesis using assms by (auto simp: ring_inv_def f_def dest!: spec [of _ "(j mod 200 + 200 - f) mod 200"])
  qed
  have "ring_inv ?q"
    unfolding ring_inv_def
  proof (intro conjI)
    show "sq_totalReqSize ?q = wrap_int (\<Sum>r\<leftarrow>ring_view ?q. rs_Size r)"
    proof -
      have "(\<Sum>r\<leftarrow>ring_view ?q. rs_Size r) = (\<Sum>r\<leftarrow>ring_view q. rs_Size r) - rs_Size r + rs_Size p"
        unfolding view by (simp add: old)
      moreover have "sq_totalReqSize q = wrap_int (\<Sum>r\<leftarrow>ring_view q. rs_Size r)"
        using assms(1) by (simp add: ring_inv_def)
      ultimately show ?thesis by (simp only: statsQueue.simps wrap_int_plus wrap_int_minus) (simp add: wrap_int_plus wrap_int_minus)
    qed
    show "\<forall>k < sq_size ?q. sq_items ?q ! ((sq_front ?q + k) mod queueCapacity) \<noteq> None"
      using f all by (simp add: nth_list_update)
    show "sq_back ?q = (if sq_size ?q < queueCapacity then int (sq_size ?q) - 1
                  else int ((sq_front ?q + 199) mod queueCapacity))"
      using assms(2) f(1) pos [of 199] by simp
  qed (use assms f in \<open>simp_all add: ring_inv_def\<close>)
  with run view show ?thesis by blast
qed

interpretation ring: bounded_queue queueCapacity sq_Insert new_statsQueue ring_inv ring_view
proof
  show "ring_inv new_statsQueue" by (simp add: ring_inv_def new_statsQueue_def ring_view_def)
  show "ring_view new_statsQueue = []" by (simp add: new_statsQueue_def ring_view_def)
  show "length (ring_view q) \<le> queueCapacity" if "ring_inv q" for q using that by (simp add: ring_inv_def)
  show "\<exists>q'. sq_Insert x q = Some q' \<and> ring_inv q' \<and> ring_view q' = push_last queueCapacity x (ring_view q)"
    if "ring_inv q" for q x
  proof (cases "sq_size q < queueCapacity")
    case True
    with Insert_room [OF that, of x] show ?thesis by (simp add: push_last_def)
  next
    case False
    then have "sq_size q = queueCapacity" using that by (simp add: ring_inv_def)
    with Insert_full [OF that this, of x] show ?thesis by (simp add: push_last_def drop_Suc)
  qed
qed

lemma Clear_inv: "ring_inv q \<Longrightarrow> ring_inv (sq_Clear q) \<and> ring_view (sq_Clear q) = []"
  by (simp add: ring_inv_def sq_Clear_def ring_view_def)

lemma frontAndBack_view:
  assumes "ring_inv q" and "ring_view q \<noteq> []"
  shows "frontAndBack q = Some (Some (hd (ring_view q)), Some (last (ring_view q)))"
proof -
  define n where "n = sq_size q"
  have n: "0 < n" "n \<le> 200" "n < 200 \<Longrightarrow> sq_front q = 0" "sq_front q < 200" "length (sq_items q) = 200"
    using assms by (auto simp: ring_inv_def n_def simp flip: length_greater_0_conv)
  have some: "sq_items q ! ((sq_front q + k) mod 200) = Some (ring_view q ! k)" if "k < n" for k
    using assms(1) that by (auto simp: ring_inv_def ring_view_def n_def)
  have pos: "sq_back q = int ((sq_front q + (n - 1)) mod 200)"
    using assms(1) n by (auto simp: ring_inv_def n_def of_nat_diff add.commute)
  have "hd (ring_view q) = ring_view q ! 0" "last (ring_view q) = ring_view q ! (n - 1)"
    using assms(2) by (simp_all add: hd_conv_nth last_conv_nth n_def)
  with some [of 0] some [of "n - 1"] n show ?thesis
    by (simp add: frontAndBack_def item_at_def pos go_simps flip: n_def)
qed

fun insert_requests :: "RequestStats list \<Rightarrow> statsQueue \<Rightarrow> statsQueue option" where
  "insert_requests [] q = Some q"
| "insert_requests (p # ps) q = do { q \<leftarrow> sq_Insert p q; insert_requests ps q }"

lemma insert_requests_all: "insert_requests ps = ring.insert_all ps"
  by (induction ps) (simp_all add: ext)

section \<open>Properties\<close>

text \<open>C33: The ring buffer keeps the last 200 requests: inserting any sequence of requests into a new
  queue never panics, and afterwards length, total size, oldest and newest request are those of the
  last 200 of the sequence.\<close>

theorem statsQueue_keeps_last:
  "\<exists>q. insert_requests ps new_statsQueue = Some q \<and>
     (let kept = drop (length ps - 200) ps in
        sq_Len q = length kept \<and> sq_ReqSize q = wrap_int (\<Sum>r\<leftarrow>kept. rs_Size r) \<and>
        frontAndBack q = Some (if ps = [] then (None, None) else (Some (hd kept), Some (last ps))))"
proof -
  from ring.insert_all_view [OF ring.empty_inv, of ps] obtain q where
    q: "insert_requests ps new_statsQueue = Some q" "ring_inv q" "ring_view q = drop (length ps - 200) ps"
    by (auto simp: insert_requests_all ring.view_empty)
  have "length (ring_view q) = sq_size q" by simp
  moreover have "sq_totalReqSize q = wrap_int (\<Sum>r\<leftarrow>ring_view q. rs_Size r)"
    using q(2) by (simp add: ring_inv_def)
  moreover have "frontAndBack q = Some (if ps = [] then (None, None) else (Some (hd (ring_view q)), Some (last (ring_view q))))"
  proof (cases "ps = []")
    case True
    then show ?thesis using q(3) calculation(1) by (simp add: frontAndBack_def)
  next
    case False
    then have "ring_view q \<noteq> []" using q(3) by (cases ps) auto
    with frontAndBack_view [OF q(2)] False show ?thesis by simp
  qed
  ultimately show ?thesis
    using q by (auto simp: Let_def sq_Len_def sq_ReqSize_def last_drop)
qed

end
