(* ===== verification/Wait_Lists.thy ===== *)
theory Wait_Lists
  imports Etcd_Prelude
begin

text \<open>
  \<open>pkg/wait\<close>: the two rendezvous lists of the server. \<open>wait.go\<close> pairs a request with the channel its
  result is sent on, \<open>wait_time.go\<close> lets goroutines wait for a logical deadline.

  Channels are shared objects, so they live in a store: a channel is its position in the list of all
  channels created so far. A step that would block or panic has no result.
\<close>

section \<open>wait.go\<close>

text \<open>A channel with a buffer of capacity 1.\<close>

record 'x chan =
  ch_buf :: "'x list"
  ch_closed :: bool

record 'x wait_list =
  wl_m :: "(u64, nat) gomap"
  wl_chans :: "'x chan list"

definition wait_New :: "'x wait_list" where
  "wait_New = \<lparr>wl_m = [], wl_chans = []\<rparr>"

text \<open>\<open>ch <- x\<close> and \<open>close(ch)\<close>: sending on a closed channel or closing one panics, sending on a full
  channel blocks.\<close>

definition chan_send :: "'x \<Rightarrow> 'x chan \<Rightarrow> 'x chan option" where
  "chan_send x c =
     (if ch_closed c \<or> 1 \<le> length (ch_buf c) then None else Some (c\<lparr>ch_buf := ch_buf c @ [x]\<rparr>))"

definition chan_close :: "'x chan \<Rightarrow> 'x chan option" where
  "chan_close c = (if ch_closed c then None else Some (c\<lparr>ch_closed := True\<rparr>))"

definition Register :: "u64 \<Rightarrow> 'x wait_list \<Rightarrow> (nat \<times> 'x wait_list) option" where
  "Register i w =
     (case map_of (wl_m w) i of
        None \<Rightarrow> (let ch = length (wl_chans w)
                 in Some (ch, \<lparr>wl_m = AList.update i ch (wl_m w),
                               wl_chans = wl_chans w @ [\<lparr>ch_buf = [], ch_closed = False\<rparr>]\<rparr>))
      | Some ch \<Rightarrow> None)"

definition Trigger :: "u64 \<Rightarrow> 'x \<Rightarrow> 'x wait_list \<Rightarrow> 'x wait_list option" where
  "Trigger i x w =
     (let w' = w\<lparr>wl_m := AList.delete i (wl_m w)\<rparr> in
      case map_of (wl_m w) i of
        None \<Rightarrow> Some w'
      | Some ch \<Rightarrow>
          do { c \<leftarrow> go_index (wl_chans w) ch;
               c \<leftarrow> chan_send x c;
               c \<leftarrow> chan_close c;
               cs \<leftarrow> go_store (wl_chans w) ch c;
               Some (w'\<lparr>wl_chans := cs\<rparr>) })"

text \<open>Receiving from a channel of the list: the buffered value, or nothing (nil) once it is closed and
  empty; otherwise the receiver waits.\<close>

definition Receive :: "nat \<Rightarrow> 'x wait_list \<Rightarrow> ('x option \<times> 'x wait_list) option" where
  "Receive ch w =
     do { c \<leftarrow> go_index (wl_chans w) ch;
          (case ch_buf c of
             x # xs \<Rightarrow> do { cs \<leftarrow> go_store (wl_chans w) ch (c\<lparr>ch_buf := xs\<rparr>);
                           Some (Some x, w\<lparr>wl_chans := cs\<rparr>) }
           | [] \<Rightarrow> if ch_closed c then Some (None, w) else None) }"

inductive wait_reachable :: "'x wait_list \<Rightarrow> bool" where
  new: "wait_reachable wait_New"
| register: "wait_reachable w \<Longrightarrow> Register i w = Some (ch, w') \<Longrightarrow> wait_reachable w'"
| trigger: "wait_reachable w \<Longrightarrow> Trigger i x w = Some w' \<Longrightarrow> wait_reachable w'"
| receive: "wait_reachable w \<Longrightarrow> Receive ch w = Some (r, w') \<Longrightarrow> wait_reachable w'"

text \<open>The invariant: the registered channels are different ones, open and empty.\<close>

definition wait_inv :: "'x wait_list \<Rightarrow> bool" where
  "wait_inv w \<longleftrightarrow> distinct (map_keys (wl_m w)) \<and> distinct (map snd (wl_m w)) \<and>
     (\<forall>(i, ch) \<in> set (wl_m w). ch < length (wl_chans w) \<and>
        wl_chans w ! ch = \<lparr>ch_buf = [], ch_closed = False\<rparr>)"

lemma wait_inv_new: "wait_inv wait_New"
  by (simp add: wait_inv_def wait_New_def)

lemma wait_inv_lookup:
  assumes "wait_inv w" and "map_of (wl_m w) i = Some ch"
  shows "ch < length (wl_chans w)" and "wl_chans w ! ch = \<lparr>ch_buf = [], ch_closed = False\<rparr>"
  using assms by (auto simp: wait_inv_def dest!: map_of_SomeD)

lemma Register_inv:
  assumes "wait_inv w" and "Register i w = Some (ch, w')"
  shows "wait_inv w'"
proof -
  have "map_of (wl_m w) i = None" using assms(2) by (auto simp: Register_def split: option.splits)
  moreover from this have "i \<notin> fst ` set (wl_m w)" by (simp add: map_of_eq_None_iff)
  ultimately show ?thesis
    using assms by (fastforce simp: Register_def Let_def wait_inv_def update_new_key nth_append)
qed

lemma Trigger_result:
  assumes "wait_inv w"
  shows "Trigger i x w = Some (case map_of (wl_m w) i of
      None \<Rightarrow> w\<lparr>wl_m := AList.delete i (wl_m w)\<rparr>
    | Some ch \<Rightarrow> w\<lparr>wl_m := AList.delete i (wl_m w),
                   wl_chans := (wl_chans w)[ch := \<lparr>ch_buf = [x], ch_closed = True\<rparr>]\<rparr>)"
  using wait_inv_lookup [OF assms, of i]
  by (auto simp: Trigger_def Let_def go_simps chan_send_def chan_close_def split: option.splits)

lemma other_channel:
  "wait_inv w \<Longrightarrow> map_of (wl_m w) i = Some ch \<Longrightarrow> (j, c) \<in> set (wl_m w) \<Longrightarrow> j \<noteq> i \<Longrightarrow> c \<noteq> ch"
  by (auto simp: wait_inv_def dest: snd_unique map_of_SomeD)

lemma Trigger_inv:
  assumes "wait_inv w" and "Trigger i x w = Some w'"
  shows "wait_inv w'"
proof (cases "map_of (wl_m w) i")
  case None
  then show ?thesis
    using assms Trigger_result [OF assms(1), of i x]
    by (auto simp: wait_inv_def AList.delete_eq distinct_map_filter)
next
  case (Some ch)
  have other: "(wl_chans w)[ch := y] ! c = wl_chans w ! c" if "(j, c) \<in> set (wl_m w)" "j \<noteq> i" for j c y
    using other_channel [OF assms(1) Some that] by simp
  show ?thesis
    using assms Trigger_result [OF assms(1), of i x] Some
    by (fastforce simp: wait_inv_def AList.delete_eq distinct_map_filter other)
qed

lemma Receive_inv:
  assumes "wait_inv w" and "Receive ch w = Some (r, w')"
  shows "wait_inv w'"
proof -
  from assms(2) obtain c where c: "ch < length (wl_chans w)" "c = wl_chans w ! ch"
    by (auto simp: Receive_def go_index_def split: if_splits)
  show ?thesis
  proof (cases "ch_buf c")
    case Nil
    with c assms show ?thesis by (auto simp: Receive_def go_simps split: if_splits)
  next
    case (Cons x xs)
    with c assms(2) have w': "w' = w\<lparr>wl_chans := (wl_chans w)[ch := c\<lparr>ch_buf := xs\<rparr>]\<rparr>"
      by (auto simp: Receive_def go_simps)
    have "snd p \<noteq> ch" if "p \<in> set (wl_m w)" for p
      using assms(1) that Cons c by (auto simp: wait_inv_def)
    with assms(1) show ?thesis by (fastforce simp: w' wait_inv_def nth_list_update)
  qed
qed

lemma wait_reachable_inv: "wait_reachable w \<Longrightarrow> wait_inv w"
  by (induction rule: wait_reachable.induct)
    (auto intro: wait_inv_new Register_inv Trigger_inv Receive_inv)

section \<open>wait_time.go\<close>

text \<open>The channels of \<open>WaitTime\<close> carry no data: only whether they are closed matters. Channel 0 is
  \<open>closec\<close>, which the package closes when it is initialized.\<close>

record timeList =
  tl_last :: u64
  tl_m :: "(u64, nat) gomap"
  tl_closed :: "bool list"

definition NewTimeList :: timeList where
  "NewTimeList = \<lparr>tl_last = 0, tl_m = [], tl_closed = [True]\<rparr>"

definition WaitTime_Wait :: "u64 \<Rightarrow> timeList \<Rightarrow> nat \<times> timeList" where
  "WaitTime_Wait deadline l =
     (if deadline \<le> tl_last l then (0, l)
      else case map_of (tl_m l) deadline of
        Some ch \<Rightarrow> (ch, l)
      | None \<Rightarrow> (let ch = length (tl_closed l)
                 in (ch, l\<lparr>tl_m := AList.update deadline ch (tl_m l), tl_closed := tl_closed l @ [False]\<rparr>)))"

text \<open>The loop of \<open>Trigger\<close>: every expired deadline is deleted and its channel closed.\<close>

definition close_chan :: "nat \<Rightarrow> bool list \<Rightarrow> bool list option" where
  "close_chan ch cl = do { c \<leftarrow> go_index cl ch; if c then None else go_store cl ch True }"

fun trigger_loop :: "u64 \<Rightarrow> (u64, nat) gomap \<Rightarrow> timeList \<Rightarrow> timeList option" where
  "trigger_loop deadline [] l = Some l"
| "trigger_loop deadline ((t, ch) # es) l =
     (if t \<le> deadline
      then do { cl \<leftarrow> close_chan ch (tl_closed l);
                trigger_loop deadline es (l\<lparr>tl_m := AList.delete t (tl_m l), tl_closed := cl\<rparr>) }
      else trigger_loop deadline es l)"

definition WaitTime_Trigger :: "u64 \<Rightarrow> timeList \<Rightarrow> timeList option" where
  "WaitTime_Trigger deadline l =
     trigger_loop deadline (tl_m l) (l\<lparr>tl_last := deadline\<rparr>)"

inductive time_reachable :: "timeList \<Rightarrow> bool" where
  new: "time_reachable NewTimeList"
| wait: "time_reachable l \<Longrightarrow> WaitTime_Wait d l = (ch, l') \<Longrightarrow> time_reachable l'"
| trigger: "time_reachable l \<Longrightarrow> WaitTime_Trigger d l = Some l' \<Longrightarrow> time_reachable l'"

text \<open>The invariant: the waiting channels are different ones, open, and wait for deadlines that are
  later than the last one triggered.\<close>

definition time_inv :: "timeList \<Rightarrow> bool" where
  "time_inv l \<longleftrightarrow> distinct (map_keys (tl_m l)) \<and> distinct (map snd (tl_m l)) \<and>
     tl_closed l \<noteq> [] \<and> tl_closed l ! 0 \<and>
     (\<forall>(d, ch) \<in> set (tl_m l). ch < length (tl_closed l) \<and> \<not> tl_closed l ! ch \<and> tl_last l < d)"

lemma close_chan_open: "ch < length cl \<Longrightarrow> \<not> cl ! ch \<Longrightarrow> close_chan ch cl = Some (cl[ch := True])"
  by (simp add: close_chan_def go_simps)

lemma trigger_loop_result:
  assumes "distinct (map snd es)" and "\<forall>(t, ch) \<in> set es. ch < length (tl_closed l) \<and> \<not> tl_closed l ! ch"
  shows "trigger_loop d es l =
    Some (l\<lparr>tl_m := filter (\<lambda>(t, ch). \<not> (t \<le> d \<and> t \<in> fst ` set es)) (tl_m l),
            tl_closed := map (\<lambda>c. tl_closed l ! c \<or> (\<exists>t \<le> d. (t, c) \<in> set es)) [0..<length (tl_closed l)]\<rparr>)"
  using assms
proof (induction es arbitrary: l)
  case Nil
  then show ?case by (simp add: map_nth)
next
  case (Cons e es)
  obtain t ch where e: "e = (t, ch)" by (cases e)
  show ?case
  proof (cases "t \<le> d")
    case False
    have "map (\<lambda>c. tl_closed l ! c \<or> (\<exists>t' \<le> d. (t', c) \<in> set es)) [0..<length (tl_closed l)] =
        map (\<lambda>c. tl_closed l ! c \<or> (\<exists>t' \<le> d. (t', c) \<in> set (e # es))) [0..<length (tl_closed l)]"
      using False e by auto
    moreover have "filter (\<lambda>(t, ch). \<not> (t \<le> d \<and> t \<in> fst ` set es)) (tl_m l) =
        filter (\<lambda>(t, ch). \<not> (t \<le> d \<and> t \<in> fst ` set (e # es))) (tl_m l)"
      using False e by (intro filter_cong) auto
    ultimately show ?thesis using Cons False e by simp
  next
    case True
    let ?l = "l\<lparr>tl_m := AList.delete t (tl_m l), tl_closed := (tl_closed l)[ch := True]\<rparr>"
    have "(t', c) \<in> set es \<Longrightarrow> c \<noteq> ch" for t' c using Cons.prems(1) e by force
    then have "\<forall>(t, c) \<in> set es. c < length (tl_closed ?l) \<and> \<not> tl_closed ?l ! c"
      using Cons.prems(2) by fastforce
    with Cons have IH: "trigger_loop d es ?l =
        Some (?l\<lparr>tl_m := filter (\<lambda>(t, ch). \<not> (t \<le> d \<and> t \<in> fst ` set es)) (tl_m ?l),
            tl_closed := map (\<lambda>c. tl_closed ?l ! c \<or> (\<exists>t \<le> d. (t, c) \<in> set es)) [0..<length (tl_closed ?l)]\<rparr>)"
      by simp
    have "filter (\<lambda>(t, ch). \<not> (t \<le> d \<and> t \<in> fst ` set es)) (tl_m ?l) =
        filter (\<lambda>(t, ch). \<not> (t \<le> d \<and> t \<in> fst ` set (e # es))) (tl_m l)"
      using True e by (auto simp: AList.delete_eq intro!: filter_cong)
    moreover have "map (\<lambda>c. tl_closed ?l ! c \<or> (\<exists>t \<le> d. (t, c) \<in> set es)) [0..<length (tl_closed ?l)] =
        map (\<lambda>c. tl_closed l ! c \<or> (\<exists>t \<le> d. (t, c) \<in> set (e # es))) [0..<length (tl_closed l)]"
      using True e Cons.prems by (auto simp: nth_list_update)
    ultimately show ?thesis using True e Cons.prems IH by (simp add: close_chan_open)
  qed
qed

lemma WaitTime_Trigger_result:
  assumes "time_inv l"
  shows "WaitTime_Trigger d l =
    Some \<lparr>tl_last = d, tl_m = filter (\<lambda>(t, ch). d < t) (tl_m l),
          tl_closed = map (\<lambda>c. tl_closed l ! c \<or> (\<exists>t \<le> d. (t, c) \<in> set (tl_m l))) [0..<length (tl_closed l)]\<rparr>"
proof -
  have "filter (\<lambda>(t, ch). \<not> (t \<le> d \<and> t \<in> fst ` set (tl_m l))) (tl_m l) = filter (\<lambda>(t, ch). d < t) (tl_m l)"
    by (intro filter_cong) (auto simp: not_le image_iff)
  then show ?thesis
    using assms by (subst WaitTime_Trigger_def, subst trigger_loop_result) (auto simp: time_inv_def)
qed

lemma Wait_inv: "time_inv l \<Longrightarrow> WaitTime_Wait d l = (ch, l') \<Longrightarrow> time_inv l'"
  by (fastforce simp: WaitTime_Wait_def Let_def time_inv_def update_new_key nth_append map_of_eq_None_iff
      not_le split: if_splits option.splits)

lemma Trigger_time_inv:
  assumes "time_inv l" and "WaitTime_Trigger d l = Some l'"
  shows "time_inv l'"
proof -
  have "\<not> (\<exists>t \<le> d. (t, ch) \<in> set (tl_m l))" if "(t', ch) \<in> set (tl_m l)" "d < t'" for t' ch
    using assms(1) that snd_unique by (fastforce simp: time_inv_def)
  moreover have "ch < length (tl_closed l) \<and> \<not> tl_closed l ! ch" if "(t, ch) \<in> set (tl_m l)" for t ch
    using assms(1) that by (auto simp: time_inv_def)
  moreover have "0 < length (tl_closed l)" using assms(1) by (simp add: time_inv_def)
  ultimately show ?thesis
    using assms WaitTime_Trigger_result [OF assms(1), of d]
    by (auto simp: time_inv_def distinct_map_filter)
qed

lemma time_reachable_inv: "time_reachable l \<Longrightarrow> time_inv l"
proof (induction rule: time_reachable.induct)
  case new
  show ?case by (simp add: time_inv_def NewTimeList_def)
qed (auto intro: Wait_inv Trigger_time_inv)

text \<open>A smaller deadline moves the last one back: a deadline that has been triggered can be waited for
  again, on a channel that is open.\<close>

lemma Trigger_can_go_back:
  "do { l \<leftarrow> WaitTime_Trigger 10 NewTimeList;
        l \<leftarrow> WaitTime_Trigger 1 l;
        let (ch, l') = WaitTime_Wait 5 l;
        go_index (tl_closed l') ch } = Some False"
  by code_simp

section \<open>Properties\<close>

text \<open>C31: A registered request gets its result exactly once: in every reachable state \<open>Register\<close> panics
  only for a registered ID and otherwise makes a new channel, and \<open>Trigger\<close> neither blocks nor
  panics, puts its value into the channel of the ID, closes it, frees the ID and touches no other
  channel.\<close>

theorem wait_delivers_once:
  assumes "wait_reachable w"
  shows "(case Register i w of
            None \<Rightarrow> map_of (wl_m w) i \<noteq> None
          | Some (ch, w') \<Rightarrow> map_of (wl_m w) i = None \<and> ch = length (wl_chans w) \<and>
              map_of (wl_m w') = (map_of (wl_m w))(i \<mapsto> ch)) \<and>
         (case Trigger i x w of
            None \<Rightarrow> False
          | Some w' \<Rightarrow> map_of (wl_m w') = (map_of (wl_m w))(i := None) \<and>
              wl_chans w' = (case map_of (wl_m w) i of
                 None \<Rightarrow> wl_chans w
               | Some ch \<Rightarrow> (wl_chans w)[ch := \<lparr>ch_buf = [x], ch_closed = True\<rparr>]))"
  using Trigger_result [OF wait_reachable_inv [OF assms], of i x]
  by (auto simp: Register_def Let_def update_conv' delete_conv' split: option.splits)

definition example_wait :: "nat wait_list" where
  "example_wait = \<lparr>wl_m = [(5, 0)], wl_chans = [\<lparr>ch_buf = [], ch_closed = False\<rparr>]\<rparr>"

lemma example_wait_reachable: "wait_reachable example_wait"
  by (rule wait_reachable.register [OF wait_reachable.new, of 5 0])
    (simp add: Register_def wait_New_def example_wait_def)

theorem wait_delivers_once_witness:
  "Register 5 example_wait = None \<and>
   (case Trigger 5 42 example_wait of
      None \<Rightarrow> False
    | Some w' \<Rightarrow> wl_m w' = [] \<and> wl_chans w' = [\<lparr>ch_buf = [42], ch_closed = True\<rparr>])"
  using wait_delivers_once [OF example_wait_reachable, of 5 42]
  by (simp add: example_wait_def Register_def split: option.splits)


definition example_times :: timeList where
  "example_times = \<lparr>tl_last = 0, tl_m = [(3, 1), (8, 2)], tl_closed = [True, False, False]\<rparr>"

lemma example_times_reachable: "time_reachable example_times"
proof -
  have "WaitTime_Wait 3 NewTimeList = (1, \<lparr>tl_last = 0, tl_m = [(3, 1)], tl_closed = [True, False]\<rparr>)"
    "WaitTime_Wait 8 \<lparr>tl_last = 0, tl_m = [(3, 1)], tl_closed = [True, False]\<rparr> = (2, example_times)"
    by code_simp+
  then show ?thesis by (blast intro: time_reachable.intros)
qed


end
