(* ===== verification/Etcd_Server.thy ===== *)
theory Etcd_Server
  imports Raft_Node Internal_Request Lease Stats_Queue Wait_Lists
begin

text \<open>
  \<open>etcdserver/server.go\<close> with \<open>v2_server.go\<close>, \<open>apply_v2.go\<close>, \<open>errors.go\<close>, \<open>util.go\<close>, \<open>storage.go\<close>, the v2 store and
  the transport of \<open>api/rafthttp\<close>: the construction of a server, its start, the requests of the v2 API
  and the publication of the local member.

  What the server calls outside the modelled packages is the record \<open>server_env\<close>: the hash, the URL
  functions, the database, the JSON codec, the HTTP client and its round trippers, the clock and the
  random numbers. Log output and metrics are left out. A channel that only signals is whether it is
  closed, \<open>None\<close> while it is nil.
\<close>

section \<open>Errors and requests\<close>

datatype server_error =
    ErrUnknownMethod | ErrStopped | ErrCanceled | ErrTimeout | ErrTimeoutDueToLeaderFail
  | ErrTimeoutDueToConnectionLost | ErrTimeoutLeaderTransfer | ErrLeaderChanged | ErrNotEnoughStartedMembers
  | ErrLearnerNotReady | ErrNoLeader | ErrNotLeader | ErrRequestTooLarge | ErrNoSpace | ErrTooManyRequests
  | ErrUnhealthy | ErrKeyNotFound | ErrCorrupt | ErrBadLeaderTransferee
  | ErrContext string | ErrMarshal string

type_synonym RequestV2 = Request

definition GetBool :: "bool option \<Rightarrow> bool \<times> bool" where
  "GetBool v = (case v of None \<Rightarrow> (False, False) | Some b \<Rightarrow> (b, True))"

record Event =
  ev_Action :: string
  ev_EtcdIndex :: u64
  ev_Refresh :: bool

record Response =
  rsp_Term :: u64
  rsp_Index :: u64
  rsp_Event :: "Event option"
  rsp_Err :: "server_error option"

definition Response_zero :: Response where
  "Response_zero = \<lparr>rsp_Term = 0, rsp_Index = 0, rsp_Event = None, rsp_Err = None\<rparr>"

definition toResponse :: "Event option \<Rightarrow> server_error option \<Rightarrow> Response" where
  "toResponse ev err = Response_zero\<lparr>rsp_Event := ev, rsp_Err := err\<rparr>"

record TTLOptionSet =
  ttl_ExpireTime :: "int option"
  ttl_Refresh :: bool

definition TTLOptions :: "RequestV2 \<Rightarrow> TTLOptionSet" where
  "TTLOptions r =
     (let (refresh, _) = GetBool (rq_Refresh r)
      in \<lparr>ttl_ExpireTime = (if rq_Expiration r \<noteq> 0 then Some (sint (rq_Expiration r)) else None), ttl_Refresh = refresh\<rparr>)"

section \<open>The v2 store\<close>

record store =
  st_CurrentVersion :: nat

definition defaultVersion :: nat where
  "defaultVersion = 2"

definition newStore :: "string list \<Rightarrow> store" where
  "newStore namespaces = \<lparr>st_CurrentVersion = defaultVersion\<rparr>"

definition store_Version :: "store \<Rightarrow> nat" where
  "store_Version s = st_CurrentVersion s"

definition store_Create ::
  "string \<Rightarrow> bool \<Rightarrow> string \<Rightarrow> bool \<Rightarrow> TTLOptionSet \<Rightarrow> store \<Rightarrow> (Event option \<times> server_error option) \<times> store" where
  "store_Create nodePath dir value' unique expireOpts s = ((None, None), s)"

section \<open>The transport\<close>

record ('u, 'tls) Transport =
  tr_DialTimeout :: int
  tr_DialRetryEvery :: "int option"
  tr_TLSInfo :: 'tls
  tr_ID :: ID
  tr_URLs :: "'u URLs"
  tr_ClusterID :: ID
  tr_remotes :: "(ID, 'u URLs) gomap option"
  tr_peers :: "(ID, 'u URLs) gomap option"

definition ConnReadTimeout :: int where
  "ConnReadTimeout = 5 * 1000000000"

definition ConnWriteTimeout :: int where
  "ConnWriteTimeout = 5 * 1000000000"

type_synonym 'tls round_tripper = "'tls \<Rightarrow> int \<Rightarrow> int \<Rightarrow> int \<Rightarrow> string option"

text \<open>\<open>transport.NewTimeoutTransport\<close> is the argument \<open>rt\<close>; its result is the error.\<close>

definition NewRoundTripper :: "'tls round_tripper \<Rightarrow> 'tls \<Rightarrow> int \<Rightarrow> string option" where
  "NewRoundTripper rt tlsInfo dialTimeout = rt tlsInfo dialTimeout 0 0"

definition newStreamRoundTripper :: "'tls round_tripper \<Rightarrow> 'tls \<Rightarrow> int \<Rightarrow> string option" where
  "newStreamRoundTripper rt tlsInfo dialTimeout = rt tlsInfo dialTimeout ConnReadTimeout ConnWriteTimeout"

definition Transport_Start :: "'tls round_tripper \<Rightarrow> ('u, 'tls) Transport \<Rightarrow> string + ('u, 'tls) Transport" where
  "Transport_Start rt t =
     (case newStreamRoundTripper rt (tr_TLSInfo t) (tr_DialTimeout t) of
        Some err \<Rightarrow> Inl err
      | None \<Rightarrow>
          (case NewRoundTripper rt (tr_TLSInfo t) (tr_DialTimeout t) of
             Some err \<Rightarrow> Inl err
           | None \<Rightarrow>
               Inr (t\<lparr>tr_remotes := Some [], tr_peers := Some [],
                      tr_DialRetryEvery := (case tr_DialRetryEvery t of None \<Rightarrow> Some (100 * 1000000) | Some d \<Rightarrow> Some d)\<rparr>)))"

text \<open>\<open>AddRemote\<close>: before \<open>Start\<close> the maps are nil and the call is ignored; \<open>startRemote\<close> returns nil. URLs
  that do not parse panic when there is a logger.\<close>

definition AddRemote :: "'u url_ops \<Rightarrow> bool \<Rightarrow> ID \<Rightarrow> string list \<Rightarrow> ('u, 'tls) Transport \<Rightarrow> ('u, 'tls) Transport option" where
  "AddRemote ops lg i us t =
     (case tr_remotes t of
        None \<Rightarrow> Some t
      | Some remotes \<Rightarrow>
          if (case tr_peers t of None \<Rightarrow> False | Some ps \<Rightarrow> map_of ps i \<noteq> None) then Some t
          else if map_of remotes i \<noteq> None then Some t
          else (case NewURLs ops us of
                  Inl err \<Rightarrow> if lg then None else Some (t\<lparr>tr_remotes := Some (AList.update i [] remotes)\<rparr>)
                | Inr urls \<Rightarrow> Some (t\<lparr>tr_remotes := Some (AList.update i urls remotes)\<rparr>)))"

definition AddPeer :: "ID \<Rightarrow> string list \<Rightarrow> ('u, 'tls) Transport \<Rightarrow> ('u, 'tls) Transport" where
  "AddPeer i us t = t"

section \<open>The server\<close>

record ('v, 'be) applierV2store =
  av_lg :: bool
  av_store :: store
  av_cluster :: "('v, 'be) RaftCluster option"

record applyResult =
  ar_resp :: "bytes option"
  ar_err :: "server_error option"

record ('u, 'tls, 'v, 'be, 'f) EtcdServer =
  es_inflightSnapshots :: int
  es_appliedIndex :: u64
  es_committedIndex :: u64
  es_term :: u64
  es_lead :: u64
  es_consistIndex :: u64
  es_r :: "MemoryStorage raftNode"
  es_transport :: "('u, 'tls) Transport"
  es_readych :: bool
  es_Cfg :: "('u, 'tls) ServerConfig"
  es_w :: "applyResult option wait_list option"
  es_readwaitc :: "unit list option"
  es_stop :: "bool option"
  es_stopping :: "bool option"
  es_done :: "bool option"
  es_leaderChanged :: "bool option"
  es_errorc :: "server_error list"
  es_id :: ID
  es_attributes :: "string \<times> string list"
  es_cluster :: "('v, 'be) RaftCluster option"
  es_v2store :: store
  es_applyV2 :: "('v, 'be) applierV2store"
  es_applyWait :: "timeList option"
  es_lessor :: "'be lessor"
  es_be :: 'be
  es_stats :: ServerStats
  es_lstats :: "'f LeaderStats"
  es_SyncTicker :: int
  es_reqIDGen :: Generator
  es_wg :: nat
  es_ctx_done :: bool
  es_leadElectedTime :: int

record ('u, 'tls, 'db, 'tx, 'e) server_env =
  env_sha1 :: sha1
  env_urls :: "'u url_ops"
  env_visit :: "'u URLsMap \<Rightarrow> 'u URLsMap"
  env_bolt :: "('db, 'tx, 'e) bolt_ops"
  env_boltOpenOptions :: "bolt_Options option"
  env_enc :: "Member option \<Rightarrow> 'e + bytes"
  env_get :: "string \<Rightarrow> 'e + bytes"
  env_rt :: "'tls round_tripper"
  env_draws :: "nat \<times> nat"
  env_now :: u64
  env_ceil_seconds :: "int \<Rightarrow> int"

datatype new_error =
    ErrDataDir os_error | ErrMemberDir os_error | ErrTransport string | ErrBootstrapConfig config_error
  | ErrCluster cluster_error | ErrAlreadyBootstrapped ID

type_synonym ('db, 'tx) boot_result =
  "ID \<times> MemoryStorage node option \<times> WAL option \<times> (unit, ('db, 'tx, unit) backend) RaftCluster option"

text \<open>The \<open>switch\<close> of \<open>NewServer\<close>. Joining a running cluster and restarting from a log print a number and
  leave the cluster and the node nil.\<close>

definition bootstrap ::
  "('u, 'tls, 'db, 'tx, 'e) server_env \<Rightarrow> ('u, 'tls) ServerConfig \<Rightarrow> bool \<Rightarrow> ('db, 'tx, unit) backend \<Rightarrow> fsys \<Rightarrow>
   ((new_error + ('db, 'tx) boot_result) \<times> fsys) call_result" where
  "bootstrap env cfg haveWAL be s =
     (if \<not> haveWAL \<and> \<not> sc_NewCluster cfg then Returned (Inr (0, None, None, None), s)
      else if \<not> haveWAL \<and> sc_NewCluster cfg then
        (case VerifyBootstrap cfg of
           Some err \<Rightarrow> Returned (Inl (ErrBootstrapConfig err), s)
         | None \<Rightarrow>
             (case NewClusterFromURLsMap (env_sha1 env) (env_urls env) (env_visit env) (sc_InitialClusterToken cfg)
                     (sc_InitialPeerURLsMap cfg) of
                Inl err \<Rightarrow> Returned (Inl (ErrCluster err), s)
              | Inr cl \<Rightarrow>
                  (case MemberByName (sc_Logger cfg) (sc_Name cfg) cl of
                     None \<Rightarrow> Panics
                   | Some m \<Rightarrow>
                       (case isMemberBootstrapped (env_get env) (sc_Logger cfg) cl (sc_Name cfg) of
                          None \<Rightarrow> Panics
                        | Some True \<Rightarrow>
                            (case m of None \<Rightarrow> Panics | Some mb \<Rightarrow> Returned (Inl (ErrAlreadyBootstrapped (mb_ID mb)), s))
                        | Some False \<Rightarrow>
                            (let cl = SetBackend be cl; (raw, raw') = env_draws env
                             in case startNode (env_enc env) raw raw' cfg cl (MemberIDs cl) s of
                                  Returned ((i, n, w), s) \<Rightarrow> Returned (Inr (i, n, w, Some cl), s)
                                | Waits \<Rightarrow> Waits | Panics \<Rightarrow> Panics)))))
      else Returned (Inr (0, None, None, None), s))"

text \<open>Go divides towards zero.\<close>

definition half :: "int \<Rightarrow> int" where
  "half n = (if 0 \<le> n then n div 2 else - ((- n) div 2))"

text \<open>The part of \<open>NewServer\<close> behind the \<open>switch\<close>. The cluster is dereferenced for the transport.\<close>

definition build_server ::
  "('u, 'tls, 'db, 'tx, 'e) server_env \<Rightarrow> ('u, 'tls) ServerConfig \<Rightarrow> ('db, 'tx, unit) backend \<Rightarrow> ('db, 'tx) boot_result \<Rightarrow>
   (new_error + ('u, 'tls, unit, ('db, 'tx, unit) backend, 'f) EtcdServer) call_result" where
  "build_server env cfg be b = (case b of (i, n, w, cl) \<Rightarrow>
     (let heartbeat = wrap_int (sint (sc_TickMs cfg) * 1000000);
          minTTL = wrap_int (half (wrap_int (3 * sc_ElectionTicks cfg)) * heartbeat)
      in case newRaftNode n (w, snap_New (SnapDir cfg)) heartbeat of
           None \<Rightarrow> Panics
         | Some r \<Rightarrow>
             (case cl of
                None \<Rightarrow> Panics
              | Some c \<Rightarrow>
                  (case Transport_Start (env_rt env)
                          \<lparr>tr_DialTimeout = peerDialTimeout cfg, tr_DialRetryEvery = None, tr_TLSInfo = sc_PeerTLSInfo cfg,
                           tr_ID = i, tr_URLs = sc_PeerURLs cfg, tr_ClusterID = rc_cid c, tr_remotes = None, tr_peers = None\<rparr> of
                     Inl err \<Rightarrow> Returned (Inl (ErrTransport err))
                   | Inr tr \<Rightarrow>
                       (let tr = fold (\<lambda>m t. if mb_ID m \<noteq> i
                                   then AddPeer (mb_ID m) (case mb_PeerURLs m of None \<Rightarrow> [] | Some us \<Rightarrow> us) t else t)
                                 (cluster_Members c) tr
                        in Returned (Inr
                          \<lparr>es_inflightSnapshots = 0, es_appliedIndex = 0, es_committedIndex = 0, es_term = 0, es_lead = 0,
                           es_consistIndex = 0, es_r = r, es_transport = tr, es_readych = False, es_Cfg = cfg, es_w = None,
                           es_readwaitc = None, es_stop = None, es_stopping = None, es_done = None,
                           es_leaderChanged = None, es_errorc = [], es_id = i,
                           es_attributes = (sc_Name cfg, URLs_StringSlice (env_urls env) (sc_ClientURLs cfg)),
                           es_cluster = cl, es_v2store = newStore [''/0'', ''/1''],
                           es_applyV2 = \<lparr>av_lg = False, av_store = newStore [''/0'', ''/1''], av_cluster = cl\<rparr>,
                           es_applyWait = None,
                           es_lessor = newLessor be
                             \<lparr>lc_MinLeaseTTL = env_ceil_seconds env minTTL,
                              lc_CheckpointInterval = sc_LeaseCheckpointInterval cfg,
                              lc_ExpiredLeasesRetryInterval = ReqTimeout cfg\<rparr>,
                           es_be = be, es_stats = NewServerStats (sc_Name cfg) (ID_String i) (uint (env_now env)),
                           es_lstats = NewLeaderStats (ID_String i), es_SyncTicker = 500 * 1000000,
                           es_reqIDGen = NewGenerator (ucast i) (env_now env), es_wg = 0, es_ctx_done = False,
                           es_leadElectedTime = 0\<rparr>))))))"

text \<open>\<open>NewServer\<close>; the deferred call closes the backend on every error after it was opened.\<close>

definition NewServer ::
  "('u, 'tls, 'db, 'tx, 'e) server_env \<Rightarrow> ('u, 'tls) ServerConfig \<Rightarrow> fsys \<Rightarrow>
   ((new_error + ('u, 'tls, unit, ('db, 'tx, unit) backend, 'f) EtcdServer) \<times> fsys) call_result" where
  "NewServer env cfg s =
     (case TouchDirAll (sc_DataDir cfg) s of
        (Some terr, s) \<Rightarrow> Returned (Inl (ErrDataDir terr), s)
      | (None, s) \<Rightarrow>
          (let haveWAL = wal_Exist (WALDir cfg) s; (serr, s) = TouchDirAll (SnapDir cfg) s
           in if serr \<noteq> None \<and> sc_Logger cfg then Panics
              else (case openBackend (env_bolt env) (env_boltOpenOptions env) cfg of
                      Waits \<Rightarrow> Waits
                    | Panics \<Rightarrow> Panics
                    | Returned be \<Rightarrow>
                        (case NewRoundTripper (env_rt env) (sc_PeerTLSInfo cfg) (peerDialTimeout cfg) of
                           Some err \<Rightarrow> Returned (Inl (ErrTransport err), s)
                         | None \<Rightarrow>
                             (case bootstrap env cfg haveWAL be s of
                                Waits \<Rightarrow> Waits
                              | Panics \<Rightarrow> Panics
                              | Returned (Inl err, s) \<Rightarrow> Returned (Inl err, s)
                              | Returned (Inr b, s) \<Rightarrow>
                                  (case TouchDirAll (MemberDir cfg) s of
                                     (Some terr, s) \<Rightarrow> Returned (Inl (ErrMemberDir terr), s)
                                   | (None, s) \<Rightarrow>
                                       (case build_server env cfg be b of
                                          Waits \<Rightarrow> Waits
                                        | Panics \<Rightarrow> Panics
                                        | Returned r \<Rightarrow> Returned (r, s))))))))"

section \<open>Access to the state\<close>

definition setCommittedIndex :: "u64 \<Rightarrow> ('u, 'tls, 'v, 'be, 'f) EtcdServer \<Rightarrow> ('u, 'tls, 'v, 'be, 'f) EtcdServer" where
  "setCommittedIndex v s = s\<lparr>es_committedIndex := v\<rparr>"

definition getCommittedIndex :: "('u, 'tls, 'v, 'be, 'f) EtcdServer \<Rightarrow> u64" where
  "getCommittedIndex s = es_committedIndex s"

definition setAppliedIndex :: "u64 \<Rightarrow> ('u, 'tls, 'v, 'be, 'f) EtcdServer \<Rightarrow> ('u, 'tls, 'v, 'be, 'f) EtcdServer" where
  "setAppliedIndex v s = s\<lparr>es_appliedIndex := v\<rparr>"

definition getAppliedIndex :: "('u, 'tls, 'v, 'be, 'f) EtcdServer \<Rightarrow> u64" where
  "getAppliedIndex s = es_appliedIndex s"

definition setTerm :: "u64 \<Rightarrow> ('u, 'tls, 'v, 'be, 'f) EtcdServer \<Rightarrow> ('u, 'tls, 'v, 'be, 'f) EtcdServer" where
  "setTerm v s = s\<lparr>es_term := v\<rparr>"

definition getTerm :: "('u, 'tls, 'v, 'be, 'f) EtcdServer \<Rightarrow> u64" where
  "getTerm s = es_term s"

definition setLead :: "u64 \<Rightarrow> ('u, 'tls, 'v, 'be, 'f) EtcdServer \<Rightarrow> ('u, 'tls, 'v, 'be, 'f) EtcdServer" where
  "setLead v s = s\<lparr>es_lead := v\<rparr>"

definition getLead :: "('u, 'tls, 'v, 'be, 'f) EtcdServer \<Rightarrow> u64" where
  "getLead s = es_lead s"

definition isLeader :: "('u, 'tls, 'v, 'be, 'f) EtcdServer \<Rightarrow> bool" where
  "isLeader s = (es_id s = getLead s)"

text \<open>The callback of the ready handler.\<close>

definition updateCommittedIndex :: "u64 \<Rightarrow> ('u, 'tls, 'v, 'be, 'f) EtcdServer \<Rightarrow> ('u, 'tls, 'v, 'be, 'f) EtcdServer" where
  "updateCommittedIndex ci s = (if getCommittedIndex s < ci then setCommittedIndex ci s else s)"

text \<open>\<open>semver\<close> is the argument \<open>reparse\<close>, as for the cluster.\<close>

definition ClusterVersion :: "('v \<Rightarrow> 'v option) \<Rightarrow> ('u, 'tls, 'v, 'be, 'f) EtcdServer \<Rightarrow> 'v option option" where
  "ClusterVersion reparse s = (case es_cluster s of None \<Rightarrow> Some None | Some c \<Rightarrow> cluster_Version reparse c)"

definition ApplyWait :: "('u, 'tls, 'v, 'be, 'f) EtcdServer \<Rightarrow> (nat \<times> ('u, 'tls, 'v, 'be, 'f) EtcdServer) option" where
  "ApplyWait s =
     do { l \<leftarrow> es_applyWait s;
          let (ch, l') = WaitTime_Wait (getCommittedIndex s) l;
          Some (ch, s\<lparr>es_applyWait := Some l'\<rparr>) }"

section \<open>Starting and stopping\<close>

definition DefaultSnapshotCount :: u64 where
  "DefaultSnapshotCount = 100000"

definition DefaultSnapshotCatchUpEntries :: u64 where
  "DefaultSnapshotCatchUpEntries = 5000"

definition server_start ::
  "('v \<Rightarrow> 'v option) \<Rightarrow> ('u, 'tls, 'v, 'be, 'f) EtcdServer \<Rightarrow> ('u, 'tls, 'v, 'be, 'f) EtcdServer option" where
  "server_start reparse s =
     (let cfg = es_Cfg s;
          cfg = (if sc_SnapshotCount cfg = 0 then cfg\<lparr>sc_SnapshotCount := DefaultSnapshotCount\<rparr> else cfg);
          cfg = (if sc_SnapshotCatchUpEntries cfg = 0
                 then cfg\<lparr>sc_SnapshotCatchUpEntries := DefaultSnapshotCatchUpEntries\<rparr> else cfg);
          s = s\<lparr>es_Cfg := cfg, es_w := Some wait_New, es_applyWait := Some NewTimeList, es_done := Some False,
                es_stop := Some False, es_stopping := Some False, es_ctx_done := False, es_readwaitc := Some [],
                es_leaderChanged := Some False\<rparr>
      in do { _ \<leftarrow> ClusterVersion reparse s; Some s })"

definition adjustTicks :: "('u, 'tls, 'v, 'be, 'f) EtcdServer \<Rightarrow> ('u, 'tls, 'v, 'be, 'f) EtcdServer option" where
  "adjustTicks s =
     do { c \<leftarrow> es_cluster s;
          if length (cluster_Members c) = 1
          then do { r \<leftarrow> advanceTicks (wrap_int (sc_ElectionTicks (es_Cfg s) - 1)) (es_r s); Some (s\<lparr>es_r := r\<rparr>) }
          else Some s }"

text \<open>\<open>goAttach\<close> says whether the goroutine is started; a stopped server does not start it.\<close>

definition goAttach :: "('u, 'tls, 'v, 'be, 'f) EtcdServer \<Rightarrow> bool \<times> ('u, 'tls, 'v, 'be, 'f) EtcdServer" where
  "goAttach s = (if es_stopping s = Some True then (False, s) else (True, s\<lparr>es_wg := es_wg s + 1\<rparr>))"

text \<open>The buffer of \<open>errorc\<close> holds one error; a full one drops the error.\<close>

definition stopWithDelay :: "server_error \<Rightarrow> ('u, 'tls, 'v, 'be, 'f) EtcdServer \<Rightarrow> ('u, 'tls, 'v, 'be, 'f) EtcdServer" where
  "stopWithDelay err s = (if length (es_errorc s) < 1 then s\<lparr>es_errorc := es_errorc s @ [err]\<rparr> else s)"

text \<open>The \<open>select\<close> of \<open>run\<close> is not in a loop: whichever case is ready, \<open>run\<close> returns. The list holds the
  state after each case that can be taken.\<close>

definition run_select :: "('u, 'tls, 'v, 'be, 'f) EtcdServer \<Rightarrow> ('u, 'tls, 'v, 'be, 'f) EtcdServer list" where
  "run_select s =
     (case ern_applyc (es_r s) of [] \<Rightarrow> [] | a # as \<Rightarrow> [s\<lparr>es_r := (es_r s)\<lparr>ern_applyc := as\<rparr>\<rparr>]) @
     (case lr_expiredC (es_lessor s) of [] \<Rightarrow> [] | l # ls \<Rightarrow> [s\<lparr>es_lessor := (es_lessor s)\<lparr>lr_expiredC := ls\<rparr>\<rparr>]) @
     (case es_errorc s of [] \<Rightarrow> [] | e # es \<Rightarrow> [s\<lparr>es_errorc := es\<rparr>]) @
     (if es_stop s = Some True then [s] else [])"

text \<open>The deferred function: closing the nil channel or a closed one panics.\<close>

definition run_deferred :: "('u, 'tls, 'v, 'be, 'f) EtcdServer \<Rightarrow> ('u, 'tls, 'v, 'be, 'f) EtcdServer option" where
  "run_deferred s =
     (if es_stopping s = Some False then Some (s\<lparr>es_stopping := Some True, es_ctx_done := True\<rparr>) else None)"

section \<open>The v2 API\<close>

definition is_xdigit :: "char \<Rightarrow> bool" where
  "is_xdigit c = (digit_val c \<noteq> None \<and> the (digit_val c) < 16)"

text \<open>The regular expression \<open>/0/members/[[:xdigit:]]{1,16}/attributes\<close> is not anchored: it matches
  when some suffix of the path begins with it.\<close>

definition attributes_at :: "string \<Rightarrow> bool" where
  "attributes_at p \<longleftrightarrow>
     HasPrefix p (StoreMembersPrefix @ ''/'') \<and>
     (let rest = drop (length StoreMembersPrefix + 1) p; n = length (takeWhile is_xdigit rest)
      in 1 \<le> n \<and> n \<le> 16 \<and> HasPrefix (drop n rest) ''/attributes'')"

definition storeMemberAttributeRegexp :: "string \<Rightarrow> bool" where
  "storeMemberAttributeRegexp p = list_ex (\<lambda>i. attributes_at (drop i p)) [0..<length p + 1]"

text \<open>\<open>applierV2store.Put\<close>: \<open>unm\<close> is \<open>json.Unmarshal\<close>; a failure panics with a logger and leaves the
  attributes zero without.\<close>

definition applierV2store_Put ::
  "(string \<Rightarrow> (string \<times> string list) option) \<Rightarrow> RequestV2 \<Rightarrow> ('v, 'be) applierV2store \<Rightarrow>
   (Response \<times> ('v, 'be) applierV2store) option" where
  "applierV2store_Put unm r a =
     (let (_, existsSet) = GetBool (rq_PrevExist r) in
      if existsSet then Some (Response_zero, a)
      else if 0 < rq_PrevIndex r \<or> rq_PrevValue r \<noteq> [] then Some (Response_zero, a)
      else if storeMemberAttributeRegexp (rq_Path r) then
        (let i = MustParseMemberIDFromKey (path_Dir (rq_Path r)) in
         case unm (rq_Val r) of
           None \<Rightarrow> if av_lg a then None
                   else Some (Response_zero, a\<lparr>av_cluster := map_option (UpdateAttributes i ([], [])) (av_cluster a)\<rparr>)
         | Some attr \<Rightarrow> Some (Response_zero, a\<lparr>av_cluster := map_option (UpdateAttributes i attr) (av_cluster a)\<rparr>))
      else Some (Response_zero, a))"

definition Handle ::
  "(string \<Rightarrow> (string \<times> string list) option) \<Rightarrow> RequestV2 \<Rightarrow> ('v, 'be) applierV2store \<Rightarrow>
   ((Response \<times> server_error option) \<times> ('v, 'be) applierV2store) option" where
  "Handle unm r a =
     (let r = (if rq_Method r = ''GET'' \<and> rq_Quorum r then r\<lparr>rq_Method := ''QGET''\<rparr> else r) in
      if rq_Method r = ''PUT''
      then do { (resp, a) \<leftarrow> applierV2store_Put unm r a; Some ((resp, None), a) }
      else Some ((Response_zero, Some ErrUnknownMethod), a))"

definition server_Do ::
  "(string \<Rightarrow> (string \<times> string list) option) \<Rightarrow> RequestV2 \<Rightarrow> ('u, 'tls, 'v, 'be, 'f) EtcdServer \<Rightarrow>
   ((Response \<times> server_error option) \<times> ('u, 'tls, 'v, 'be, 'f) EtcdServer) option" where
  "server_Do unm r s =
     (case Generator_Next (es_reqIDGen s) of (i, g) \<Rightarrow>
        do { (resp, a) \<leftarrow> Handle unm (r\<lparr>rq_ID := i\<rparr>) (es_applyV2 s);
             Some (resp, s\<lparr>es_reqIDGen := g, es_applyV2 := a\<rparr>) })"

section \<open>Publishing the local member\<close>

text \<open>The loop of \<open>publish\<close> goes on until a request succeeds: \<open>None\<close> when the fuel is used up. Closing \<open>readych\<close>
  twice panics.\<close>

fun publish_loop ::
  "(string \<Rightarrow> (string \<times> string list) option) \<Rightarrow> RequestV2 \<Rightarrow> nat \<Rightarrow> ('u, 'tls, 'v, 'be, 'f) EtcdServer \<Rightarrow>
   ('u, 'tls, 'v, 'be, 'f) EtcdServer call_result option" where
  "publish_loop unm req 0 s = None"
| "publish_loop unm req (Suc k) s =
     (case server_Do unm req s of
        None \<Rightarrow> Some Panics
      | Some ((resp, None), s) \<Rightarrow> Some (if es_readych s then Panics else Returned (s\<lparr>es_readych := True\<rparr>))
      | Some ((resp, Some err), s) \<Rightarrow> publish_loop unm req k s)"

definition publish_request :: "ID \<Rightarrow> string \<Rightarrow> RequestV2" where
  "publish_request i b = Request_zero\<lparr>rq_Method := ''PUT'', rq_Path := MemberAttributesStorePath i, rq_Val := b\<rparr>"

definition publish ::
  "(string \<times> string list \<Rightarrow> 'e + string) \<Rightarrow> (string \<Rightarrow> (string \<times> string list) option) \<Rightarrow> nat \<Rightarrow>
   ('u, 'tls, 'v, 'be, 'f) EtcdServer \<Rightarrow> ('u, 'tls, 'v, 'be, 'f) EtcdServer call_result option" where
  "publish mar unm fuel s =
     (case mar (es_attributes s) of
        Inl err \<Rightarrow> Some (if sc_Logger (es_Cfg s) then Panics else Returned s)
      | Inr b \<Rightarrow> publish_loop unm (publish_request (es_id s) b) fuel s)"

section \<open>Lemmas\<close>

lemma hex_xdigits: "c \<in> set (hex n) \<Longrightarrow> is_xdigit c"
proof (induction n rule: hex.induct)
  case (1 n)
  have d: "is_xdigit (hex_digit d)" if "d < 16" for d using that by (simp add: is_xdigit_def)
  show ?case
  proof (cases "n < 16")
    case True
    then show ?thesis using 1 d hex.simps [of n] by simp
  next
    case False
    then have "c \<in> set (hex (n div 16)) \<or> c = hex_digit (n mod 16)" using 1 hex.simps [of n] by auto
    then show ?thesis using 1 False d [of "n mod 16"] by auto
  qed
qed

text \<open>The path that is published matches the expression, and its directory names the member.\<close>

lemma publish_path:
  "storeMemberAttributeRegexp (MemberAttributesStorePath i)"
  "MustParseMemberIDFromKey (path_Dir (MemberAttributesStorePath i)) = i"
proof -
  let ?h = "ID_String i" let ?p = "MemberAttributesStorePath i"
  have p: "?p = (StoreMembersPrefix @ ''/'') @ ?h @ ''/attributes''"
    unfolding member_paths by (simp add: rooted_def) code_simp
  have "takeWhile is_xdigit (?h @ ''/attributes'') = ?h"
    using hex_xdigits by (simp add: takeWhile_append ID_String_def) (simp add: is_xdigit_def digit_val_def)
  moreover have "1 \<le> length ?h" by (cases ?h) (simp_all add: ID_String_def)
  moreover have "length ?h \<le> 16" using length_hex [of 16 "unat i"] by (simp add: ID_String_def)
  ultimately have "attributes_at ?p"
    unfolding p by (simp add: attributes_at_def HasPrefix_def Let_def)
  then show "storeMemberAttributeRegexp ?p"
    by (force simp: storeMemberAttributeRegexp_def list_ex_iff intro: bexI [of _ 0])
  show "MustParseMemberIDFromKey (path_Dir ?p) = i" by (simp add: attributes_path_dir member_key_parse)
qed

text \<open>A request without conditions changes nothing but the id generator, as long as its value parses or
  the applier has no logger.\<close>

lemma server_Do_put:
  assumes "rq_Method r = ''PUT''" and "\<not> av_lg (es_applyV2 s) \<or> unm (rq_Val r) \<noteq> None"
  shows "server_Do unm r s = Some ((Response_zero, None), s\<lparr>es_reqIDGen := snd (Generator_Next (es_reqIDGen s))\<rparr>)"
proof -
  have a: "es_applyV2 s\<lparr>av_cluster := map_option (UpdateAttributes i at) (av_cluster (es_applyV2 s))\<rparr> = es_applyV2 s" for i at
    by (cases "av_cluster (es_applyV2 s)") (simp_all add: UpdateAttributes_def)
  have "applierV2store_Put unm (r\<lparr>rq_ID := i\<rparr>) (es_applyV2 s) = Some (Response_zero, es_applyV2 s)" for i
    using assms(2) by (auto simp: applierV2store_Put_def GetBool_def Let_def a split: option.splits)
  then show ?thesis
    using assms(1) by (simp add: server_Do_def Handle_def Let_def split: prod.splits)
qed

lemma Transport_Start_ok:
  assumes "\<forall>d r w. rt (tr_TLSInfo t) d r w = None"
  shows "\<exists>t'. Transport_Start rt t = Inr t' \<and> tr_ClusterID t' = tr_ClusterID t \<and> tr_ID t' = tr_ID t \<and> tr_peers t' = Some []"
  using assms by (simp add: Transport_Start_def newStreamRoundTripper_def NewRoundTripper_def)

lemma AddPeer_fold: "fold (\<lambda>m t. if P m then AddPeer (f m) (g m) t else t) ms t = t"
  by (induction ms) (simp_all add: AddPeer_def)

text \<open>The rest of \<open>NewServer\<close> succeeds once there is a cluster.\<close>

lemma build_server_ok:
  assumes "\<forall>d r w. env_rt env (sc_PeerTLSInfo cfg) d r w = None" and "0 \<le> wrap_int (sint (sc_TickMs cfg) * 1000000)"
  shows "\<exists>srv. (build_server env cfg be (i, n, w, Some c) ::
      (new_error + ('u, 'tls, unit, ('db, 'tx, unit) backend, 'f) EtcdServer) call_result) = Returned (Inr srv) \<and>
    es_id srv = i \<and> es_cluster srv = Some c \<and> es_be srv = be \<and> es_Cfg srv = cfg \<and> ern_Node (es_r srv) = n \<and>
    fst (ern_storage (es_r srv)) = w \<and> tr_ClusterID (es_transport srv) = rc_cid c \<and> \<not> es_readych srv \<and>
    \<not> av_lg (es_applyV2 srv) \<and> es_reqIDGen srv = NewGenerator (ucast i) (env_now env)"
proof -
  let ?t = "\<lparr>tr_DialTimeout = peerDialTimeout cfg, tr_DialRetryEvery = None, tr_TLSInfo = sc_PeerTLSInfo cfg,
    tr_ID = i, tr_URLs = sc_PeerURLs cfg, tr_ClusterID = rc_cid c, tr_remotes = None, tr_peers = None\<rparr>"
  obtain t' where t': "Transport_Start (env_rt env) ?t = Inr t'" "tr_ClusterID t' = rc_cid c"
    using Transport_Start_ok [of "env_rt env" ?t] assms(1) by auto
  then show ?thesis using assms(2) by (simp add: build_server_def Let_def newRaftNode_def AddPeer_fold)
qed

lemma SetBackend_same [simp]:
  "MemberIDs (SetBackend be c) = MemberIDs c" "MemberByName lg name (SetBackend be c) = MemberByName lg name c"
  "cluster_Member i (SetBackend be c) = cluster_Member i c" "rc_cid (SetBackend be c) = rc_cid c"
  by (simp_all add: SetBackend_def MemberIDs_def MemberByName_def cluster_Member_def)

lemma make_peers_SetBackend [simp]: "make_peers enc lg (SetBackend be c) ids = make_peers enc lg c ids"
  by (induction ids) (auto split: sum.splits)

lemma startNode_SetBackend [simp]:
  "startNode enc raw raw' cfg (SetBackend be c) ids s = startNode enc raw raw' cfg c ids s"
  by (simp only: startNode_def SetBackend_same make_peers_SetBackend)

section \<open>The files of a new server\<close>

lemma server_paths:
  assumes "sc_DataDir cfg = rooted ds" and "ds \<noteq> []" and "\<forall>e \<in> set ds. path_elem e" and "sc_DedicatedWALDir cfg = []"
  shows "MemberDir cfg = rooted (ds @ [''member''])" and "SnapDir cfg = rooted (ds @ [''member'', ''snap''])"
    and "WALDir cfg = rooted ((ds @ [''member'']) @ [''wal''])"
proof -
  have e: "path_elem ''member''" "path_elem ''snap''" "path_elem ''wal''" by code_simp+
  show m: "MemberDir cfg = rooted (ds @ [''member''])"
    using path_Join_rooted [OF assms(2,3) e(1)] assms(1) by (simp add: MemberDir_def)
  show "SnapDir cfg = rooted (ds @ [''member'', ''snap''])" "WALDir cfg = rooted ((ds @ [''member'']) @ [''wal''])"
    using path_Join_rooted [of "ds @ [''member'']"] assms e by (simp_all add: SnapDir_def WALDir_def m)
qed

lemma wf_root: "tree_wf s \<Longrightarrow> map_of (fs_nodes s) (r, []) = None"
  by (force simp: tree_wf_def map_of_eq_None_iff)

lemma no_wal_without_dir: "tree_wf s \<Longrightarrow> \<forall>e \<in> set es. path_elem e \<Longrightarrow> es \<noteq> [] \<Longrightarrow> map_of (fs_nodes s) (True, es) = None \<Longrightarrow> \<not> wal_Exist (rooted es) s"
  by (simp add: wal_Exist_iff locate_rooted is_dir_def)

text \<open>A place below which nothing is, with directories above: the three places a new server makes.\<close>

lemma new_server_files:
  assumes "tree_wf s" and "fs_denied s = []" and "ds \<noteq> []" and "\<forall>e \<in> set ds. path_elem e" and "no_file (True, ds) s"
    and "\<forall>k. below (True, ds) k \<longrightarrow> map_of (fs_nodes s) k = None"
    and "(True, (ds @ [''member'']) @ [''wal'' @ ''.tmp'', walName 0 0]) \<notin> set (fs_locked s)"
  obtains s1 s2 s3 s4 w where "TouchDirAll (rooted ds) s = (None, s1)"
    and "\<not> wal_Exist (rooted ((ds @ [''member'']) @ [''wal''])) s1"
    and "TouchDirAll (rooted (ds @ [''member'', ''snap''])) s1 = (None, s2)"
    and "wal_Create (rooted ((ds @ [''member'']) @ [''wal''])) md s2 = Some (Inr w, s3)"
    and "TouchDirAll (rooted (ds @ [''member''])) s3 = (None, s4)"
    and "\<not> wal_Exist (rooted ((ds @ [''member'']) @ [''wal''])) s4"
proof -
  let ?m = "ds @ [''member'']" let ?w = "?m @ [''wal'']" let ?sn = "ds @ [''member'', ''snap'']" let ?t = "?m @ [''wal'' @ ''.tmp'']"
  have e: "path_elem ''member''" "path_elem ''snap''" "path_elem ''wal''" by code_simp+
  have free: "map_of (fs_nodes s) (True, ds @ es) = None" for es using assms(6) by (simp add: below_def)
  obtain s1 where s1: "TouchDirAll (rooted ds) s = (None, s1)" "tree_wf s1" "fs_denied s1 = []" "fs_locked s1 = fs_locked s"
    "map_of (fs_nodes s1) = (\<lambda>k. if snd k \<noteq> [] \<and> below k (True, ds) then Some DirNode else map_of (fs_nodes s) k)"
    using TouchDirAll_ok [OF assms(1-5) free [of "[''.touch'']"]] by blast
  have f1: "map_of (fs_nodes s1) (True, ds @ e # es) = None" for e es using s1(5) free by (simp add: below_def)
  have nf1: "no_file (True, ?sn) s1"
    using s1(5) assms(5) f1 [of "''member''" "[]"] f1 [of "''member''" "[''snap'']"]
      below_snoc [of _ True ?m "''snap''"] below_snoc [of _ True ds "''member''"]
    by (auto simp: no_file_def)
  obtain s2 where s2: "TouchDirAll (rooted ?sn) s1 = (None, s2)" "tree_wf s2" "fs_denied s2 = []" "fs_locked s2 = fs_locked s1"
    "map_of (fs_nodes s2) = (\<lambda>k. if snd k \<noteq> [] \<and> below k (True, ?sn) then Some DirNode else map_of (fs_nodes s1) k)"
    using TouchDirAll_ok [OF s1(2,3) _ _ nf1] f1 [of "''member''" "[''snap'', ''.touch'']"] assms(4) e by auto
  have f2: "map_of (fs_nodes s2) (True, ds @ ''member'' # es) = None" if "es \<noteq> []" "es \<noteq> [''snap'']" for es
    using s2(5) f1 that by (auto simp: below_def take_Cons' split: if_splits)
  have nf2: "no_file (True, ?m) s2"
    unfolding no_file_def
  proof (intro allI impI)
    fix c b assume "below c (True, ?m)"
    then show "map_of (fs_nodes s2) c \<noteq> Some (FileNode b)"
      using s2(5) below_snoc [of c True ?m "''snap''"] wf_root [OF s2(2), of "fst c"] by (cases "snd c = []") (cases c, auto)+
  qed
  have nw2: "\<not> wal_Exist (rooted ?w) s2"
    by (rule no_wal_without_dir [OF s2(2)]) (use assms(4) e f2 [of "[''wal'']"] in auto)
  obtain w s3 where s3: "wal_Create (rooted ?w) md s2 = Some (Inr w, s3)" "tree_wf s3" "fs_denied s3 = []"
    "map_of (fs_nodes s3) =
      (\<lambda>k. if k = (True, ?m @ [''wal'' @ ''.tmp'', walName 0 0]) then Some (FileNode [])
           else if snd k \<noteq> [] \<and> below k (True, ?t) then Some DirNode
           else if below (True, ?t) k then None else map_of (fs_nodes s2) k)"
    using wal_Create_tree [OF s2(2,3) _ e(3) nf2 _ nw2, of md] assms(4,7) e(1) s1(4) s2(4) by auto
  have nf3: "no_file (True, ?m) s3"
    using s3(4) nf2 below_snoc [of _ True ?m "''wal.tmp''"] by (auto simp: no_file_def below_def)
  have f3: "map_of (fs_nodes s3) (True, ?m @ [x]) = None" if "x \<noteq> ''snap''" "x \<noteq> ''wal.tmp''" for x
    using s3(4) f2 [of "[x]"] that by (auto simp: below_def)
  obtain s4 where s4: "TouchDirAll (rooted ?m) s3 = (None, s4)" "tree_wf s4"
    "map_of (fs_nodes s4) = (\<lambda>k. if snd k \<noteq> [] \<and> below k (True, ?m) then Some DirNode else map_of (fs_nodes s3) k)"
    using TouchDirAll_ok [OF s3(2,3) _ _ nf3] f3 [of "''.touch''"] assms(4) e by auto
  have "map_of (fs_nodes s4) (True, ?w) = None" using s4(3) f3 [of "''wal''"] by (simp add: below_def)
  then have "\<not> wal_Exist (rooted ?w) s4" by (intro no_wal_without_dir [OF s4(2)]) (use assms(4) e in auto)
  moreover have "\<not> wal_Exist (rooted ?w) s1"
    by (rule no_wal_without_dir [OF s1(2)]) (use assms(4) e f1 [of "''member''" "[''wal'']"] in auto)
  ultimately show thesis using that s1(1) s2(1) s3(1) s4(1) by blast
qed

section \<open>Properties\<close>

definition example_env :: "(string, unit, nat, nat, string) server_env" where
  "example_env =
     \<lparr>env_sha1 = example_sha1, env_urls = plain_urls, env_visit = rev, env_bolt = example_bolt,
      env_boltOpenOptions = boltOpenOptions_linux,
      env_enc = (\<lambda>m. Inr (case m of None \<Rightarrow> [] | Some mb \<Rightarrow> string_bytes (mb_Name mb))),
      env_get = (\<lambda>u. Inl ''connection refused''), env_rt = (\<lambda>tls d r w. None), env_draws = (3, 5),
      env_now = 1600000000000000000, env_ceil_seconds = (\<lambda>d. (d + 999999999) div 1000000000)\<rparr>"

definition empty_fs :: fsys where
  "empty_fs = \<lparr>fs_nodes = [], fs_denied = [], fs_locked = []\<rparr>"

lemma empty_fs_fields: "fs_nodes empty_fs = []" "fs_denied empty_fs = []" "fs_locked empty_fs = []" "tree_wf empty_fs"
  by (simp_all add: empty_fs_def tree_wf_def)

text \<open>Only a server that starts a new cluster comes up: when its directory holds a log, or when it is
  configured to join a running cluster, \<open>NewServer\<close> panics, because the cluster it dereferences is nil.\<close>

lemma NewServer_without_cluster_panics:
  fixes env :: "('u, 'tls, 'db, 'tx, 'e) server_env"
  assumes "TouchDirAll (sc_DataDir cfg) s = (None, s1)" and "TouchDirAll (SnapDir cfg) s1 = (None, s2)"
    and "openBackend (env_bolt env) (env_boltOpenOptions env) cfg = Returned (be :: ('db, 'tx, unit) backend)"
    and "NewRoundTripper (env_rt env) (sc_PeerTLSInfo cfg) (peerDialTimeout cfg) = None"
    and "TouchDirAll (MemberDir cfg) s2 = (None, s3)"
    and "wal_Exist (WALDir cfg) s1 \<or> \<not> sc_NewCluster cfg"
  shows "(NewServer env cfg s :: ((new_error + ('u, 'tls, unit, ('db, 'tx, unit) backend, 'f) EtcdServer) \<times> fsys) call_result) = Panics"
proof -
  have "bootstrap env cfg (wal_Exist (WALDir cfg) s1) be s2 = Returned (Inr (0, None, None, None), s2)"
    using assms(6) by (auto simp: bootstrap_def)
  moreover have "(build_server env cfg be (0, None, None, None) ::
      (new_error + ('u, 'tls, unit, ('db, 'tx, unit) backend, 'f) EtcdServer) call_result) = Panics"
    by (simp add: build_server_def Let_def split: option.splits)
  ultimately show ?thesis using assms by (simp add: NewServer_def Let_def)
qed

text \<open>C40: Publishing the local member ends after one request, whatever the server's state: the request
  carries the path of the member's attributes, which the applier recognizes and reads back as the
  member's own id; it uses up one request id, signals readiness and changes nothing else.\<close>

theorem publish_completes:
  assumes "mar (es_attributes s) = Inr b" and "\<not> es_readych s" and "\<not> av_lg (es_applyV2 s)"
  shows "publish mar unm (Suc fuel) s =
      Some (Returned (s\<lparr>es_reqIDGen := snd (Generator_Next (es_reqIDGen s)), es_readych := True\<rparr>)) \<and>
    (let path = rq_Path (publish_request (es_id s) b) in
     storeMemberAttributeRegexp path \<and> MustParseMemberIDFromKey (path_Dir path) = es_id s)"
proof -
  have "server_Do unm (publish_request (es_id s) b) s =
      Some ((Response_zero, None), s\<lparr>es_reqIDGen := snd (Generator_Next (es_reqIDGen s))\<rparr>)"
    by (rule server_Do_put) (use assms(3) in \<open>simp_all add: publish_request_def\<close>)
  then show ?thesis
    using assms(1,2) publish_path [of "es_id s"] by (simp add: publish_def publish_request_def Let_def)
qed

theorem publish_completes_witness:
  "\<exists>srv :: (string, unit, unit, (nat, nat, unit) backend, unit) EtcdServer. es_id srv = 11 \<and>
     publish (\<lambda>a. Inr ''{}'' :: unit + string) (\<lambda>v. None) 1 srv =
       Some (Returned (srv\<lparr>es_reqIDGen := snd (Generator_Next (es_reqIDGen srv)), es_readych := True\<rparr>))"
proof -
  have "\<forall>d r w. env_rt example_env (sc_PeerTLSInfo example_server_config) d r w = None" by (simp add: example_env_def)
  moreover have "0 \<le> wrap_int (sint (sc_TickMs example_server_config) * 1000000)" by (simp add: example_server_config_def)
  ultimately obtain srv :: "(string, unit, unit, (nat, nat, unit) backend, unit) EtcdServer" where
    srv: "es_id srv = 11" "\<not> es_readych srv" "\<not> av_lg (es_applyV2 srv)"
    using build_server_ok [where ?'f = unit and env = example_env and i = 11] by blast
  from publish_completes [of "\<lambda>a. Inr ''{}'' :: unit + string" srv "''{}''" "\<lambda>v. None" 0] srv show ?thesis
    by (intro exI [of _ srv]) simp
qed

text \<open>A server configured to start a new cluster in a fresh data directory comes up. It is the member
  of its name; its raft node is a follower whose voters are exactly the members that the initial
  cluster setting describes; the transport carries the id of that cluster. The log stays in the
  temporary directory, so the next start finds none and bootstraps again.\<close>

lemma NewServer_bootstraps:
  fixes env :: "('u, 'tls, 'db, 'tx, 'e) server_env"
  assumes "tree_wf s" and "fs_denied s = []" and "ds \<noteq> []" and "\<forall>e \<in> set ds. path_elem e" and "no_file (True, ds) s"
    and "\<forall>k. below (True, ds) k \<longrightarrow> map_of (fs_nodes s) k = None"
    and "(True, (ds @ [''member'']) @ [''wal'' @ ''.tmp'', walName 0 0]) \<notin> set (fs_locked s)"
    and "sc_DataDir cfg = rooted ds" and "sc_DedicatedWALDir cfg = []" and "sc_NewCluster cfg"
    and "mset (env_visit env (sc_InitialPeerURLsMap cfg)) = mset (sc_InitialPeerURLsMap cfg)"
    and "distinct (map_keys (sc_InitialPeerURLsMap cfg))" and "length (sc_InitialPeerURLsMap cfg) < 2 ^ 62"
    and "map_of (sc_InitialPeerURLsMap cfg) (sc_Name cfg) = Some us" and "us \<noteq> []"
    and "NewClusterFromURLsMap (env_sha1 env) (env_urls env) (env_visit env) (sc_InitialClusterToken cfg)
           (sc_InitialPeerURLsMap cfg) = Inr (cl :: (unit, ('db, 'tx, unit) backend) RaftCluster)"
    and "0 < sc_ElectionTicks cfg" and "0 \<le> wrap_int (sint (sc_TickMs cfg) * 1000000)"
    and "\<forall>mb. \<exists>b. env_enc env (Some mb) = Inr b" and "\<forall>d r w. env_rt env (sc_PeerTLSInfo cfg) d r w = None"
    and "openBackend (env_bolt env) (env_boltOpenOptions env) cfg = Returned (be :: ('db, 'tx, unit) backend)"
  shows "\<exists>srv s' mb n. (NewServer env cfg s ::
      ((new_error + ('u, 'tls, unit, ('db, 'tx, unit) backend, 'f) EtcdServer) \<times> fsys) call_result) = Returned (Inr srv, s') \<and>
    MemberByName (sc_Logger cfg) (sc_Name cfg) cl = Some (Some mb) \<and> es_id srv = mb_ID mb \<and>
    ern_Node (es_r srv) = Some n \<and> r_id (rn_raft (nd_rn n)) = mb_ID mb \<and>
    r_state (rn_raft (nd_rn n)) = StateFollower \<and> promotable (rn_raft (nd_rn n)) \<and>
    set (VoterNodes (r_prs (rn_raft (nd_rn n)))) = set (MemberIDs cl) \<and>
    tr_ClusterID (es_transport srv) = rc_cid cl \<and> es_cluster srv = Some (SetBackend be cl) \<and> es_Cfg srv = cfg \<and>
    \<not> es_readych srv \<and> \<not> wal_Exist (WALDir cfg) s'"
proof -
  let ?m = "sc_InitialPeerURLsMap cfg" let ?md = "string_bytes ''test''"
  obtain s1 s2 s3 s4 w where f: "TouchDirAll (rooted ds) s = (None, s1)"
    "\<not> wal_Exist (rooted ((ds @ [''member'']) @ [''wal''])) s1" "TouchDirAll (rooted (ds @ [''member'', ''snap''])) s1 = (None, s2)"
    "wal_Create (rooted ((ds @ [''member'']) @ [''wal''])) ?md s2 = Some (Inr w, s3)"
    "TouchDirAll (rooted (ds @ [''member''])) s3 = (None, s4)" "\<not> wal_Exist (rooted ((ds @ [''member'']) @ [''wal''])) s4"
    by (rule new_server_files [OF assms(1-7)])
  note paths = server_paths [OF assms(8,3,4,9)]
  have keys: "set (map_keys (env_visit env ?m)) = set (map_keys ?m)" "distinct (map_keys (env_visit env ?m))"
    "length (env_visit env ?m) = length ?m"
    using assms(11,12) mset_eq_setD [OF assms(11)] mset_eq_length [OF assms(11)]
    by (auto simp: mset_eq_imp_distinct_iff [of "map_keys (env_visit env ?m)" "map_keys ?m"])
  have name: "sc_Name cfg \<in> set (map_keys (env_visit env ?m))" using map_of_in_keys [OF assms(14)] keys(1) by simp
  obtain raw raw' where raws: "env_draws env = (raw, raw')" by (cases "env_draws env")
  have wal: "wal_Create (WALDir cfg) ?md s2 = Some (Inr w, s3)" using f(4) paths(3) by simp
  obtain mb n where mb: "MemberByName (sc_Logger cfg) (sc_Name cfg) cl = Some (Some mb)"
    and sn: "startNode (env_enc env) raw raw' cfg cl (MemberIDs cl) s2 = Returned ((mb_ID mb, Some n, Some w), s3)"
    and n: "r_id (rn_raft (nd_rn n)) = mb_ID mb" "r_state (rn_raft (nd_rn n)) = StateFollower"
      "promotable (rn_raft (nd_rn n))" "set (VoterNodes (r_prs (rn_raft (nd_rn n)))) = set (MemberIDs cl)"
    using startNode_ok [OF assms(16) keys(2) name _ assms(17,19) wal, where raw = raw and raw' = raw'] keys(3) assms(13)
    by (auto simp: Let_def)
  have "VerifyBootstrap cfg = None" using assms(14,15) by (simp add: VerifyBootstrap_def hasLocalMember_def)
  then have b: "bootstrap env cfg False be s2 = Returned (Inr (mb_ID mb, Some n, Some w, Some (SetBackend be cl)), s3)"
    using assms(10,16) mb sn raws by (simp add: bootstrap_def not_bootstrapped Let_def)
  obtain srv where srv: "(build_server env cfg be (mb_ID mb, Some n, Some w, Some (SetBackend be cl)) ::
      (new_error + ('u, 'tls, unit, ('db, 'tx, unit) backend, 'f) EtcdServer) call_result) = Returned (Inr srv)"
    "es_id srv = mb_ID mb" "ern_Node (es_r srv) = Some n" "tr_ClusterID (es_transport srv) = rc_cid cl"
    "es_cluster srv = Some (SetBackend be cl)" "es_Cfg srv = cfg" "\<not> es_readych srv"
    using build_server_ok [OF assms(20,18), of be "mb_ID mb" "Some n" "Some w" "SetBackend be cl"] by auto
  have "(NewServer env cfg s :: ((new_error + ('u, 'tls, unit, ('db, 'tx, unit) backend, 'f) EtcdServer) \<times> fsys) call_result) =
      Returned (Inr srv, s4)"
    using f paths assms(8,20,21) b srv(1) by (simp add: NewServer_def Let_def NewRoundTripper_def)
  then show ?thesis using mb n srv f(6) paths(3) by auto
qed

end
