(* ===== verification/V3_Server.thy ===== *)
theory V3_Server
  imports Etcd_Server
begin

text \<open>
  The requests of the v3 API: \<open>etcdserver/v3_server.go\<close>, \<open>parseProposeCtxErr\<close> of \<open>server.go\<close>, and the
  checks of \<open>etcdserver/api/v3rpc/key.go\<close>.

  A call of \<open>processInternalRaftRequestOnce\<close> has two atomic parts, between which other goroutines
  run: everything up to the hand-over of the proposal (\<open>request_begin\<close>), and the case its final
  \<open>select\<close> takes (\<open>request_select\<close>, the list of the cases that are ready). The outcome of
  \<open>Propose\<close> is ignored by the code, so nothing depends on it. The relation \<open>v3_step\<close> interleaves any
  number of requests with the rest of the server.
\<close>

section \<open>The checks of the grpc layer\<close>

datatype rpc_error = ErrGRPCEmptyKey | ErrGRPCValueProvided | ErrGRPCLeaseProvided | ErrServer server_error

definition checkRangeRequest :: "bytes \<Rightarrow> rpc_error option" where
  "checkRangeRequest key = (if length key = 0 then Some ErrGRPCEmptyKey else None)"

definition checkPutRequest :: "PutRequest \<Rightarrow> rpc_error option" where
  "checkPutRequest r =
     (if length (pr_Key r) = 0 then Some ErrGRPCEmptyKey
      else if pr_IgnoreValue r \<and> length (pr_Value r) \<noteq> 0 then Some ErrGRPCValueProvided
      else if pr_IgnoreLease r \<and> pr_Lease r \<noteq> 0 then Some ErrGRPCLeaseProvided
      else None)"

section \<open>One request\<close>

definition maxGapBetweenApplyAndCommitIndex :: u64 where
  "maxGapBetweenApplyAndCommitIndex = 5000"

text \<open>A request that has been proposed and waits for its result on the channel \<open>pd_ch\<close>.\<close>

record pending =
  pd_id :: u64
  pd_ch :: nat
  pd_start :: int

text \<open>\<open>now\<close> is the time at which \<open>start\<close> is taken.\<close>

definition request_begin ::
  "int \<Rightarrow> InternalRaftRequest \<Rightarrow> ('u, 'tls, 'v, 'be, 'f) EtcdServer \<Rightarrow>
   ((server_error + pending) \<times> ('u, 'tls, 'v, 'be, 'f) EtcdServer) option" where
  "request_begin now r s =
     (if getAppliedIndex s + maxGapBetweenApplyAndCommitIndex < getCommittedIndex s
      then Some (Inl ErrTooManyRequests, s)
      else
        (let (header_id, gen) = Generator_Next (es_reqIDGen s);
             s = s\<lparr>es_reqIDGen := gen\<rparr>;
             r = r\<lparr>ir_Header := Some (RequestHeader_zero\<lparr>rh_ID := header_id\<rparr>)\<rparr>
         in do { data \<leftarrow> InternalRaftRequest_Marshal r;
                 if sint (sc_MaxRequestBytes (es_Cfg s)) < int (length data) then Some (Inl ErrRequestTooLarge, s)
                 else do { let i = (if ir_ID r = 0 then header_id else ir_ID r);
                           w \<leftarrow> es_w s;
                           (ch, w') \<leftarrow> Register i w;
                           n \<leftarrow> ern_Node (es_r s);
                           let n' = n\<lparr>nd_calls := nd_calls n @ [stepWithWaitOption (Propose_msg (Some data))]\<rparr>;
                           Some (Inr \<lparr>pd_id = i, pd_ch = ch, pd_start = now\<rparr>,
                                 s\<lparr>es_w := Some w', es_r := (es_r s)\<lparr>ern_Node := Some n'\<rparr>\<rparr>) } }))"

datatype ctx_error = Canceled | DeadlineExceeded | OtherCtxErr string

text \<open>\<open>-2 * time.Duration(ElectionTicks) * time.Duration(TickMs) * time.Millisecond\<close>\<close>

definition leaderLostWindow :: "('u, 'tls) ServerConfig \<Rightarrow> int" where
  "leaderLostWindow cfg =
     wrap_int (wrap_int (wrap_int (- 2 * sc_ElectionTicks cfg) * sint (sc_TickMs cfg)) * 1000000)"

definition parseProposeCtxErr :: "ctx_error \<Rightarrow> int \<Rightarrow> ('u, 'tls, 'v, 'be, 'f) EtcdServer \<Rightarrow> server_error" where
  "parseProposeCtxErr err start s =
     (case err of
        Canceled \<Rightarrow> ErrCanceled
      | DeadlineExceeded \<Rightarrow>
          (let curLeadElected = es_leadElectedTime s;
               prevLeadLost = curLeadElected + leaderLostWindow (es_Cfg s)
           in if prevLeadLost < start \<and> start < curLeadElected then ErrTimeoutDueToLeaderFail else ErrTimeout)
      | OtherCtxErr e \<Rightarrow> ErrContext e)"

text \<open>
  The final \<open>select\<close>. A value received from the channel is asserted to be an \<open>*applyResult\<close>, which
  panics for nil; the end of the context frees the id; a stopped server does not.
\<close>

definition request_select ::
  "pending \<Rightarrow> ctx_error option \<Rightarrow> ('u, 'tls, 'v, 'be, 'f) EtcdServer \<Rightarrow>
   ((server_error + applyResult) \<times> ('u, 'tls, 'v, 'be, 'f) EtcdServer) option list" where
  "request_select p ctx s =
     (case es_w s of
        None \<Rightarrow> []
      | Some w \<Rightarrow>
          (case Receive (pd_ch p) w of
             None \<Rightarrow> []
           | Some (Some (Some x), w') \<Rightarrow> [Some (Inr x, s\<lparr>es_w := Some w'\<rparr>)]
           | Some (_, w') \<Rightarrow> [None]) @
          (case ctx of
             None \<Rightarrow> []
           | Some err \<Rightarrow>
               [do { w' \<leftarrow> Trigger (pd_id p) None w;
                     Some (Inl (parseProposeCtxErr err (pd_start p) s), s\<lparr>es_w := Some w'\<rparr>) }]) @
          (if es_done s = Some True then [Some (Inl ErrStopped, s)] else []))"

text \<open>\<open>raftRequest\<close> loops, but its body returns in the first round; \<open>Put\<close> drops the response.\<close>

definition raftRequestOnce :: "server_error + applyResult \<Rightarrow> bytes option \<times> server_error option" where
  "raftRequestOnce res =
     (case res of
        Inl e \<Rightarrow> (None, Some e)
      | Inr x \<Rightarrow> (case ar_err x of Some e \<Rightarrow> (None, Some e) | None \<Rightarrow> (ar_resp x, None)))"

definition Put_begin ::
  "int \<Rightarrow> PutRequest \<Rightarrow> ('u, 'tls, 'v, 'be, 'f) EtcdServer \<Rightarrow>
   ((server_error + pending) \<times> ('u, 'tls, 'v, 'be, 'f) EtcdServer) option" where
  "Put_begin now r s = request_begin now (InternalRaftRequest_zero\<lparr>ir_Put := Some r\<rparr>) s"

definition server_Put :: "server_error + applyResult \<Rightarrow> bytes option \<times> server_error option" where
  "server_Put res = (case raftRequestOnce res of (_, Some e) \<Rightarrow> (None, Some e) | (_, None) \<Rightarrow> (None, None))"

text \<open>\<open>kvServer.Put\<close>: the check comes first, and the error of the server is passed on as it is.\<close>

definition kvServer_Put_begin ::
  "int \<Rightarrow> PutRequest \<Rightarrow> ('u, 'tls, 'v, 'be, 'f) EtcdServer \<Rightarrow>
   ((rpc_error + pending) \<times> ('u, 'tls, 'v, 'be, 'f) EtcdServer) option" where
  "kvServer_Put_begin now r s =
     (case checkPutRequest r of
        Some e \<Rightarrow> Some (Inl e, s)
      | None \<Rightarrow>
          do { (x, s') \<leftarrow> Put_begin now r s;
               Some (case x of Inl e \<Rightarrow> Inl (ErrServer e) | Inr p \<Rightarrow> Inr p, s') })"

section \<open>Concurrent requests\<close>

record ('u, 'tls, 'v, 'be, 'f) v3_state =
  vs_server :: "('u, 'tls, 'v, 'be, 'f) EtcdServer"
  vs_pending :: "pending list"
  vs_outcomes :: "(rpc_error + applyResult) list"
  vs_calls :: nat

text \<open>A request is refused or accepted, an accepted one ends, the indices move, the server stops. The
  counter holds the number of requests that have been started.\<close>

inductive v3_step :: "('u, 'tls, 'v, 'be, 'f) v3_state \<Rightarrow> ('u, 'tls, 'v, 'be, 'f) v3_state \<Rightarrow> bool" where
  refuse: "kvServer_Put_begin now r (vs_server st) = Some (Inl e, s') \<Longrightarrow>
    v3_step st (st\<lparr>vs_server := s', vs_outcomes := vs_outcomes st @ [Inl e], vs_calls := vs_calls st + 1\<rparr>)"
| accept: "kvServer_Put_begin now r (vs_server st) = Some (Inr p, s') \<Longrightarrow>
    v3_step st (st\<lparr>vs_server := s', vs_pending := p # vs_pending st, vs_calls := vs_calls st + 1\<rparr>)"
| finish: "vs_pending st = ps @ p # qs \<Longrightarrow> Some (res, s') \<in> set (request_select p ctx (vs_server st)) \<Longrightarrow>
    v3_step st (st\<lparr>vs_server := s', vs_pending := ps @ qs,
      vs_outcomes := vs_outcomes st @ [case res of Inl e \<Rightarrow> Inl (ErrServer e) | Inr x \<Rightarrow> Inr x]\<rparr>)"
| commit: "v3_step st (st\<lparr>vs_server := setCommittedIndex v (vs_server st)\<rparr>)"
| applied: "v3_step st (st\<lparr>vs_server := setAppliedIndex v (vs_server st)\<rparr>)"
| stop: "v3_step st (st\<lparr>vs_server := (vs_server st)\<lparr>es_done := Some True\<rparr>\<rparr>)"

inductive v3_reachable ::
  "('u, 'tls, 'v, 'be, 'f) EtcdServer \<Rightarrow> ('u, 'tls, 'v, 'be, 'f) v3_state \<Rightarrow> bool" for s0 where
  start: "v3_reachable s0 \<lparr>vs_server = s0, vs_pending = [], vs_outcomes = [], vs_calls = 0\<rparr>"
| step: "v3_reachable s0 st \<Longrightarrow> v3_step st st' \<Longrightarrow> v3_reachable s0 st'"

text \<open>The state in which \<open>start\<close> leaves a server.\<close>

definition started :: "16 word \<Rightarrow> u64 \<Rightarrow> ('u, 'tls, 'v, 'be, 'f) EtcdServer \<Rightarrow> bool" where
  "started m t s \<longleftrightarrow> es_w s = Some wait_New \<and> ern_Node (es_r s) \<noteq> None \<and> es_reqIDGen s = NewGenerator m t \<and>
     es_done s = Some False"

section \<open>What a request does\<close>

definition with_header :: "u64 \<Rightarrow> InternalRaftRequest \<Rightarrow> InternalRaftRequest" where
  "with_header i r = r\<lparr>ir_Header := Some (RequestHeader_zero\<lparr>rh_ID := i\<rparr>)\<rparr>"

definition proposal :: "u64 \<Rightarrow> InternalRaftRequest \<Rightarrow> bytes" where
  "proposal i r = InternalRaftRequest_bytes (with_header i r)"

lemma marshal_proposal: "InternalRaftRequest_Marshal (with_header i r) = Some (proposal i r)"
  unfolding InternalRaftRequest_Marshal_def proposal_def by (rule internal_request.marshal_exact)

text \<open>A request whose id is free is refused for one of two reasons or accepted, and never panics.\<close>

lemma request_begin_eq:
  assumes "Generator_Next (es_reqIDGen s) = (h, gen)" and "es_w s = Some w" and "ern_Node (es_r s) = Some n"
    and "map_of (wl_m w) (if ir_ID r = 0 then h else ir_ID r) = None"
  shows "request_begin now r s =
    (if getAppliedIndex s + maxGapBetweenApplyAndCommitIndex < getCommittedIndex s then Some (Inl ErrTooManyRequests, s)
     else if sint (sc_MaxRequestBytes (es_Cfg s)) < int (length (proposal h r))
     then Some (Inl ErrRequestTooLarge, s\<lparr>es_reqIDGen := gen\<rparr>)
     else (let i = (if ir_ID r = 0 then h else ir_ID r); ch = length (wl_chans w) in
       Some (Inr \<lparr>pd_id = i, pd_ch = ch, pd_start = now\<rparr>,
         s\<lparr>es_reqIDGen := gen,
           es_w := Some \<lparr>wl_m = wl_m w @ [(i, ch)], wl_chans = wl_chans w @ [\<lparr>ch_buf = [], ch_closed = False\<rparr>]\<rparr>,
           es_r := (es_r s)\<lparr>ern_Node := Some (n\<lparr>nd_calls := nd_calls n @
             [stepWithWaitOption (Propose_msg (Some (proposal h r)))]\<rparr>)\<rparr>\<rparr>)))"
  using assms
  by (cases "ir_ID r = 0")
    (simp_all add: request_begin_def Let_def marshal_proposal [unfolded with_header_def] Register_def update_new_key)

lemma Receive_open:
  assumes "wait_inv w" and "map_of (wl_m w) i = Some ch"
  shows "Receive ch w = None"
  using wait_inv_lookup [OF assms] by (simp add: Receive_def go_simps)

text \<open>The \<open>select\<close> of a registered request waits for the context or the end of the server.\<close>

lemma request_select_eq:
  assumes "es_w s = Some w" and "wait_inv w" and "map_of (wl_m w) (pd_id p) = Some (pd_ch p)"
  shows "request_select p ctx s =
    (case ctx of None \<Rightarrow> [] | Some err \<Rightarrow>
       [Some (Inl (parseProposeCtxErr err (pd_start p) s),
          s\<lparr>es_w := Some (w\<lparr>wl_m := AList.delete (pd_id p) (wl_m w),
            wl_chans := (wl_chans w)[pd_ch p := \<lparr>ch_buf = [None], ch_closed = True\<rparr>]\<rparr>)\<rparr>)]) @
    (if es_done s = Some True then [Some (Inl ErrStopped, s)] else [])"
  using assms Receive_open [OF assms(2,3)]
  by (simp add: request_select_def Trigger_result [OF assms(2)] split: option.split)

section \<open>The invariant of concurrent requests\<close>

definition nth_id :: "16 word \<Rightarrow> u64 \<Rightarrow> nat \<Rightarrow> u64" where
  "nth_id m t k = push_bit 48 (ucast m) OR take_bit 48 (gen_suffix (NewGenerator m t) + of_nat k)"

definition generator_at :: "16 word \<Rightarrow> u64 \<Rightarrow> nat \<Rightarrow> Generator" where
  "generator_at m t k = \<lparr>gen_prefix = push_bit 48 (ucast m), gen_suffix = gen_suffix (NewGenerator m t) + of_nat k\<rparr>"

lemma Generator_Next_at: "Generator_Next (generator_at m t k) = (nth_id m t (k + 1), generator_at m t (k + 1))"
  by (simp add: Generator_Next_def generator_at_def nth_id_def Let_def lowbit_take_bit algebra_simps)

lemma nth_id_distinct:
  assumes "k < l" and "l \<le> 2 ^ 48"  and "0 < k"
  shows "nth_id m t k \<noteq> nth_id m t l"
proof
  assume "nth_id m t k = nth_id m t l"
  then have "take_bit 48 (nth_id m t k) = take_bit 48 (nth_id m t l)" by simp
  then have "take_bit 48 (gen_suffix (NewGenerator m t) + of_nat k) = take_bit 48 (gen_suffix (NewGenerator m t) + of_nat l)"
    unfolding nth_id_def take_bit_prefix_id .
  from take_bit_48_inj [OF this assms(1)] have "2 ^ 48 \<le> l - k" .
  with assms show False by simp
qed

definition v3_inv :: "16 word \<Rightarrow> u64 \<Rightarrow> ('u, 'tls, 'v, 'be, 'f) v3_state \<Rightarrow> bool" where
  "v3_inv m t st \<longleftrightarrow>
     (\<exists>w n j. es_w (vs_server st) = Some w \<and> wait_inv w \<and> ern_Node (es_r (vs_server st)) = Some n \<and>
        j \<le> vs_calls st \<and> es_reqIDGen (vs_server st) = generator_at m t j \<and>
        fst ` set (wl_m w) \<subseteq> nth_id m t ` {1..j} \<and>
        (\<forall>p \<in> set (vs_pending st). map_of (wl_m w) (pd_id p) = Some (pd_ch p)) \<and>
        distinct (map pd_id (vs_pending st)) \<and>
        (es_done (vs_server st) \<noteq> Some True \<longrightarrow> fst ` set (wl_m w) = pd_id ` set (vs_pending st)) \<and>
        list_all isl (vs_outcomes st))"

lemma v3_inv_start: "started m t s0 \<Longrightarrow> v3_inv m t \<lparr>vs_server = s0, vs_pending = [], vs_outcomes = [], vs_calls = 0\<rparr>"
  by (auto simp: v3_inv_def started_def wait_inv_new generator_at_def NewGenerator_def)
     (auto simp: wait_New_def)

text \<open>The id of the next request is free as long as fewer than \<open>2 ^ 48\<close> have been started.\<close>

lemma next_id_free:
  assumes "fst ` set xs \<subseteq> nth_id m t ` {1..j}" and "j < 2 ^ 48"
  shows "map_of xs (nth_id m t (j + 1)) = None"
proof -
  have "nth_id m t (j + 1) \<notin> nth_id m t ` {1..j}"
  proof
    assume "nth_id m t (j + 1) \<in> nth_id m t ` {1..j}"
    then obtain k where "nth_id m t k = nth_id m t (j + 1)" "1 \<le> k" "k \<le> j" by auto
    with nth_id_distinct [of k "j + 1" m t] assms(2) show False by simp
  qed
  with assms(1) show ?thesis by (auto simp: map_of_eq_None_iff)
qed

lemma kvServer_Put_begin_cases:
  assumes "es_w s = Some w" and "ern_Node (es_r s) = Some n" and "es_reqIDGen s = generator_at m t j"
    and "map_of (wl_m w) (nth_id m t (j + 1)) = None"
  obtains e where "kvServer_Put_begin now r s = Some (Inl e, s)"
  | e where "kvServer_Put_begin now r s = Some (Inl e, s\<lparr>es_reqIDGen := generator_at m t (j + 1)\<rparr>)"
  | n' where "kvServer_Put_begin now r s =
      Some (Inr \<lparr>pd_id = nth_id m t (j + 1), pd_ch = length (wl_chans w), pd_start = now\<rparr>,
        s\<lparr>es_reqIDGen := generator_at m t (j + 1),
          es_w := Some \<lparr>wl_m = wl_m w @ [(nth_id m t (j + 1), length (wl_chans w))],
                        wl_chans = wl_chans w @ [\<lparr>ch_buf = [], ch_closed = False\<rparr>]\<rparr>,
          es_r := (es_r s)\<lparr>ern_Node := Some n'\<rparr>\<rparr>)"
proof (cases "checkPutRequest r")
  case None
  let ?r = "InternalRaftRequest_zero\<lparr>ir_Put := Some r\<rparr>"
  have z: "ir_ID ?r = 0" by (simp add: InternalRaftRequest_zero_def)
  have "Generator_Next (es_reqIDGen s) = (nth_id m t (j + 1), generator_at m t (j + 1))"
    by (simp only: assms(3) Generator_Next_at)
  note eq = request_begin_eq [OF this assms(1,2), of ?r now, unfolded z if_True eqTrueI [OF refl], OF assms(4)]
  consider "getAppliedIndex s + maxGapBetweenApplyAndCommitIndex < getCommittedIndex s"
    | "\<not> getAppliedIndex s + maxGapBetweenApplyAndCommitIndex < getCommittedIndex s"
      "sint (sc_MaxRequestBytes (es_Cfg s)) < int (length (proposal (nth_id m t (j + 1)) ?r))"
    | "\<not> getAppliedIndex s + maxGapBetweenApplyAndCommitIndex < getCommittedIndex s"
      "\<not> sint (sc_MaxRequestBytes (es_Cfg s)) < int (length (proposal (nth_id m t (j + 1)) ?r))"
    by blast
  then show thesis
  proof cases
    case 1
    with eq None show thesis by (intro that(1)) (simp add: kvServer_Put_begin_def Put_begin_def)
  next
    case 2
    with eq None show thesis by (intro that(2)) (simp add: kvServer_Put_begin_def Put_begin_def)
  next
    case 3
    with eq None show thesis by (intro that(3)) (simp add: kvServer_Put_begin_def Put_begin_def Let_def)
  qed
next
  case (Some e)
  then show thesis by (intro that(1) [of e]) (simp add: kvServer_Put_begin_def)
qed

lemma new_registration:
  assumes "wait_inv w" and "map_of (wl_m w) i = None"
  shows "wait_inv \<lparr>wl_m = wl_m w @ [(i, length (wl_chans w))], wl_chans = wl_chans w @ [\<lparr>ch_buf = [], ch_closed = False\<rparr>]\<rparr>"
  by (rule Register_inv [OF assms(1), of i "length (wl_chans w)"])
    (simp add: Register_def assms(2) update_new_key Let_def)

lemma v3_begin_inv:
  assumes "v3_inv m t st" and "vs_calls st < 2 ^ 48"
  shows "\<exists>x s'. kvServer_Put_begin now r (vs_server st) = Some (x, s') \<and>
    (case x of
       Inl e \<Rightarrow> v3_inv m t (st\<lparr>vs_server := s', vs_outcomes := vs_outcomes st @ [Inl e], vs_calls := vs_calls st + 1\<rparr>)
     | Inr p \<Rightarrow> v3_inv m t (st\<lparr>vs_server := s', vs_pending := p # vs_pending st, vs_calls := vs_calls st + 1\<rparr>))"
proof -
  from assms(1) obtain w n j where
    w: "es_w (vs_server st) = Some w" "wait_inv w" and n: "ern_Node (es_r (vs_server st)) = Some n"
    and j: "j \<le> vs_calls st" "es_reqIDGen (vs_server st) = generator_at m t j" "fst ` set (wl_m w) \<subseteq> nth_id m t ` {1..j}"
    and p: "\<forall>p \<in> set (vs_pending st). map_of (wl_m w) (pd_id p) = Some (pd_ch p)" "distinct (map pd_id (vs_pending st))"
    and d: "es_done (vs_server st) \<noteq> Some True \<longrightarrow> fst ` set (wl_m w) = pd_id ` set (vs_pending st)"
    and out: "list_all isl (vs_outcomes st)"
    by (auto simp: v3_inv_def)
  let ?i = "nth_id m t (j + 1)"
  have free: "map_of (wl_m w) ?i = None" using next_id_free [OF j(3)] j(1) assms(2) by simp
  have sub: "nth_id m t ` {1..j} \<subseteq> nth_id m t ` {1..j + 1}" by auto
  show ?thesis
  proof (rule kvServer_Put_begin_cases [OF w(1) n j(2) free, of now r])
    fix e assume "kvServer_Put_begin now r (vs_server st) = Some (Inl e, vs_server st)"
    moreover have "v3_inv m t (st\<lparr>vs_server := vs_server st, vs_outcomes := vs_outcomes st @ [Inl e], vs_calls := vs_calls st + 1\<rparr>)"
      unfolding v3_inv_def
      by (intro exI [of _ w] exI [of _ n] exI [of _ j]) (use w n j p d out in simp)
    ultimately show ?thesis by auto
  next
    fix e assume "kvServer_Put_begin now r (vs_server st) = Some (Inl e, (vs_server st)\<lparr>es_reqIDGen := generator_at m t (j + 1)\<rparr>)"
    moreover have "v3_inv m t (st\<lparr>vs_server := (vs_server st)\<lparr>es_reqIDGen := generator_at m t (j + 1)\<rparr>,
        vs_outcomes := vs_outcomes st @ [Inl e], vs_calls := vs_calls st + 1\<rparr>)"
      unfolding v3_inv_def
      by (intro exI [of _ w] exI [of _ n] exI [of _ "j + 1"]) (use w n j p d out sub in \<open>simp; blast\<close>)
    ultimately show ?thesis by auto
  next
    fix n' let ?w = "\<lparr>wl_m = wl_m w @ [(?i, length (wl_chans w))], wl_chans = wl_chans w @ [\<lparr>ch_buf = [], ch_closed = False\<rparr>]\<rparr>"
    let ?p = "\<lparr>pd_id = ?i, pd_ch = length (wl_chans w), pd_start = now\<rparr>"
    let ?s = "(vs_server st)\<lparr>es_reqIDGen := generator_at m t (j + 1), es_w := Some ?w,
      es_r := (es_r (vs_server st))\<lparr>ern_Node := Some n'\<rparr>\<rparr>"
    assume "kvServer_Put_begin now r (vs_server st) = Some (Inr ?p, ?s)"
    moreover have "?i \<notin> pd_id ` set (vs_pending st)" using p(1) free by auto
    moreover have "fst ` set (wl_m ?w) \<subseteq> nth_id m t ` {1..j + 1}" using j(3) sub by auto
    moreover have "\<forall>q \<in> set (?p # vs_pending st). map_of (wl_m ?w) (pd_id q) = Some (pd_ch q)"
      using p(1) free by (auto simp: map_add_def)
    moreover note new_registration [OF w(2) free]
    ultimately have "v3_inv m t (st\<lparr>vs_server := ?s, vs_pending := ?p # vs_pending st, vs_calls := vs_calls st + 1\<rparr>)"
      unfolding v3_inv_def
      by (intro exI [of _ ?w] exI [of _ n'] exI [of _ "j + 1"]) (use j p(2) d out in simp)
    with \<open>kvServer_Put_begin now r (vs_server st) = Some (Inr ?p, ?s)\<close> show ?thesis by auto
  qed
qed

lemma v3_finish_inv:
  assumes "v3_inv m t st" and "vs_pending st = ps @ p # qs" and "Some (res, s') \<in> set (request_select p ctx (vs_server st))"
  shows "v3_inv m t (st\<lparr>vs_server := s', vs_pending := ps @ qs,
      vs_outcomes := vs_outcomes st @ [case res of Inl e \<Rightarrow> Inl (ErrServer e) | Inr x \<Rightarrow> Inr x]\<rparr>)"
proof -
  from assms(1) obtain w n j where
    w: "es_w (vs_server st) = Some w" "wait_inv w" and n: "ern_Node (es_r (vs_server st)) = Some n"
    and j: "j \<le> vs_calls st" "es_reqIDGen (vs_server st) = generator_at m t j" "fst ` set (wl_m w) \<subseteq> nth_id m t ` {1..j}"
    and p: "\<forall>p \<in> set (vs_pending st). map_of (wl_m w) (pd_id p) = Some (pd_ch p)" "distinct (map pd_id (vs_pending st))"
    and d: "es_done (vs_server st) \<noteq> Some True \<longrightarrow> fst ` set (wl_m w) = pd_id ` set (vs_pending st)"
    and out: "list_all isl (vs_outcomes st)"
    by (auto simp: v3_inv_def)
  let ?w = "w\<lparr>wl_m := AList.delete (pd_id p) (wl_m w), wl_chans := (wl_chans w)[pd_ch p := \<lparr>ch_buf = [None], ch_closed = True\<rparr>]\<rparr>"
  have reg: "map_of (wl_m w) (pd_id p) = Some (pd_ch p)" using p(1) assms(2) by simp
  from assms(3) consider (ctx) err where "res = Inl (parseProposeCtxErr err (pd_start p) (vs_server st))"
      "s' = (vs_server st)\<lparr>es_w := Some ?w\<rparr>"
    | (stop) "res = Inl ErrStopped" "s' = vs_server st" "es_done (vs_server st) = Some True"
    by (auto simp: request_select_eq [OF w reg] split: option.splits if_splits)
  then show ?thesis
  proof cases
    case ctx
    have "wait_inv ?w" using Trigger_inv [OF w(2), of "pd_id p" None] Trigger_result [OF w(2), of "pd_id p" None] reg by simp
    moreover have "fst ` set (AList.delete (pd_id p) (wl_m w)) = fst ` set (wl_m w) - {pd_id p}"
      by (auto simp: AList.delete_eq)
    moreover have "pd_id q \<noteq> pd_id p" if "q \<in> set ps \<union> set qs" for q
      using that p(2) assms(2) by (auto simp: image_iff)
    ultimately show ?thesis
      unfolding v3_inv_def
      by (intro exI [of _ ?w] exI [of _ n] exI [of _ j])
        (use ctx n j p d out assms(2) in \<open>auto simp: AList.delete_conv'\<close>)
  next
    case stop
    show ?thesis
      unfolding v3_inv_def
      by (intro exI [of _ w] exI [of _ n] exI [of _ j]) (use stop w n j p out assms(2) in auto)
  qed
qed

lemma v3_calls_grow: "v3_step st st' \<Longrightarrow> vs_calls st \<le> vs_calls st'"
  by (induction rule: v3_step.induct) auto

lemma v3_step_inv:
  assumes "v3_step st st'" and "v3_inv m t st" and "vs_calls st' \<le> 2 ^ 48"
  shows "v3_inv m t st'"
  using assms
proof (induction rule: v3_step.induct)
  case (refuse now r st e s')
  then show ?case using v3_begin_inv [of m t st now r] by auto
next
  case (accept now r st p s')
  then show ?case using v3_begin_inv [of m t st now r] by auto
next
  case (finish st ps p qs res s' ctx)
  then show ?case using v3_finish_inv [of m t st ps p qs res s' ctx] by simp
next
  case (commit st v)
  then show ?case by (simp add: v3_inv_def setCommittedIndex_def)
next
  case (applied st v)
  then show ?case by (simp add: v3_inv_def setAppliedIndex_def)
next
  case (stop st)
  then show ?case by (auto simp: v3_inv_def)
qed

lemma v3_reachable_inv:
  "v3_reachable s0 st \<Longrightarrow> started m t s0 \<Longrightarrow> vs_calls st \<le> 2 ^ 48 \<Longrightarrow> v3_inv m t st"
proof (induction rule: v3_reachable.induct)
  case start
  then show ?case by (simp add: v3_inv_start)
next
  case (step st st')
  then show ?case using v3_calls_grow [of st st'] v3_step_inv [of st st' m t] by auto
qed

section \<open>An example\<close>

definition example_put :: PutRequest where
  "example_put = PutRequest_zero\<lparr>pr_Key := [107], pr_Value := [118]\<rparr>"

lemma length_example_proposal: "length (proposal i (InternalRaftRequest_zero\<lparr>ir_Put := Some example_put\<rparr>)) < 100"
proof -
  have "InternalRaftRequest_Size (with_header i (InternalRaftRequest_zero\<lparr>ir_Put := Some example_put\<rparr>)) < 100"
    using sovRaft_max [of i] sovRaft_max [of "of_nat (1 + sovRaft i)"] sovRaft_max [of "4 + 2 * of_nat (sovRaft 1)"] sovRaft_max [of 1] sovRaft_max [of 0]
    by (simp add: InternalRaftRequest_Size_def with_header_def InternalRaftRequest_zero_def example_put_def PutRequest_zero_def
        PutRequest_Size_def RequestHeader_Size_def RequestHeader_zero_def message_size_def unrecognized_size_def Let_def)
  then show ?thesis by (simp only: proposal_def internal_request.size_exact)
qed

text \<open>A server as \<open>NewServer\<close> and \<open>start\<close> leave it, and its first request.\<close>

lemma example_started:
  obtains s0 :: "(string, unit, unit, (nat, nat, unit) backend, unit) EtcdServer" where
    "started 11 (env_now example_env) s0" and "es_Cfg s0 = example_server_config"
    and "getCommittedIndex s0 = 0" and "getAppliedIndex s0 = 0"
proof -
  let ?c = "server_raft_config example_server_config 11" and ?ps = "[\<lparr>peer_ID = 11, peer_Context = None\<rparr>]"
  obtain rn where rn: "StartNode 1 2 ?c ?ps = Some (newNode rn)"
    by (rule StartNode_ok [of ?c ?ps 1 2]) (simp_all add: example_server_config_def)
  have "\<forall>d r w. env_rt example_env (sc_PeerTLSInfo example_server_config) d r w = None" by (simp add: example_env_def)
  moreover have "0 \<le> wrap_int (sint (sc_TickMs example_server_config) * 1000000)" by (simp add: example_server_config_def)
  ultimately obtain srv :: "(string, unit, unit, (nat, nat, unit) backend, unit) EtcdServer" where
    srv: "es_Cfg srv = example_server_config" "ern_Node (es_r srv) = Some (newNode rn)"
      "es_reqIDGen srv = NewGenerator (ucast (11 :: u64)) (env_now example_env)"
    using build_server_ok [where ?'f = unit and env = example_env and i = 11 and n = "Some (newNode rn)"] by blast
  let ?s = "setAppliedIndex 0 (setCommittedIndex 0 (srv\<lparr>es_w := Some wait_New, es_done := Some False\<rparr>))"
  show thesis
    by (rule that [of ?s])
      (simp_all add: started_def srv setAppliedIndex_def setCommittedIndex_def getAppliedIndex_def getCommittedIndex_def)
qed

lemma example_accepted:
  fixes s0 :: "('u, 'tls, 'v, 'be, 'f) EtcdServer"
  assumes "started m t s0" and "getCommittedIndex s0 = 0" and "sint (sc_MaxRequestBytes (es_Cfg s0)) \<ge> 100"
  obtains p s' where "kvServer_Put_begin 0 example_put s0 = Some (Inr p, s')"
proof -
  obtain n where n: "ern_Node (es_r s0) = Some n" "es_w s0 = Some wait_New" using assms(1) by (auto simp: started_def)
  obtain h gen where g: "Generator_Next (es_reqIDGen s0) = (h, gen)" by (cases "Generator_Next (es_reqIDGen s0)")
  have "checkPutRequest example_put = None" by (simp add: checkPutRequest_def example_put_def PutRequest_zero_def)
  then show thesis
    using request_begin_eq [OF g n(2,1), of "InternalRaftRequest_zero\<lparr>ir_Put := Some example_put\<rparr>" 0] assms(2,3)
      length_example_proposal [of h] that
    by (simp add: kvServer_Put_begin_def Put_begin_def wait_New_def Let_def InternalRaftRequest_zero_def)
qed

lemma Put_accepted:
  assumes "kvServer_Put_begin now r s = Some (Inr p, s')"
  obtains h n where "checkPutRequest r = None" "getCommittedIndex s \<le> getAppliedIndex s + 5000"
    "int (length (proposal h (InternalRaftRequest_zero\<lparr>ir_Put := Some r\<rparr>))) \<le> sint (sc_MaxRequestBytes (es_Cfg s))"
    "pd_id p = h" "pd_start p = now"
    "ern_Node (es_r s') = Some (n\<lparr>nd_calls := nd_calls n @
       [stepWithWaitOption (Propose_msg (Some (proposal h (InternalRaftRequest_zero\<lparr>ir_Put := Some r\<rparr>))))]\<rparr>)"
proof -
  let ?r = "InternalRaftRequest_zero\<lparr>ir_Put := Some r\<rparr>"
  have z: "ir_ID ?r = 0" by (simp add: InternalRaftRequest_zero_def)
  obtain h gen where g: "Generator_Next (es_reqIDGen s) = (h, gen)" by (cases "Generator_Next (es_reqIDGen s)")
  from assms have chk: "checkPutRequest r = None" by (auto simp: kvServer_Put_begin_def split: option.splits)
  with assms obtain x where "request_begin now ?r s = Some (x, s')" "(case x of Inl e \<Rightarrow> Inl (ErrServer e) | Inr p \<Rightarrow> Inr p) = Inr p"
    by (auto simp: kvServer_Put_begin_def Put_begin_def bind_eq_Some_conv)
  then have b: "request_begin now ?r s = Some (Inr p, s')" by (cases x) simp_all
  from b g z obtain w n where w: "es_w s = Some w" and n: "ern_Node (es_r s) = Some n" and free: "map_of (wl_m w) h = None"
    by (auto simp: request_begin_def Let_def bind_eq_Some_conv Register_def split: if_splits option.splits)
  show thesis
    using b request_begin_eq [OF g w n, of ?r now] free z chk
    by (intro that [of h n]) (auto simp: Let_def maxGapBetweenApplyAndCommitIndex_def not_less split: if_splits)
qed

section \<open>Properties\<close>

text \<open>C10: Concurrent requests never get into each other's way. For the first \<open>2 ^ 48\<close> requests of a
  server, in whatever order they start and end: a new request never panics on a duplicate id; the
  waiting requests have different ids, each registered with its own channel; the final \<open>select\<close> never
  panics and is ready as soon as the context of the request has ended; while the server runs exactly
  the waiting requests are registered, so none leaks. No request has been answered with a result.\<close>

theorem v3_requests_do_not_interfere:
  assumes "v3_reachable s0 st" and "started m t s0" and "vs_calls st < 2 ^ 48"
  shows "\<exists>w. es_w (vs_server st) = Some w \<and>
    kvServer_Put_begin now r (vs_server st) \<noteq> None \<and>
    distinct (map pd_id (vs_pending st)) \<and>
    (\<forall>p \<in> set (vs_pending st). map_of (wl_m w) (pd_id p) = Some (pd_ch p) \<and>
       (\<forall>ctx. None \<notin> set (request_select p ctx (vs_server st))) \<and>
       (\<forall>err. request_select p (Some err) (vs_server st) \<noteq> [])) \<and>
    (es_done (vs_server st) \<noteq> Some True \<longrightarrow> set (map_keys (wl_m w)) = pd_id ` set (vs_pending st)) \<and>
    list_all isl (vs_outcomes st)"
proof -
  have inv: "v3_inv m t st" using assms by (intro v3_reachable_inv) auto
  then obtain w where w: "es_w (vs_server st) = Some w" "wait_inv w"
    "\<forall>p \<in> set (vs_pending st). map_of (wl_m w) (pd_id p) = Some (pd_ch p)" "distinct (map pd_id (vs_pending st))"
    "es_done (vs_server st) \<noteq> Some True \<longrightarrow> fst ` set (wl_m w) = pd_id ` set (vs_pending st)" "list_all isl (vs_outcomes st)"
    by (auto simp: v3_inv_def)
  moreover have "None \<notin> set (request_select p ctx (vs_server st)) \<and> request_select p (Some err) (vs_server st) \<noteq> []"
    if "p \<in> set (vs_pending st)" for p ctx err
    using request_select_eq [OF w(1,2), of p] w(3) that by (auto split: option.splits)
  moreover from v3_begin_inv [OF inv assms(3), of now r] have "kvServer_Put_begin now r (vs_server st) \<noteq> None" by auto
  ultimately show ?thesis by auto
qed

text \<open>C12: What the raft node is asked to replicate is the client's request. An accepted put has a key and
  no contradictory options, the gap between committed and applied entries is at most 5000 (in 64-bit
  arithmetic), its proposal is within the size limit and is the last call the node received, and
  decoding the proposal gives the put request with the id the client waits for.\<close>

theorem accepted_proposal_carries_request:
  assumes "kvServer_Put_begin now r s = Some (Inr p, s')" and "pr_XXX r = None"
    and "es_w s = Some w" and "sint (sc_MaxRequestBytes (es_Cfg s)) < 2 ^ 62"
  shows "\<exists>data n'. ern_Node (es_r s') = Some n' \<and> last (nd_calls n') = SendProp (Propose_msg (Some data)) \<and>
    int (length data) \<le> sint (sc_MaxRequestBytes (es_Cfg s)) \<and>
    InternalRaftRequest_Unmarshal data InternalRaftRequest_zero =
      Some (Inr (InternalRaftRequest_zero\<lparr>ir_Header := Some (RequestHeader_zero\<lparr>rh_ID := pd_id p\<rparr>), ir_Put := Some r\<rparr>)) \<and>
    getCommittedIndex s \<le> getAppliedIndex s + 5000 \<and> pr_Key r \<noteq> [] \<and> (pr_IgnoreValue r \<longrightarrow> pr_Value r = []) \<and>
    (pr_IgnoreLease r \<longrightarrow> pr_Lease r = 0) \<and> pd_start p = now"
proof -
  let ?r = "InternalRaftRequest_zero\<lparr>ir_Put := Some r\<rparr>"
  obtain h n where chk: "checkPutRequest r = None"
    and data: "getCommittedIndex s \<le> getAppliedIndex s + 5000" "int (length (proposal h ?r)) \<le> sint (sc_MaxRequestBytes (es_Cfg s))"
      "pd_id p = h" "pd_start p = now"
      "ern_Node (es_r s') = Some (n\<lparr>nd_calls := nd_calls n @ [stepWithWaitOption (Propose_msg (Some (proposal h ?r)))]\<rparr>)"
    by (rule Put_accepted [OF assms(1)])
  have "InternalRaftRequest_Size (with_header h ?r) < 2 ^ 62"
    using data(2) assms(4) by (simp add: internal_request.size_exact proposal_def)
  then have "InternalRaftRequest_Unmarshal (proposal h ?r) InternalRaftRequest_zero = Some (Inr (with_header h ?r))"
    unfolding InternalRaftRequest_Unmarshal_def proposal_def
    by (intro internal_request.checked_bytes)
      (simp_all add: InternalRaftRequest_known_def with_header_def InternalRaftRequest_zero_def PutRequest_known_def
        RequestHeader_known_def RequestHeader_zero_def assms(2) internal_request.size_exact)
  with data chk show ?thesis
    by (intro exI [of _ "proposal h ?r"])
      (auto simp: stepWithWaitOption_def Propose_msg_def with_header_def checkPutRequest_def InternalRaftRequest_zero_def
        split: if_splits)
qed

theorem v3_requests_do_not_interfere_witness:
  "\<exists>(s0 :: (string, unit, unit, (nat, nat, unit) backend, unit) EtcdServer) st p.
     started 11 (env_now example_env) s0 \<and> v3_reachable s0 st \<and> vs_pending st = [p] \<and>
     kvServer_Put_begin 0 example_put (vs_server st) \<noteq> None \<and> request_select p (Some Canceled) (vs_server st) \<noteq> []"
proof -
  obtain s0 :: "(string, unit, unit, (nat, nat, unit) backend, unit) EtcdServer" where
    s0: "started 11 (env_now example_env) s0" "es_Cfg s0 = example_server_config" "getCommittedIndex s0 = 0"
    by (rule example_started)
  obtain p s' where p: "kvServer_Put_begin 0 example_put s0 = Some (Inr p, s')"
    by (rule example_accepted [OF s0(1,3)]) (simp add: s0(2) example_server_config_def)
  let ?st = "\<lparr>vs_server = s', vs_pending = [p], vs_outcomes = [], vs_calls = 1\<rparr>"
  have st: "v3_reachable s0 ?st"
    using v3_reachable.step [OF v3_reachable.start v3_step.accept [of 0 example_put _ p s']] p by simp
  from v3_requests_do_not_interfere [OF st s0(1), of 0 example_put] st s0(1) show ?thesis
    by (intro exI [of _ s0] exI [of _ ?st] exI [of _ p]) auto
qed

theorem accepted_proposal_carries_request_witness:
  "\<exists>(s0 :: (string, unit, unit, (nat, nat, unit) backend, unit) EtcdServer) p s' data.
     kvServer_Put_begin 0 example_put s0 = Some (Inr p, s') \<and>
     InternalRaftRequest_Unmarshal data InternalRaftRequest_zero =
       Some (Inr (InternalRaftRequest_zero\<lparr>ir_Header := Some (RequestHeader_zero\<lparr>rh_ID := pd_id p\<rparr>), ir_Put := Some example_put\<rparr>))"
proof -
  obtain s0 :: "(string, unit, unit, (nat, nat, unit) backend, unit) EtcdServer" where
    s0: "started 11 (env_now example_env) s0" "es_Cfg s0 = example_server_config" "getCommittedIndex s0 = 0"
    by (rule example_started)
  obtain p s' where p: "kvServer_Put_begin 0 example_put s0 = Some (Inr p, s')"
    by (rule example_accepted [OF s0(1,3)]) (simp add: s0(2) example_server_config_def)
  moreover have "pr_XXX example_put = None" "es_w s0 = Some wait_New" "sint (sc_MaxRequestBytes (es_Cfg s0)) < 2 ^ 62"
    using s0(1) by (simp_all add: example_put_def PutRequest_zero_def started_def s0(2) example_server_config_def)
  ultimately show ?thesis using accepted_proposal_carries_request [of 0 example_put s0 p s' wait_New] by blast
qed

end
