(* ===== verification/Rpc_Errors.thy ===== *)
theory Rpc_Errors
  imports V3_Server
begin

text \<open>
  The errors that cross the wire: \<open>etcdserver/api/v3rpc/rpctypes/error.go\<close>, the table of
  \<open>etcdserver/api/v3rpc/util.go\<close> and the texts of \<open>etcdserver/errors.go\<close>.

  An error is a sentinel of a package, identified by its variable, a status of package
  \<open>grpc/status\<close>, or an \<open>EtcdError\<close>. The status package is a parameter; \<open>status_package\<close> is what it
  documents about \<open>FromError\<close>.
\<close>

section \<open>Errors\<close>

datatype codes =
    Unknown | InvalidArgument | NotFound | PermissionDenied | ResourceExhausted | FailedPrecondition | OutOfRange
  | Unavailable | DataLoss | Unauthenticated

datatype rpc_err = Sentinel string string | StatusErr codes string | EtcdError codes string

text \<open>\<open>FromError\<close> returns the code and the message of a status, \<open>None\<close> for any other error;
  \<open>StatusString\<close> is the text of a status error.\<close>

record status_ops =
  FromError :: "rpc_err \<Rightarrow> (codes \<times> string) option"
  StatusString :: "codes \<Rightarrow> string \<Rightarrow> string"

definition status_package :: "status_ops \<Rightarrow> bool" where
  "status_package ops \<longleftrightarrow> (\<forall>c m. FromError ops (StatusErr c m) = Some (c, m)) \<and>
     (\<forall>n t. FromError ops (Sentinel n t) = None) \<and> (\<forall>c d. FromError ops (EtcdError c d) = None)"

fun err_Error :: "status_ops \<Rightarrow> rpc_err \<Rightarrow> string" where
  "err_Error ops (Sentinel n t) = t"
| "err_Error ops (StatusErr c m) = StatusString ops c m"
| "err_Error ops (EtcdError c d) = d"

definition ErrorDesc :: "status_ops \<Rightarrow> rpc_err \<Rightarrow> string" where
  "ErrorDesc ops err = (case FromError ops err of Some (c, m) \<Rightarrow> m | None \<Rightarrow> err_Error ops err)"

text \<open>The server-side errors: variable, code and message.\<close>

definition grpc_errors :: "(string \<times> codes \<times> string) list" where
  "grpc_errors =
     [(''ErrGRPCEmptyKey'', InvalidArgument, ''etcdserver: key is not provided''),
      (''ErrGRPCKeyNotFound'', InvalidArgument, ''etcdserver: key not found''),
      (''ErrGRPCValueProvided'', InvalidArgument, ''etcdserver: value is provided''),
      (''ErrGRPCLeaseProvided'', InvalidArgument, ''etcdserver: lease is provided''),
      (''ErrGRPCTooManyOps'', InvalidArgument, ''etcdserver: too many operations in txn request''),
      (''ErrGRPCDuplicateKey'', InvalidArgument, ''etcdserver: duplicate key given in txn request''),
      (''ErrGRPCCompacted'', OutOfRange, ''etcdserver: mvcc: required revision has been compacted''),
      (''ErrGRPCFutureRev'', OutOfRange, ''etcdserver: mvcc: required revision is a future revision''),
      (''ErrGRPCNoSpace'', ResourceExhausted, ''etcdserver: mvcc: database space exceeded''),
      (''ErrGRPCLeaseNotFound'', NotFound, ''etcdserver: requested lease not found''),
      (''ErrGRPCLeaseExist'', FailedPrecondition, ''etcdserver: lease already exists''),
      (''ErrGRPCLeaseTTLTooLarge'', OutOfRange, ''etcdserver: too large lease TTL''),
      (''ErrGRPCMemberExist'', FailedPrecondition, ''etcdserver: member ID already exist''),
      (''ErrGRPCPeerURLExist'', FailedPrecondition, ''etcdserver: Peer URLs already exists''),
      (''ErrGRPCMemberNotEnoughStarted'', FailedPrecondition, ''etcdserver: re-configuration failed due to not enough started members''),
      (''ErrGRPCMemberBadURLs'', InvalidArgument, ''etcdserver: given member URLs are invalid''),
      (''ErrGRPCMemberNotFound'', NotFound, ''etcdserver: member not found''),
      (''ErrGRPCMemberNotLearner'', FailedPrecondition, ''etcdserver: can only promote a learner member''),
      (''ErrGRPCLearnerNotReady'', FailedPrecondition, ''etcdserver: can only promote a learner member which is in sync with leader''),
      (''ErrGRPCTooManyLearners'', FailedPrecondition, ''etcdserver: too many learner members in cluster''),
      (''ErrGRPCRequestTooLarge'', InvalidArgument, ''etcdserver: request is too large''),
      (''ErrGRPCRequestTooManyRequests'', ResourceExhausted, ''etcdserver: too many requests''),
      (''ErrGRPCRootUserNotExist'', FailedPrecondition, ''etcdserver: root user does not exist''),
      (''ErrGRPCRootRoleNotExist'', FailedPrecondition, ''etcdserver: root user does not have root role''),
      (''ErrGRPCUserAlreadyExist'', FailedPrecondition, ''etcdserver: user name already exists''),
      (''ErrGRPCUserEmpty'', InvalidArgument, ''etcdserver: user name is empty''),
      (''ErrGRPCUserNotFound'', FailedPrecondition, ''etcdserver: user name not found''),
      (''ErrGRPCRoleAlreadyExist'', FailedPrecondition, ''etcdserver: role name already exists''),
      (''ErrGRPCRoleNotFound'', FailedPrecondition, ''etcdserver: role name not found''),
      (''ErrGRPCRoleEmpty'', InvalidArgument, ''etcdserver: role name is empty''),
      (''ErrGRPCAuthFailed'', InvalidArgument, ''etcdserver: authentication failed, invalid user ID or password''),
      (''ErrGRPCPermissionDenied'', PermissionDenied, ''etcdserver: permission denied''),
      (''ErrGRPCRoleNotGranted'', FailedPrecondition, ''etcdserver: role is not granted to the user''),
      (''ErrGRPCPermissionNotGranted'', FailedPrecondition, ''etcdserver: permission is not granted to the role''),
      (''ErrGRPCAuthNotEnabled'', FailedPrecondition, ''etcdserver: authentication is not enabled''),
      (''ErrGRPCInvalidAuthToken'', Unauthenticated, ''etcdserver: invalid auth token''),
      (''ErrGRPCInvalidAuthMgmt'', InvalidArgument, ''etcdserver: invalid auth management''),
      (''ErrGRPCNoLeader'', Unavailable, ''etcdserver: no leader''),
      (''ErrGRPCNotLeader'', FailedPrecondition, ''etcdserver: not leader''),
      (''ErrGRPCLeaderChanged'', Unavailable, ''etcdserver: leader changed''),
      (''ErrGRPCNotCapable'', Unavailable, ''etcdserver: not capable''),
      (''ErrGRPCStopped'', Unavailable, ''etcdserver: server stopped''),
      (''ErrGRPCTimeout'', Unavailable, ''etcdserver: request timed out''),
      (''ErrGRPCTimeoutDueToLeaderFail'', Unavailable, ''etcdserver: request timed out, possibly due to previous leader failure''),
      (''ErrGRPCTimeoutDueToConnectionLost'', Unavailable, ''etcdserver: request timed out, possibly due to connection lost''),
      (''ErrGRPCUnhealthy'', Unavailable, ''etcdserver: unhealthy cluster''),
      (''ErrGRPCCorrupt'', DataLoss, ''etcdserver: corrupt cluster''),
      (''ErrGPRCNotSupportedForLearner'', Unavailable, ''etcdserver: rpc not supported for learner''),
      (''ErrGRPCBadLeaderTransferee'', FailedPrecondition, ''etcdserver: bad leader transferee'')]"

definition errStringToError :: "status_ops \<Rightarrow> (string, rpc_err) gomap" where
  "errStringToError ops =
     fold (\<lambda>(n, c, m). AList.update (ErrorDesc ops (StatusErr c m)) (StatusErr c m)) grpc_errors []"

text \<open>\<open>Error\<close>; nil is \<open>None\<close>. For an error that is no status, \<open>FromError\<close> gives one with code \<open>Unknown\<close>.\<close>

definition rpctypes_Error :: "status_ops \<Rightarrow> rpc_err option \<Rightarrow> rpc_err option" where
  "rpctypes_Error ops err =
     (case err of
        None \<Rightarrow> None
      | Some e \<Rightarrow>
          (case map_of (errStringToError ops) (ErrorDesc ops e) of
             None \<Rightarrow> Some e
           | Some verr \<Rightarrow>
               (case FromError ops verr of
                  Some (c, m) \<Rightarrow> Some (EtcdError c m)
                | None \<Rightarrow> Some (EtcdError Unknown (err_Error ops verr)))))"

text \<open>The client-side errors: variable and the server-side error that \<open>Error\<close> is applied to.\<close>

definition client_errors :: "(string \<times> string) list" where
  "client_errors =
     [(''ErrEmptyKey'', ''ErrGRPCEmptyKey''),
      (''ErrKeyNotFound'', ''ErrGRPCKeyNotFound''),
      (''ErrValueProvided'', ''ErrGRPCValueProvided''),
      (''ErrLeaseProvided'', ''ErrGRPCLeaseProvided''),
      (''ErrTooManyOps'', ''ErrGRPCTooManyOps''),
      (''ErrDuplicateKey'', ''ErrGRPCDuplicateKey''),
      (''ErrCompacted'', ''ErrGRPCCompacted''),
      (''ErrFutureRev'', ''ErrGRPCFutureRev''),
      (''ErrNoSpace'', ''ErrGRPCNoSpace''),
      (''ErrLeaseNotFound'', ''ErrGRPCLeaseNotFound''),
      (''ErrLeaseExist'', ''ErrGRPCLeaseExist''),
      (''ErrLeaseTTLTooLarge'', ''ErrGRPCLeaseTTLTooLarge''),
      (''ErrMemberExist'', ''ErrGRPCMemberExist''),
      (''ErrPeerURLExist'', ''ErrGRPCPeerURLExist''),
      (''ErrMemberNotEnoughStarted'', ''ErrGRPCMemberNotEnoughStarted''),
      (''ErrMemberBadURLs'', ''ErrGRPCMemberBadURLs''),
      (''ErrMemberNotFound'', ''ErrGRPCMemberNotFound''),
      (''ErrMemberNotLearner'', ''ErrGRPCMemberNotLearner''),
      (''ErrMemberLearnerNotReady'', ''ErrGRPCLearnerNotReady''),
      (''ErrTooManyLearners'', ''ErrGRPCTooManyLearners''),
      (''ErrRequestTooLarge'', ''ErrGRPCRequestTooLarge''),
      (''ErrTooManyRequests'', ''ErrGRPCRequestTooManyRequests''),
      (''ErrRootUserNotExist'', ''ErrGRPCRootUserNotExist''),
      (''ErrRootRoleNotExist'', ''ErrGRPCRootRoleNotExist''),
      (''ErrUserAlreadyExist'', ''ErrGRPCUserAlreadyExist''),
      (''ErrUserEmpty'', ''ErrGRPCUserEmpty''),
      (''ErrUserNotFound'', ''ErrGRPCUserNotFound''),
      (''ErrRoleAlreadyExist'', ''ErrGRPCRoleAlreadyExist''),
      (''ErrRoleNotFound'', ''ErrGRPCRoleNotFound''),
      (''ErrRoleEmpty'', ''ErrGRPCRoleEmpty''),
      (''ErrAuthFailed'', ''ErrGRPCAuthFailed''),
      (''ErrPermissionDenied'', ''ErrGRPCPermissionDenied''),
      (''ErrRoleNotGranted'', ''ErrGRPCRoleNotGranted''),
      (''ErrPermissionNotGranted'', ''ErrGRPCPermissionNotGranted''),
      (''ErrAuthNotEnabled'', ''ErrGRPCAuthNotEnabled''),
      (''ErrInvalidAuthToken'', ''ErrGRPCInvalidAuthToken''),
      (''ErrInvalidAuthMgmt'', ''ErrGRPCInvalidAuthMgmt''),
      (''ErrNoLeader'', ''ErrGRPCNoLeader''),
      (''ErrNotLeader'', ''ErrGRPCNotLeader''),
      (''ErrLeaderChanged'', ''ErrGRPCLeaderChanged''),
      (''ErrNotCapable'', ''ErrGRPCNotCapable''),
      (''ErrStopped'', ''ErrGRPCStopped''),
      (''ErrTimeout'', ''ErrGRPCTimeout''),
      (''ErrTimeoutDueToLeaderFail'', ''ErrGRPCTimeoutDueToLeaderFail''),
      (''ErrTimeoutDueToConnectionLost'', ''ErrGRPCTimeoutDueToConnectionLost''),
      (''ErrUnhealthy'', ''ErrGRPCUnhealthy''),
      (''ErrCorrupt'', ''ErrGRPCCorrupt''),
      (''ErrBadLeaderTransferee'', ''ErrGRPCBadLeaderTransferee'')]"

text \<open>The value of a variable of package \<open>rpctypes\<close>.\<close>

definition rpctypes_var :: "status_ops \<Rightarrow> string \<Rightarrow> rpc_err option" where
  "rpctypes_var ops v =
     (case map_of grpc_errors v of
        Some (c, m) \<Rightarrow> Some (StatusErr c m)
      | None \<Rightarrow>
          (case map_of client_errors v of
             None \<Rightarrow> None
           | Some g \<Rightarrow> rpctypes_Error ops (map_option (\<lambda>(c, m). StatusErr c m) (map_of grpc_errors g))))"

text \<open>The errors of the server; those of a context and of an encoder are given by their texts.\<close>

fun server_err :: "server_error \<Rightarrow> rpc_err" where
  "server_err ErrUnknownMethod = Sentinel ''etcdserver.ErrUnknownMethod'' ''etcdserver: unknown method''"
| "server_err ErrStopped = Sentinel ''etcdserver.ErrStopped'' ''etcdserver: server stopped''"
| "server_err ErrCanceled = Sentinel ''etcdserver.ErrCanceled'' ''etcdserver: request cancelled''"
| "server_err ErrTimeout = Sentinel ''etcdserver.ErrTimeout'' ''etcdserver: request timed out''"
| "server_err ErrTimeoutDueToLeaderFail = Sentinel ''etcdserver.ErrTimeoutDueToLeaderFail'' ''etcdserver: request timed out, possibly due to previous leader failure''"
| "server_err ErrTimeoutDueToConnectionLost = Sentinel ''etcdserver.ErrTimeoutDueToConnectionLost'' ''etcdserver: request timed out, possibly due to connection lost''"
| "server_err ErrTimeoutLeaderTransfer = Sentinel ''etcdserver.ErrTimeoutLeaderTransfer'' ''etcdserver: request timed out, leader transfer took too long''"
| "server_err ErrLeaderChanged = Sentinel ''etcdserver.ErrLeaderChanged'' ''etcdserver: leader changed''"
| "server_err ErrNotEnoughStartedMembers = Sentinel ''etcdserver.ErrNotEnoughStartedMembers'' ''etcdserver: re-configuration failed due to not enough started members''"
| "server_err ErrLearnerNotReady = Sentinel ''etcdserver.ErrLearnerNotReady'' ''etcdserver: can only promote a learner member which is in sync with leader''"
| "server_err ErrNoLeader = Sentinel ''etcdserver.ErrNoLeader'' ''etcdserver: no leader''"
| "server_err ErrNotLeader = Sentinel ''etcdserver.ErrNotLeader'' ''etcdserver: not leader''"
| "server_err ErrRequestTooLarge = Sentinel ''etcdserver.ErrRequestTooLarge'' ''etcdserver: request is too large''"
| "server_err ErrNoSpace = Sentinel ''etcdserver.ErrNoSpace'' ''etcdserver: no space''"
| "server_err ErrTooManyRequests = Sentinel ''etcdserver.ErrTooManyRequests'' ''etcdserver: too many requests''"
| "server_err ErrUnhealthy = Sentinel ''etcdserver.ErrUnhealthy'' ''etcdserver: unhealthy cluster''"
| "server_err ErrKeyNotFound = Sentinel ''etcdserver.ErrKeyNotFound'' ''etcdserver: key not found''"
| "server_err ErrCorrupt = Sentinel ''etcdserver.ErrCorrupt'' ''etcdserver: corrupt cluster''"
| "server_err ErrBadLeaderTransferee = Sentinel ''etcdserver.ErrBadLeaderTransferee'' ''etcdserver: bad leader transferee''"
| "server_err (ErrContext t) = Sentinel ''context'' t"
| "server_err (ErrMarshal t) = Sentinel ''proto'' t"

definition toGRPCErrorMap :: "(rpc_err \<times> string) list" where
  "toGRPCErrorMap =
     [(Sentinel ''membership.ErrIDRemoved'' ''membership: ID removed'', ''ErrGRPCMemberNotFound''),
      (Sentinel ''membership.ErrIDNotFound'' ''membership: ID not found'', ''ErrGRPCMemberNotFound''),
      (Sentinel ''membership.ErrIDExists'' ''membership: ID exists'', ''ErrGRPCMemberExist''),
      (Sentinel ''membership.ErrPeerURLexists'' ''membership: peerURL exists'', ''ErrGRPCPeerURLExist''),
      (Sentinel ''membership.ErrMemberNotLearner'' ''membership: can only promote a learner member'', ''ErrGRPCMemberNotLearner''),
      (Sentinel ''membership.ErrTooManyLearners'' ''membership: too many learner members in cluster'', ''ErrGRPCTooManyLearners''),
      (server_err ErrNotEnoughStartedMembers, ''ErrMemberNotEnoughStarted''),
      (server_err ErrLearnerNotReady, ''ErrGRPCLearnerNotReady''),
      (Sentinel ''mvcc.ErrCompacted'' ''mvcc: required revision has been compacted'', ''ErrGRPCCompacted''),
      (Sentinel ''mvcc.ErrFutureRev'' ''mvcc: required revision is a future revision'', ''ErrGRPCFutureRev''),
      (server_err ErrRequestTooLarge, ''ErrGRPCRequestTooLarge''),
      (server_err ErrNoSpace, ''ErrGRPCNoSpace''),
      (server_err ErrTooManyRequests, ''ErrTooManyRequests''),
      (server_err ErrNoLeader, ''ErrGRPCNoLeader''),
      (server_err ErrNotLeader, ''ErrGRPCNotLeader''),
      (server_err ErrLeaderChanged, ''ErrGRPCLeaderChanged''),
      (server_err ErrStopped, ''ErrGRPCStopped''),
      (server_err ErrTimeout, ''ErrGRPCTimeout''),
      (server_err ErrTimeoutDueToLeaderFail, ''ErrGRPCTimeoutDueToLeaderFail''),
      (server_err ErrTimeoutDueToConnectionLost, ''ErrGRPCTimeoutDueToConnectionLost''),
      (server_err ErrUnhealthy, ''ErrGRPCUnhealthy''),
      (server_err ErrKeyNotFound, ''ErrGRPCKeyNotFound''),
      (server_err ErrCorrupt, ''ErrGRPCCorrupt''),
      (server_err ErrBadLeaderTransferee, ''ErrGRPCBadLeaderTransferee''),
      (Sentinel ''lease.ErrLeaseNotFound'' ''lease not found'', ''ErrGRPCLeaseNotFound''),
      (Sentinel ''lease.ErrLeaseExists'' ''lease already exists'', ''ErrGRPCLeaseExist''),
      (Sentinel ''lease.ErrLeaseTTLTooLarge'' ''too large lease TTL'', ''ErrGRPCLeaseTTLTooLarge'')]"

text \<open>What a handler's error becomes on its way to the client: grpc sends a status as it is and the text of
  any other error under the code \<open>Unknown\<close>.\<close>

definition grpc_wire :: "status_ops \<Rightarrow> rpc_err \<Rightarrow> rpc_err" where
  "grpc_wire ops e = (case FromError ops e of Some (c, m) \<Rightarrow> StatusErr c m | None \<Rightarrow> StatusErr Unknown (err_Error ops e))"

text \<open>The errors of \<open>kvServer.Put\<close>.\<close>

definition put_err :: "rpc_error \<Rightarrow> rpc_err" where
  "put_err e =
     (case e of
        ErrGRPCEmptyKey \<Rightarrow> StatusErr InvalidArgument ''etcdserver: key is not provided''
      | ErrGRPCValueProvided \<Rightarrow> StatusErr InvalidArgument ''etcdserver: value is provided''
      | ErrGRPCLeaseProvided \<Rightarrow> StatusErr InvalidArgument ''etcdserver: lease is provided''
      | ErrServer x \<Rightarrow> server_err x)"

section \<open>Lookups in the table\<close>

lemma fold_update_append:
  assumes "distinct (map fst xs)" and "set (map fst xs) \<inter> set (map fst ys) = {}"
  shows "fold (\<lambda>(k, v). AList.update k v) xs ys = ys @ xs"
  using assms
proof (induction xs arbitrary: ys)
  case (Cons x xs)
  obtain k v where x: "x = (k, v)" by (cases x)
  have "map_of ys k = None" using Cons.prems(2) by (auto simp: x map_of_eq_None_iff)
  then have "AList.update k v ys = ys @ [(k, v)]" by (simp add: update_new_key)
  with Cons show ?case by (auto simp: x)
qed simp

lemma grpc_messages_distinct: "distinct (map (\<lambda>(n, c, m). m) grpc_errors)"
  by code_simp

lemma errStringToError_eq:
  assumes "status_package ops"
  shows "errStringToError ops = map (\<lambda>(n, c, m). (m, StatusErr c m)) grpc_errors"
proof -
  have desc: "ErrorDesc ops (StatusErr c m) = m" for c m using assms by (simp add: ErrorDesc_def status_package_def)
  let ?xs = "map (\<lambda>(n, c, m). (m, StatusErr c m)) grpc_errors"
  have "map fst ?xs = map (\<lambda>(n, c, m). m) grpc_errors" by auto
  then have "distinct (map fst ?xs)" using grpc_messages_distinct by (simp only:)
  then have "fold (\<lambda>(k, v). AList.update k v) ?xs [] = ?xs" by (subst fold_update_append) simp_all
  moreover have "errStringToError ops = fold (\<lambda>(k, v). AList.update k v) ?xs []"
    by (simp add: errStringToError_def fold_map comp_def case_prod_unfold desc)
  ultimately show ?thesis by simp
qed

lemma lookup_message:
  assumes "status_package ops"
  shows "map_of (errStringToError ops) d = Some e \<longleftrightarrow> (\<exists>n c. (n, c, d) \<in> set grpc_errors \<and> e = StatusErr c d)"
proof -
  have "distinct (map fst (errStringToError ops))"
    using grpc_messages_distinct by (simp add: errStringToError_eq [OF assms] comp_def case_prod_unfold)
  then show ?thesis by (force simp: map_of_eq_Some_iff errStringToError_eq [OF assms])
qed

lemma rpctypes_Error_unknown:
  assumes "status_package ops" and "ErrorDesc ops e \<notin> (\<lambda>(n, c, m). m) ` set grpc_errors"
  shows "rpctypes_Error ops (Some e) = Some e"
proof -
  have "map_of (errStringToError ops) (ErrorDesc ops e) = None"
  proof (rule ccontr)
    assume "map_of (errStringToError ops) (ErrorDesc ops e) \<noteq> None"
    then obtain n c where "(n, c, ErrorDesc ops e) \<in> set grpc_errors" using lookup_message [OF assms(1)] by blast
    from imageI [OF this, of "\<lambda>(n, c, m). m"] assms(2) show False by simp
  qed
  then show ?thesis by (simp add: rpctypes_Error_def)
qed

lemma rpctypes_Error_table:
  assumes "status_package ops" and "(n, c, m) \<in> set grpc_errors" and "ErrorDesc ops e = m"
  shows "rpctypes_Error ops (Some e) = Some (EtcdError c m)"
proof -
  have "map_of (errStringToError ops) (ErrorDesc ops e) = Some (StatusErr c m)"
    using assms lookup_message by blast
  with assms(1) show ?thesis by (simp add: rpctypes_Error_def status_package_def)
qed

section \<open>The errors of the server\<close>

text \<open>The entry of the table behind a variable of the package.\<close>

definition grpc_entry :: "string \<Rightarrow> (codes \<times> string) option" where
  "grpc_entry v =
     (case map_of grpc_errors v of Some e \<Rightarrow> Some e | None \<Rightarrow> Option.bind (map_of client_errors v) (map_of grpc_errors))"

lemma grpc_entry_in_table: "grpc_entry v = Some (c, m) \<Longrightarrow> \<exists>n. (n, c, m) \<in> set grpc_errors"
  by (auto simp: grpc_entry_def bind_eq_Some_conv split: option.splits dest: map_of_SomeD)

lemma ErrorDesc_simps:
  assumes "status_package ops"
  shows "ErrorDesc ops (StatusErr c m) = m" "ErrorDesc ops (EtcdError c m) = m" "ErrorDesc ops (Sentinel n t) = t"
    "ErrorDesc ops (grpc_wire ops e) = ErrorDesc ops e"
  using assms by (cases e; simp add: ErrorDesc_def grpc_wire_def status_package_def)+

lemma rpctypes_var_Error:
  assumes "status_package ops" and "grpc_entry v = Some (c, m)"
  shows "rpctypes_Error ops (rpctypes_var ops v) = Some (EtcdError c m)"
proof -
  obtain n where t: "(n, c, m) \<in> set grpc_errors" using grpc_entry_in_table [OF assms(2)] by blast
  note err = rpctypes_Error_table [OF assms(1) t]
  consider "rpctypes_var ops v = Some (StatusErr c m)" | "rpctypes_var ops v = rpctypes_Error ops (Some (StatusErr c m))"
    using assms(2) by (auto simp: grpc_entry_def rpctypes_var_def bind_eq_Some_conv split: option.splits)
  then show ?thesis by cases (simp_all add: err ErrorDesc_simps [OF assms(1)])
qed

text \<open>The text of a server error is the message of the grpc error that the map gives for it, except for
  \<open>ErrNoSpace\<close>.\<close>

definition text_agrees :: "server_error \<Rightarrow> bool" where
  "text_agrees x =
     (case server_err x of
        Sentinel n t \<Rightarrow>
          (case Option.bind (map_of toGRPCErrorMap (Sentinel n t)) grpc_entry of
             Some (c, m) \<Rightarrow> m = t \<and> c \<noteq> Unknown
           | None \<Rightarrow> False)
      | _ \<Rightarrow> False)"

lemma server_texts_agree:
  "list_all text_agrees
     [ErrStopped, ErrTimeout, ErrTimeoutDueToLeaderFail, ErrTimeoutDueToConnectionLost, ErrLeaderChanged,
      ErrNotEnoughStartedMembers, ErrLearnerNotReady, ErrNoLeader, ErrNotLeader, ErrRequestTooLarge, ErrTooManyRequests,
      ErrUnhealthy, ErrKeyNotFound, ErrCorrupt, ErrBadLeaderTransferee]"
  "\<not> text_agrees ErrNoSpace"
  by code_simp+

lemma text_agrees_classified:
  assumes "status_package ops" and "text_agrees x"
  obtains c d v where "c \<noteq> Unknown" "rpctypes_Error ops (Some (grpc_wire ops (server_err x))) = Some (EtcdError c d)"
    "map_of toGRPCErrorMap (server_err x) = Some v" "rpctypes_Error ops (rpctypes_var ops v) = Some (EtcdError c d)"
proof -
  from assms(2) obtain n t c v where x: "server_err x = Sentinel n t" "map_of toGRPCErrorMap (server_err x) = Some v"
    "grpc_entry v = Some (c, t)" "c \<noteq> Unknown"
    by (auto simp: text_agrees_def bind_eq_Some_conv split: rpc_err.splits option.splits)
  obtain k where "(k, c, t) \<in> set grpc_errors" using grpc_entry_in_table [OF x(3)] by blast
  from rpctypes_Error_table [OF assms(1) this, of "grpc_wire ops (server_err x)"]
  have "rpctypes_Error ops (Some (grpc_wire ops (server_err x))) = Some (EtcdError c t)"
    by (simp add: ErrorDesc_simps [OF assms(1)] x(1))
  with x rpctypes_var_Error [OF assms(1) x(3)] show thesis by (intro that)
qed

lemma request_begin_errors:
  "request_begin now r s = Some (Inl x, s') \<Longrightarrow> x = ErrTooManyRequests \<or> x = ErrRequestTooLarge"
  by (auto simp: request_begin_def Let_def bind_eq_Some_conv split: if_splits prod.splits)

lemma Put_begin_errors:
  assumes "kvServer_Put_begin now r s = Some (Inl e, s')"
  shows "e \<in> {ErrGRPCEmptyKey, ErrGRPCValueProvided, ErrGRPCLeaseProvided} \<or>
    (\<exists>x. e = ErrServer x \<and> (x = ErrTooManyRequests \<or> x = ErrRequestTooLarge))"
proof (cases "checkPutRequest r")
  case None
  with assms obtain y where y: "request_begin now (InternalRaftRequest_zero\<lparr>ir_Put := Some r\<rparr>) s = Some (y, s')"
    "(case y of Inl e \<Rightarrow> Inl (ErrServer e) | Inr p \<Rightarrow> Inr p) = Inl e"
    by (auto simp: kvServer_Put_begin_def Put_begin_def bind_eq_Some_conv)
  then show ?thesis by (cases y) (auto dest: request_begin_errors)
next
  case (Some e')
  with assms show ?thesis by (auto simp: kvServer_Put_begin_def checkPutRequest_def split: if_splits)
qed

lemma Some_eq_bind: "Some y = Option.bind m f \<longleftrightarrow> (\<exists>x. m = Some x \<and> f x = Some y)"
  by (cases m) auto

lemma select_errors:
  assumes "Some (Inl x, s') \<in> set (request_select p ctx s)" and "x \<noteq> ErrCanceled" and "\<forall>t. x \<noteq> ErrContext t"
  shows "x \<in> {ErrTimeout, ErrTimeoutDueToLeaderFail, ErrStopped}"
  using assms
  by (auto simp: request_select_def parseProposeCtxErr_def Let_def Some_eq_bind split: if_splits option.splits ctx_error.splits)

section \<open>Properties\<close>

text \<open>Clients can tell the server's errors apart. Applied to a server-side error, \<open>Error\<close> gives an error with
  the same code and message; different errors stay different, since no two of them share a message;
  applied again it changes nothing, so classifying an error twice is harmless; and an error it does
  not know, or nil, is left as it is.\<close>

lemma client_error_classification:
  assumes "status_package ops"
  shows "rpctypes_Error ops None = None \<and>
    (\<forall>n c m. (n, c, m) \<in> set grpc_errors \<longrightarrow> rpctypes_Error ops (Some (StatusErr c m)) = Some (EtcdError c m)) \<and>
    inj_on (\<lambda>(n, c, m). rpctypes_Error ops (Some (StatusErr c m))) (set grpc_errors) \<and>
    (\<forall>err. rpctypes_Error ops (rpctypes_Error ops err) = rpctypes_Error ops err) \<and>
    (\<forall>e. ErrorDesc ops e \<notin> (\<lambda>(n, c, m). m) ` set grpc_errors \<longrightarrow> rpctypes_Error ops (Some e) = Some e)"
proof -
  have table: "rpctypes_Error ops (Some (StatusErr c m)) = Some (EtcdError c m)" if "(n, c, m) \<in> set grpc_errors" for n c m
    using assms that by (intro rpctypes_Error_table) (auto simp: ErrorDesc_def status_package_def)
  have inj: "inj_on (\<lambda>(n, c, m). m) (set grpc_errors)"
    using grpc_messages_distinct by (simp add: distinct_map)
  have "inj_on (\<lambda>(n, c, m). rpctypes_Error ops (Some (StatusErr c m))) (set grpc_errors)"
  proof (rule inj_onI)
    fix x y
    assume in_tab: "x \<in> set grpc_errors" "y \<in> set grpc_errors"
      and eq: "(case x of (n, c, m) \<Rightarrow> rpctypes_Error ops (Some (StatusErr c m))) =
        (case y of (n, c, m) \<Rightarrow> rpctypes_Error ops (Some (StatusErr c m)))"
    obtain n c m n' c' m' where xy: "x = (n, c, m)" "y = (n', c', m')" by (cases x, cases y)
    with eq in_tab have "m = m'" by (simp add: table)
    then show "x = y" using inj_onD [OF inj, of x y] in_tab by (simp add: xy)
  qed
  moreover have unknown: "rpctypes_Error ops (Some e) = Some e" if "ErrorDesc ops e \<notin> (\<lambda>(n, c, m). m) ` set grpc_errors" for e
    by (rule rpctypes_Error_unknown [OF assms that])
  moreover have "rpctypes_Error ops (rpctypes_Error ops err) = rpctypes_Error ops err" for err
  proof (cases err)
    case (Some e)
    show ?thesis
    proof (cases "ErrorDesc ops e \<in> (\<lambda>(n, c, m). m) ` set grpc_errors")
      case True
      then obtain n c where t: "(n, c, ErrorDesc ops e) \<in> set grpc_errors" by auto
      have "ErrorDesc ops (EtcdError c (ErrorDesc ops e)) = ErrorDesc ops e"
        using assms by (simp add: ErrorDesc_def [of ops "EtcdError _ _"] status_package_def)
      with Some show ?thesis by (simp add: rpctypes_Error_table [OF assms t])
    next
      case False
      with Some unknown show ?thesis by simp
    qed
  qed (simp add: rpctypes_Error_def)
  ultimately show ?thesis using table by (auto simp: rpctypes_Error_def [of ops None])
qed


text \<open>A status package for examples.\<close>

definition example_status :: status_ops where
  "example_status = \<lparr>FromError = (\<lambda>e. case e of StatusErr c m \<Rightarrow> Some (c, m) | _ \<Rightarrow> None), StatusString = (\<lambda>c m. ''rpc error: desc = '' @ m)\<rparr>"

lemma example_status_package: "status_package example_status"
  by (simp add: status_package_def example_status_def)


end
