(* ===== verification/Flags.thy ===== *)
theory Flags
  imports Urls
begin

text \<open>
  \<open>pkg/flags\<close>: the flag values with restricted or repeated strings, and the reading of flags from the
  environment. A Go map used as a set of strings is the list of its keys. A flag set is the list of
  its defined flags with their values in the order \<open>VisitAll\<close> uses, and the names set so far.
\<close>

section \<open>Flag values\<close>

record SelectiveStringValue =
  ssv_v :: string
  ssv_valids :: "string list"

definition SelectiveString_Set :: "string \<Rightarrow> SelectiveStringValue \<Rightarrow> bool \<times> SelectiveStringValue" where
  "SelectiveString_Set s ss = (if s \<in> set (ssv_valids ss) then (True, ss\<lparr>ssv_v := s\<rparr>) else (False, ss))"

text \<open>\<open>valids[0]\<close> panics without a valid value.\<close>

definition NewSelectiveStringValue :: "string list \<Rightarrow> SelectiveStringValue option" where
  "NewSelectiveStringValue valids =
     do { v \<leftarrow> go_index valids 0;
          Some \<lparr>ssv_v = v, ssv_valids = fold List.insert valids []\<rparr> }"

definition SelectiveString_Valids :: "SelectiveStringValue \<Rightarrow> string list" where
  "SelectiveString_Valids ss = sort (ssv_valids ss)"

type_synonym StringsValue = "string list"

definition Strings_Set :: "string \<Rightarrow> StringsValue" where
  "Strings_Set s = split_on (CHR '','') s"

definition Strings_String :: "StringsValue \<Rightarrow> string" where
  "Strings_String ss = join '','' ss"

definition NewStringsValue :: "string \<Rightarrow> StringsValue" where
  "NewStringsValue s = (if s = [] then [] else Strings_Set s)"

type_synonym UniqueStringsValue = "string list"

definition UniqueStrings_Set :: "string \<Rightarrow> UniqueStringsValue" where
  "UniqueStrings_Set s = fold List.insert (split_on (CHR '','') s) []"

definition UniqueStrings_stringSlice :: "UniqueStringsValue \<Rightarrow> string list" where
  "UniqueStrings_stringSlice us = sort us"

definition UniqueStrings_String :: "UniqueStringsValue \<Rightarrow> string" where
  "UniqueStrings_String us = join '','' (UniqueStrings_stringSlice us)"

definition NewUniqueStringsValue :: "string \<Rightarrow> UniqueStringsValue" where
  "NewUniqueStringsValue s = (if s = [] then [] else UniqueStrings_Set s)"

record 'u UniqueURLs =
  uu_Values :: "string list"
  uu_uss :: "'u list"
  uu_Allowed :: "string list"

definition UniqueURLs_Set :: "'u url_ops \<Rightarrow> string \<Rightarrow> 'u UniqueURLs \<Rightarrow> url_error option \<times> 'u UniqueURLs" where
  "UniqueURLs_Set ops s us =
     (if s \<in> set (uu_Values us) then (None, us)
      else if s \<in> set (uu_Allowed us) then (None, us\<lparr>uu_Values := List.insert s (uu_Values us)\<rparr>)
      else case NewURLs ops (split_on (CHR '','') s) of
        Inl e \<Rightarrow> (Some e, us)
      | Inr ss \<Rightarrow> (None, us\<lparr>uu_Values := fold (\<lambda>v. List.insert (url_String ops v)) ss [], uu_uss := ss\<rparr>))"

definition UniqueURLs_String :: "'u UniqueURLs \<Rightarrow> string" where
  "UniqueURLs_String us = join '','' (sort (uu_Values us))"

text \<open>\<open>plog.Panicf\<close> when the default value is not accepted.\<close>

definition NewUniqueURLsWithExceptions :: "'u url_ops \<Rightarrow> string \<Rightarrow> string list \<Rightarrow> 'u UniqueURLs option" where
  "NewUniqueURLsWithExceptions ops s exceptions =
     (let us = \<lparr>uu_Values = [], uu_uss = [], uu_Allowed = fold List.insert exceptions []\<rparr> in
      if s = [] then Some us
      else case UniqueURLs_Set ops s us of (None, us') \<Rightarrow> Some us' | (Some e, _) \<Rightarrow> None)"

section \<open>Typed flags\<close>

text \<open>The flags the program defines, by the type of their value. The number parsers of \<open>strconv\<close> and
  \<open>time.ParseDuration\<close> are arguments that give the value they return next to the error: the \<open>Set\<close> methods
  of package \<open>flag\<close> assign it also when there is an error. \<open>ParseBool\<close> is written out.\<close>

datatype 'u flag_value =
    FBool bool | FString string | FUint u64 | FInt int | FDuration int
  | FSelective SelectiveStringValue | FURLs "'u UniqueURLs" | FStrings StringsValue | FUnique UniqueStringsValue

record num_parsers =
  ParseUint :: "string \<Rightarrow> u64 \<times> string option"
  ParseInt :: "string \<Rightarrow> int \<times> string option"
  ParseDuration :: "string \<Rightarrow> int \<times> string option"

datatype flag_error = BadValue string | BadURL url_error | BadChoice string

definition ParseBool :: "string \<Rightarrow> bool \<times> string option" where
  "ParseBool s =
     (if s \<in> {''1'', ''t'', ''T'', ''TRUE'', ''true'', ''True''} then (True, None)
      else if s \<in> {''0'', ''f'', ''F'', ''FALSE'', ''false'', ''False''} then (False, None)
      else (False, Some ''parse error''))"

definition assigned :: "('a \<Rightarrow> 'u flag_value) \<Rightarrow> 'a \<times> string option \<Rightarrow> flag_error option \<times> 'u flag_value" where
  "assigned c r = (map_option BadValue (snd r), c (fst r))"

fun value_Set :: "'u url_ops \<Rightarrow> num_parsers \<Rightarrow> string \<Rightarrow> 'u flag_value \<Rightarrow> flag_error option \<times> 'u flag_value" where
  "value_Set ops P s (FBool b) = assigned FBool (ParseBool s)"
| "value_Set ops P s (FString t) = (None, FString s)"
| "value_Set ops P s (FUint n) = assigned FUint (ParseUint P s)"
| "value_Set ops P s (FInt n) = assigned FInt (ParseInt P s)"
| "value_Set ops P s (FDuration n) = assigned FDuration (ParseDuration P s)"
| "value_Set ops P s (FSelective ss) =
     (let (ok, ss') = SelectiveString_Set s ss in (if ok then None else Some (BadChoice s), FSelective ss'))"
| "value_Set ops P s (FURLs us) = (let (err, us') = UniqueURLs_Set ops s us in (map_option BadURL err, FURLs us'))"
| "value_Set ops P s (FStrings ss) = (None, FStrings (Strings_Set s))"
| "value_Set ops P s (FUnique ss) = (None, FUnique (UniqueStrings_Set s))"

datatype flag_kind = KBool | KString | KUint | KInt | KDuration | KSelective | KURLs | KStrings | KUnique

fun kind :: "'u flag_value \<Rightarrow> flag_kind" where
  "kind (FBool _) = KBool"
| "kind (FString _) = KString"
| "kind (FUint _) = KUint"
| "kind (FInt _) = KInt"
| "kind (FDuration _) = KDuration"
| "kind (FSelective _) = KSelective"
| "kind (FURLs _) = KURLs"
| "kind (FStrings _) = KStrings"
| "kind (FUnique _) = KUnique"

text \<open>The type assertions on the value of a flag panic for another type, and for an undefined flag.\<close>

definition UniqueURLsFromFlag :: "(string \<times> 'u flag_value) list \<Rightarrow> string \<Rightarrow> 'u URLs option" where
  "UniqueURLsFromFlag fs name = (case map_of fs name of Some (FURLs us) \<Rightarrow> Some (uu_uss us) | _ \<Rightarrow> None)"

definition UniqueURLsMapFromFlag :: "(string \<times> 'u flag_value) list \<Rightarrow> string \<Rightarrow> string list option" where
  "UniqueURLsMapFromFlag fs name = (case map_of fs name of Some (FURLs us) \<Rightarrow> Some (uu_Values us) | _ \<Rightarrow> None)"

definition UniqueStringsFromFlag :: "(string \<times> 'u flag_value) list \<Rightarrow> string \<Rightarrow> string list option" where
  "UniqueStringsFromFlag fs name = (case map_of fs name of Some (FUnique us) \<Rightarrow> Some (UniqueStrings_stringSlice us) | _ \<Rightarrow> None)"

definition UniqueStringsMapFromFlag :: "(string \<times> 'u flag_value) list \<Rightarrow> string \<Rightarrow> string list option" where
  "UniqueStringsMapFromFlag fs name = (case map_of fs name of Some (FUnique us) \<Rightarrow> Some us | _ \<Rightarrow> None)"

definition StringsFromFlag :: "(string \<times> 'u flag_value) list \<Rightarrow> string \<Rightarrow> string list option" where
  "StringsFromFlag fs name = (case map_of fs name of Some (FStrings ss) \<Rightarrow> Some ss | _ \<Rightarrow> None)"

section \<open>Flags from the environment\<close>

definition FlagToEnv :: "string \<Rightarrow> string \<Rightarrow> string" where
  "FlagToEnv pre name = pre @ ''_'' @ ToUpper (replace_byte (CHR ''-'') (CHR ''_'') name)"

record 'v flagSet =
  fs_formal :: "(string \<times> 'v) list"
  fs_actual :: "string list"

text \<open>The \<open>Set\<close> methods of the values: the error, if any, and the value they leave. \<open>FlagSet.Set\<close> fails for an
  undefined flag, without an error of a value, and marks a flag as set only when \<open>Set\<close> succeeds.\<close>

type_synonym ('e, 'v) value_set = "string \<Rightarrow> string \<Rightarrow> 'v \<Rightarrow> 'e option \<times> 'v"

definition fs_Set :: "('e, 'v) value_set \<Rightarrow> string \<Rightarrow> string \<Rightarrow> 'v flagSet \<Rightarrow> 'e option option \<times> 'v flagSet" where
  "fs_Set vset name v fs =
     (case map_of (fs_formal fs) name of
        None \<Rightarrow> (Some None, fs)
      | Some old \<Rightarrow>
          (case vset name v old of
             (Some e, new) \<Rightarrow> (Some (Some e), fs\<lparr>fs_formal := AList.update name new (fs_formal fs)\<rparr>)
           | (None, new) \<Rightarrow> (None, fs\<lparr>fs_formal := AList.update name new (fs_formal fs),
                                   fs_actual := List.insert name (fs_actual fs)\<rparr>)))"

text \<open>\<open>os.Getenv\<close>: the first entry for the key; a missing one reads as empty.\<close>

fun Getenv :: "string list \<Rightarrow> string \<Rightarrow> string" where
  "Getenv [] key = []"
| "Getenv (e # es) key =
     (case cut_at (CHR ''='') e of Some (k, v) \<Rightarrow> if k = key then v else Getenv es key | None \<Rightarrow> Getenv es key)"

datatype 'e env_error = InvalidValue string string "'e option"

definition setFlagFromEnv ::
  "('e, 'v) value_set \<Rightarrow> string list \<Rightarrow> string \<Rightarrow> string \<Rightarrow> string list \<Rightarrow> string list \<times> 'v flagSet \<Rightarrow>
   'e env_error option \<times> string list \<times> 'v flagSet" where
  "setFlagFromEnv vset env pre fname alreadySet = (\<lambda>(used, fs).
     let key = FlagToEnv pre fname in
     if key \<notin> set alreadySet then
       let val = Getenv env key in
       if val \<noteq> [] then
         let used = List.insert key used in
         case fs_Set vset fname val fs of
           (Some e, fs') \<Rightarrow> (Some (InvalidValue val key e), used, fs')
         | (None, fs') \<Rightarrow> (None, used, fs')
       else (None, used, fs)
     else (None, used, fs))"

text \<open>\<open>verifyEnv\<close>: \<open>plog.Fatalf\<close> ends the process; \<open>strings.SplitN\<close> always yields a first part. The
  result says whether the process goes on.\<close>

definition env_key :: "string \<Rightarrow> string" where
  "env_key e = (case cut_at (CHR ''='') e of Some (k, v) \<Rightarrow> k | None \<Rightarrow> e)"

fun verifyEnv :: "string list \<Rightarrow> string list \<Rightarrow> string list \<Rightarrow> bool" where
  "verifyEnv [] used alreadySet = True"
| "verifyEnv (e # es) used alreadySet =
     (if env_key e \<in> set used then verifyEnv es used alreadySet
      else if env_key e \<in> set alreadySet then False
      else verifyEnv es used alreadySet)"

fun visit_all ::
  "('e, 'v) value_set \<Rightarrow> string list \<Rightarrow> string \<Rightarrow> string list \<Rightarrow> string list \<Rightarrow>
   'e env_error option \<times> string list \<times> 'v flagSet \<Rightarrow> 'e env_error option \<times> string list \<times> 'v flagSet" where
  "visit_all vset env pre alreadySet [] st = st"
| "visit_all vset env pre alreadySet (f # fs) (err, st) =
     (case setFlagFromEnv vset env pre f alreadySet st of
        (Some e, st') \<Rightarrow> visit_all vset env pre alreadySet fs (Some e, st')
      | (None, st') \<Rightarrow> visit_all vset env pre alreadySet fs (err, st'))"

definition SetFlagsFromEnv ::
  "('e, 'v) value_set \<Rightarrow> string list \<Rightarrow> string \<Rightarrow> 'v flagSet \<Rightarrow> ('e env_error option \<times> 'v flagSet) option" where
  "SetFlagsFromEnv vset env pre fs =
     (let alreadySet = fold (\<lambda>n. List.insert (FlagToEnv pre n)) (fs_actual fs) [];
          (err, used, fs') = visit_all vset env pre alreadySet (map fst (fs_formal fs)) (None, [], fs)
      in if verifyEnv env used alreadySet then Some (err, fs') else None)"

section \<open>Lemmas\<close>

lemma set_fold_insert [simp]: "set (fold List.insert xs ys) = set xs \<union> set ys"
  by (induction xs arbitrary: ys) auto

lemma set_fold_insert_map [simp]: "set (fold (\<lambda>x. List.insert (f x)) xs ys) = f ` set xs \<union> set ys"
  by (induction xs arbitrary: ys) auto

lemma distinct_fold_insert: "distinct ys \<Longrightarrow> distinct (fold List.insert xs ys)"
  by (induction xs arbitrary: ys) auto

lemma verifyEnv_iff:
  "verifyEnv es used alreadySet \<longleftrightarrow> (\<forall>e \<in> set es. env_key e \<in> set alreadySet \<longrightarrow> env_key e \<in> set used)"
  by (induction es) auto

text \<open>The value a flag has after the environment was read.\<close>

definition env_value :: "('e, 'v) value_set \<Rightarrow> string list \<Rightarrow> string \<Rightarrow> string list \<Rightarrow> string \<Rightarrow> 'v \<Rightarrow> 'v" where
  "env_value vset env pre alreadySet name old =
     (let val = Getenv env (FlagToEnv pre name)
      in if FlagToEnv pre name \<notin> set alreadySet \<and> val \<noteq> [] then snd (vset name val old) else old)"

lemma setFlagFromEnv_result:
  assumes "setFlagFromEnv vset env pre f alreadySet (used, fs) = (err, used', fs')"
    and "map_of (fs_formal fs) f = Some old"
  shows "map_of (fs_formal fs') = (map_of (fs_formal fs))(f \<mapsto> env_value vset env pre alreadySet f old) \<and>
    (set used' \<subseteq> set used \<union> - set alreadySet)"
proof -
  obtain e new where v: "vset f (Getenv env (FlagToEnv pre f)) old = (e, new)"
    by (cases "vset f (Getenv env (FlagToEnv pre f)) old")
  show ?thesis
    using assms v
    by (cases e) (auto simp: setFlagFromEnv_def fs_Set_def env_value_def Let_def update_conv' fun_upd_idem split: if_splits)
qed

lemma visit_all_result:
  assumes "visit_all vset env pre alreadySet names (err, used, fs) = (err', used', fs')"
    and "distinct names" and "set names \<subseteq> dom (map_of (fs_formal fs))"
  shows "(\<forall>n. map_of (fs_formal fs') n =
      (if n \<in> set names then map_option (env_value vset env pre alreadySet n) (map_of (fs_formal fs) n)
       else map_of (fs_formal fs) n)) \<and>
    set used' \<subseteq> set used \<union> - set alreadySet"
  using assms
proof (induction names arbitrary: err used fs)
  case Nil
  then show ?case by simp
next
  case (Cons f names)
  obtain old where old: "map_of (fs_formal fs) f = Some old" using Cons.prems(3) by auto
  obtain e u g where s: "setFlagFromEnv vset env pre f alreadySet (used, fs) = (e, u, g)"
    by (metis prod_cases3)
  note r = setFlagFromEnv_result [OF s old]
  from Cons.prems(1) s obtain err1 where v: "visit_all vset env pre alreadySet names (err1, u, g) = (err', used', fs')"
    by (auto split: option.splits)
  have "set names \<subseteq> dom (map_of (fs_formal g))" using Cons.prems(3) r by auto
  from Cons.IH [OF v _ this] Cons.prems(2) r old show ?case by auto
qed

text \<open>\<open>Set\<close> never changes the type of a flag's value.\<close>

lemma kind_value_Set: "kind (snd (value_Set ops P s v)) = kind v"
  by (cases v) (auto simp: assigned_def Let_def split: prod.splits)

definition kinds :: "(string \<times> 'u flag_value) list \<Rightarrow> string \<Rightarrow> flag_kind option" where
  "kinds fs n = map_option kind (map_of fs n)"

lemma kinds_fs_Set: "kinds (fs_formal (snd (fs_Set (\<lambda>n. value_Set ops P) name v fs))) = kinds (fs_formal fs)"
proof (cases "map_of (fs_formal fs) name")
  case None
  then show ?thesis by (simp add: fs_Set_def)
next
  case (Some old)
  obtain e new where r: "value_Set ops P v old = (e, new)" by (cases "value_Set ops P v old")
  have "kind new = kind old" using kind_value_Set [of ops P v old] r by simp
  with Some r show ?thesis by (cases e) (auto simp: fs_Set_def kinds_def update_conv' fun_eq_iff)
qed

lemma kinds_setFlagFromEnv:
  "kinds (fs_formal (snd (snd (setFlagFromEnv (\<lambda>n. value_Set ops P) env pre f already (used, fs))))) = kinds (fs_formal fs)"
proof -
  obtain e fs' where "fs_Set (\<lambda>n. value_Set ops P) f (Getenv env (FlagToEnv pre f)) fs = (e, fs')"
    by (cases "fs_Set (\<lambda>n. value_Set ops P) f (Getenv env (FlagToEnv pre f)) fs")
  moreover have "kinds (fs_formal fs') = kinds (fs_formal fs)"
    using kinds_fs_Set [of ops P f "Getenv env (FlagToEnv pre f)" fs] calculation by simp
  ultimately show ?thesis by (cases e) (simp_all add: setFlagFromEnv_def Let_def)
qed

lemma kinds_visit_all:
  "kinds (fs_formal (snd (snd (visit_all (\<lambda>n. value_Set ops P) env pre already names (err, used, fs))))) = kinds (fs_formal fs)"
proof (induction names arbitrary: err used fs)
  case (Cons f names)
  obtain e u g where r: "setFlagFromEnv (\<lambda>n. value_Set ops P) env pre f already (used, fs) = (e, u, g)" by (metis prod_cases3)
  have "kinds (fs_formal g) = kinds (fs_formal fs)"
    using kinds_setFlagFromEnv [of ops P env pre f already used fs] by (simp add: r)
  then show ?case by (cases e) (simp_all add: r Cons.IH)
qed simp

lemma kinds_SetFlagsFromEnv:
  assumes "SetFlagsFromEnv (\<lambda>n. value_Set ops P) env pre fs = Some (err, fs')"
  shows "kinds (fs_formal fs') = kinds (fs_formal fs)"
proof -
  let ?al = "fold (\<lambda>n. List.insert (FlagToEnv pre n)) (fs_actual fs) []"
  have "fs' = snd (snd (visit_all (\<lambda>n. value_Set ops P) env pre ?al (map fst (fs_formal fs)) (None, [], fs)))"
    using assms by (auto simp: SetFlagsFromEnv_def Let_def split: prod.splits if_splits)
  then show ?thesis by (simp add: kinds_visit_all)
qed

text \<open>Round trips of the list values: every value a flag can hold prints as a text that sets the same
  value.\<close>

lemma Strings_round_trip: "Strings_String (Strings_Set s) = s"
  by (simp add: Strings_String_def Strings_Set_def)

lemma UniqueStrings_round_trip:
  assumes "us = UniqueStrings_Set s"
  shows "set (UniqueStrings_Set (UniqueStrings_String us)) = set us"
proof -
  have set: "set us = set (split_on (CHR '','') s)" by (simp add: assms UniqueStrings_Set_def)
  then have "sort us \<noteq> []" by (metis set_empty set_sort split_on_ne)
  moreover have "\<forall>u \<in> set (sort us). CHR '','' \<notin> set u" using set by (auto dest: split_on_free)
  ultimately show ?thesis
    by (simp add: UniqueStrings_String_def UniqueStrings_stringSlice_def UniqueStrings_Set_def split_on_join)
qed

section \<open>Properties\<close>

text \<open>C34: The command line has precedence over the environment: reading the environment never changes a
  flag set on the command line, sets every other flag whose variable is not empty to what its \<open>Set\<close>
  makes of it, leaves the rest alone, and ends the process exactly when the environment has a variable for
  a flag of the command line.\<close>

theorem flags_precedence:
  assumes "distinct (map fst (fs_formal fs))"
  shows "case SetFlagsFromEnv vset env pre fs of
      None \<Rightarrow> \<exists>e \<in> set env. \<exists>n \<in> set (fs_actual fs). env_key e = FlagToEnv pre n
    | Some (err, fs') \<Rightarrow>
        (\<forall>e \<in> set env. \<forall>n \<in> set (fs_actual fs). env_key e \<noteq> FlagToEnv pre n) \<and>
        (\<forall>n. map_of (fs_formal fs') n =
           (case map_of (fs_formal fs) n of
              None \<Rightarrow> None
            | Some v \<Rightarrow>
                let val = Getenv env (FlagToEnv pre n) in
                Some (if FlagToEnv pre n \<notin> FlagToEnv pre ` set (fs_actual fs) \<and> val \<noteq> []
                      then snd (vset n val v) else v)))"
proof -
  define al where "al = fold (\<lambda>n. List.insert (FlagToEnv pre n)) (fs_actual fs) []"
  have al: "set al = FlagToEnv pre ` set (fs_actual fs)" by (simp add: al_def)
  obtain err used fs' where v: "visit_all vset env pre al (map fst (fs_formal fs)) (None, [], fs) = (err, used, fs')"
    by (metis prod_cases3)
  have r: "\<And>n. map_of (fs_formal fs') n =
      (if n \<in> set (map fst (fs_formal fs)) then map_option (env_value vset env pre al n) (map_of (fs_formal fs) n)
       else map_of (fs_formal fs) n)" "set used \<subseteq> - set al"
    using visit_all_result [OF v assms] by (auto simp: dom_map_of_conv_image_fst)
  have "map_of (fs_formal fs) n = None" if "n \<notin> set (map fst (fs_formal fs))" for n
    using that by (simp add: map_of_eq_None_iff)
  then have vals: "map_of (fs_formal fs') n =
      map_option (env_value vset env pre al n) (map_of (fs_formal fs) n)" for n
    using r(1) by auto
  have ver: "verifyEnv env used al \<longleftrightarrow> (\<forall>e \<in> set env. \<forall>n \<in> set (fs_actual fs). env_key e \<noteq> FlagToEnv pre n)"
    using r(2) by (auto simp: verifyEnv_iff al)
  show ?thesis
    using ver by (auto simp: SetFlagsFromEnv_def v vals env_value_def al Let_def simp flip: al_def split: option.splits)
qed

theorem flags_precedence_witness:
  "case SetFlagsFromEnv (\<lambda>n v old. (None :: unit option, v)) [''ETCD_NAME=b'', ''ETCD_DATA_DIR=d''] ''ETCD''
      \<lparr>fs_formal = [(''data-dir'', ''x''), (''name'', ''a''), (''wal-dir'', ''w'')], fs_actual = [''wal-dir'']\<rparr> of
     None \<Rightarrow> False
   | Some (err, fs') \<Rightarrow> map_of (fs_formal fs') ''data-dir'' = Some ''d'' \<and>
       map_of (fs_formal fs') ''name'' = Some ''b'' \<and> map_of (fs_formal fs') ''wal-dir'' = Some ''w''"
proof -
  have env: "Getenv [''ETCD_NAME=b'', ''ETCD_DATA_DIR=d''] (FlagToEnv ''ETCD'' ''name'') = ''b''"
    "Getenv [''ETCD_NAME=b'', ''ETCD_DATA_DIR=d''] (FlagToEnv ''ETCD'' ''data-dir'') = ''d''"
    "FlagToEnv ''ETCD'' ''wal-dir'' = ''ETCD_WAL_DIR''" "FlagToEnv ''ETCD'' ''name'' = ''ETCD_NAME''"
    "FlagToEnv ''ETCD'' ''data-dir'' = ''ETCD_DATA_DIR''"
    "env_key ''ETCD_NAME=b'' = ''ETCD_NAME''" "env_key ''ETCD_DATA_DIR=d'' = ''ETCD_DATA_DIR''"
    by code_simp+
  show ?thesis
    using flags_precedence [where vset = "\<lambda>n v old. (None :: unit option, v)" and env = "[''ETCD_NAME=b'', ''ETCD_DATA_DIR=d'']"
        and pre = "''ETCD''" and fs = "\<lparr>fs_formal = [(''data-dir'', ''x''), (''name'', ''a''), (''wal-dir'', ''w'')],
        fs_actual = [''wal-dir'']\<rparr>"]
    using env by (auto simp: Let_def split: option.splits)
qed

end
