(* ===== verification/Net_Transport.thy ===== *)
theory Net_Transport
  imports Wal_Files Backend_Tx
begin

text \<open>
  \<open>pkg/transport\<close> with \<open>pkg/tlsutil\<close> and \<open>pkg/httputil\<close>: TLS settings, self-signed certificates, the listeners and
  their wrappers, connections with deadlines, and the HTTP transports built on them.

  The certificates and keys of package \<open>crypto\<close> are an argument type with the operations of the record
  \<open>cert_ops\<close>, whose results the code only passes on. The operating system decides in \<open>listen_error\<close> whether an
  address can be bound; the sockets bound so far are part of the state \<open>world\<close>, next to the file system.
  A listener is the socket under the wrappers put around it.
\<close>

section \<open>TLS settings\<close>

record TLSInfo =
  ti_CertFile :: string
  ti_KeyFile :: string
  ti_TrustedCAFile :: string
  ti_ClientCertAuth :: bool
  ti_CRLFile :: string
  ti_InsecureSkipVerify :: bool
  ti_ServerName :: string
  ti_CipherSuites :: "16 word list"
  ti_selfCert :: bool
  ti_parseFunc :: "(bytes \<Rightarrow> bytes \<Rightarrow> string option) option"
  ti_AllowedCN :: string
  ti_AllowedHostname :: string
  ti_Logger :: bool
  ti_EmptyCN :: bool

definition TLSInfo_zero :: TLSInfo where
  "TLSInfo_zero = \<lparr>ti_CertFile = [], ti_KeyFile = [], ti_TrustedCAFile = [], ti_ClientCertAuth = False, ti_CRLFile = [],
     ti_InsecureSkipVerify = False, ti_ServerName = [], ti_CipherSuites = [], ti_selfCert = False, ti_parseFunc = None,
     ti_AllowedCN = [], ti_AllowedHostname = [], ti_Logger = False, ti_EmptyCN = False\<rparr>"

definition TLSInfo_Empty :: "TLSInfo \<Rightarrow> bool" where
  "TLSInfo_Empty info \<longleftrightarrow> ti_CertFile info = [] \<and> ti_KeyFile info = []"

definition format_bool :: "bool \<Rightarrow> string" where
  "format_bool b = (if b then ''true'' else ''false'')"

definition TLSInfo_String :: "TLSInfo \<Rightarrow> string" where
  "TLSInfo_String info =
     ''cert = '' @ ti_CertFile info @ '', key = '' @ ti_KeyFile info @ '', trusted-ca = '' @ ti_TrustedCAFile info @
     '', client-cert-auth = '' @ format_bool (ti_ClientCertAuth info) @ '', crl-file = '' @ ti_CRLFile info"

definition cafiles :: "TLSInfo \<Rightarrow> string list" where
  "cafiles info = (if ti_TrustedCAFile info \<noteq> [] then [ti_TrustedCAFile info] else [])"

record ('c, 'k) cert_ops =
  X509KeyPair :: "bytes \<Rightarrow> bytes \<Rightarrow> string option"
  CommonName :: "'c \<Rightarrow> string"
  VerifyHostname :: "'c \<Rightarrow> string \<Rightarrow> bool"
  rand_Int :: "string + nat"
  GenerateKey :: "string + 'k"
  CreateCertificate :: "nat \<Rightarrow> nat list \<Rightarrow> string list \<Rightarrow> string list \<Rightarrow> 'k \<Rightarrow> string + bytes"
  MarshalECPrivateKey :: "'k \<Rightarrow> string + bytes"
  pem_Encode :: "string \<Rightarrow> bytes \<Rightarrow> bytes"
  host_of :: "string \<Rightarrow> string"
  is_IP :: "string \<Rightarrow> bool"

datatype tls_error =
    TlsOs os_error | TlsCrypto string | ErrCertAndKey string string | ErrExclusive string string

definition ReadFile :: "string \<Rightarrow> fsys \<Rightarrow> os_error + bytes" where
  "ReadFile f s =
     (if is_dir (locate f) s then Inl os_IsDir
      else case map_of (fs_nodes s) (locate f) of
        Some (FileNode b) \<Rightarrow> Inr b
      | _ \<Rightarrow> Inl os_ErrNotExist)"

definition NewCert ::
  "('c, 'k) cert_ops \<Rightarrow> string \<Rightarrow> string \<Rightarrow> (bytes \<Rightarrow> bytes \<Rightarrow> string option) option \<Rightarrow> fsys \<Rightarrow> tls_error option" where
  "NewCert ops certfile keyfile parseFunc s =
     (case ReadFile certfile s of
        Inl e \<Rightarrow> Some (TlsOs e)
      | Inr cert \<Rightarrow>
          (case ReadFile keyfile s of
             Inl e \<Rightarrow> Some (TlsOs e)
           | Inr key \<Rightarrow>
               map_option TlsCrypto
                 ((case parseFunc of None \<Rightarrow> X509KeyPair ops | Some parse \<Rightarrow> parse) cert key)))"

text \<open>The fields of \<open>tls.Config\<close> the code sets; the callback of \<open>VerifyPeerCertificate\<close> takes the verified chains.\<close>

record 'c tls_Config =
  tc_MinVersion :: nat
  tc_ServerName :: string
  tc_CipherSuites :: "16 word list"
  tc_VerifyPeerCertificate :: "('c list list \<Rightarrow> bool) option"
  tc_InsecureSkipVerify :: bool

fun verify_chains :: "('c \<Rightarrow> bool) \<Rightarrow> 'c list list \<Rightarrow> bool" where
  "verify_chains verifyCertificate [] = False"
| "verify_chains verifyCertificate (chain # rest) =
     (case chain of
        c # _ \<Rightarrow> if verifyCertificate c then True else verify_chains verifyCertificate rest
      | [] \<Rightarrow> verify_chains verifyCertificate rest)"

definition baseConfig :: "('c, 'k) cert_ops \<Rightarrow> fsys \<Rightarrow> TLSInfo \<Rightarrow> tls_error + 'c tls_Config" where
  "baseConfig ops s info =
     (if ti_KeyFile info = [] \<or> ti_CertFile info = [] then Inl (ErrCertAndKey (ti_KeyFile info) (ti_CertFile info))
      else case NewCert ops (ti_CertFile info) (ti_KeyFile info) (ti_parseFunc info) s of
        Some e \<Rightarrow> Inl e
      | None \<Rightarrow>
          if ti_AllowedCN info \<noteq> [] \<and> ti_AllowedHostname info \<noteq> []
          then Inl (ErrExclusive (ti_AllowedCN info) (ti_AllowedHostname info))
          else
            (let verifyCertificate =
               (if ti_AllowedHostname info \<noteq> [] then Some (\<lambda>c. VerifyHostname ops c (ti_AllowedHostname info))
                else if ti_AllowedCN info \<noteq> [] then Some (\<lambda>c. ti_AllowedCN info = CommonName ops c) else None)
             in Inr \<lparr>tc_MinVersion = 0x0303, tc_ServerName = ti_ServerName info, tc_CipherSuites = ti_CipherSuites info,
                     tc_VerifyPeerCertificate = map_option verify_chains verifyCertificate,
                     tc_InsecureSkipVerify = False\<rparr>))"

definition ClientConfig :: "('c, 'k) cert_ops \<Rightarrow> fsys \<Rightarrow> TLSInfo \<Rightarrow> tls_error + 'c tls_Config" where
  "ClientConfig ops s info =
     (case (if \<not> TLSInfo_Empty info then baseConfig ops s info
            else Inr \<lparr>tc_MinVersion = 0, tc_ServerName = ti_ServerName info, tc_CipherSuites = [],
                      tc_VerifyPeerCertificate = None, tc_InsecureSkipVerify = False\<rparr>) of
        Inl e \<Rightarrow> Inl e
      | Inr cfg \<Rightarrow>
          Inr (cfg\<lparr>tc_InsecureSkipVerify := (if ti_selfCert info then True else ti_InsecureSkipVerify info)\<rparr>))"

section \<open>Self-signed certificates\<close>

type_synonym self_cert = "((tls_error option \<times> TLSInfo) \<times> fsys) call_result"

text \<open>One run through the body of \<open>SelfCert\<close>; the right result is the tail call with the file system it
  finds. When the certificate file cannot be created, the method \<open>Warn\<close> is called without a test for nil.\<close>

definition SelfCert_body ::
  "('c, 'k) cert_ops \<Rightarrow> bool \<Rightarrow> string \<Rightarrow> string list \<Rightarrow> nat list \<Rightarrow> fsys \<Rightarrow> self_cert + fsys" where
  "SelfCert_body ops lg dirpath hosts additionalUsages s =
     (case MkdirAll dirpath s of
        (Some err, s) \<Rightarrow> Inl (Returned ((Some (TlsOs err), TLSInfo_zero), s))
      | (None, s) \<Rightarrow>
          (let info = TLSInfo_zero\<lparr>ti_Logger := lg\<rparr>;
               certPath = path_Join [dirpath, ''cert.pem''];
               keyPath = path_Join [dirpath, ''key.pem'']
           in if Stat certPath s \<and> Stat keyPath s
              then Inl (Returned ((None, info\<lparr>ti_CertFile := certPath, ti_KeyFile := keyPath, ti_selfCert := True\<rparr>), s))
              else
                (case rand_Int ops of
                   Inl err \<Rightarrow> Inl (Returned ((Some (TlsCrypto err), info), s))
                 | Inr serialNumber \<Rightarrow>
                     (let hs = map (host_of ops) hosts in
                      case GenerateKey ops of
                        Inl err \<Rightarrow> Inl (Returned ((Some (TlsCrypto err), info), s))
                      | Inr priv \<Rightarrow>
                          (case CreateCertificate ops serialNumber (1 # additionalUsages) (filter (is_IP ops) hs)
                                  (filter (\<lambda>h. \<not> is_IP ops h) hs) priv of
                             Inl err \<Rightarrow> Inl (Returned ((Some (TlsCrypto err), info), s))
                           | Inr derBytes \<Rightarrow>
                               (case WriteFile certPath (pem_Encode ops ''CERTIFICATE'' derBytes) s of
                                  (Some err, s) \<Rightarrow> Inl (if lg then Returned ((Some (TlsOs err), info), s) else Panics)
                                | (None, s) \<Rightarrow>
                                    (case MarshalECPrivateKey ops priv of
                                       Inl err \<Rightarrow> Inl (Returned ((Some (TlsCrypto err), info), s))
                                     | Inr b \<Rightarrow>
                                         (case WriteFile keyPath (pem_Encode ops ''EC PRIVATE KEY'' b) s of
                                            (Some err, s) \<Rightarrow> Inl (Returned ((Some (TlsOs err), info), s))
                                          | (None, s) \<Rightarrow> Inr s))))))))"

partial_function (option) SelfCert ::
  "('c, 'k) cert_ops \<Rightarrow> bool \<Rightarrow> string \<Rightarrow> string list \<Rightarrow> nat list \<Rightarrow> fsys \<Rightarrow> self_cert option" where
  "SelfCert ops lg dirpath hosts additionalUsages s =
     (case SelfCert_body ops lg dirpath hosts additionalUsages s of
        Inl r \<Rightarrow> Some r
      | Inr s' \<Rightarrow> SelfCert ops lg dirpath hosts [] s')"

lemma Stat_update: "Stat q s \<Longrightarrow> Stat q (s\<lparr>fs_nodes := AList.update k n (fs_nodes s)\<rparr>)"
  by (auto simp: Stat_def update_conv')

lemma Mkdir_keeps: "Mkdir k s = (e, s') \<Longrightarrow> Stat q s \<Longrightarrow> Stat q s'"
  by (auto simp: Mkdir_def intro: Stat_update split: if_splits)

lemma mkdir_all_keeps: "mkdir_all r es s = (e, s') \<Longrightarrow> Stat q s \<Longrightarrow> Stat q s'"
proof (induction r es s arbitrary: e s' rule: mkdir_all.induct)
  case (2 r x es s)
  show ?case
  proof (cases "map_of (fs_nodes s) (r, rev (x # es))")
    case None
    obtain e1 s1 where m: "mkdir_all r es s = (e1, s1)" by (cases "mkdir_all r es s")
    from "2.IH" [OF None m "2.prems"(2)] have "Stat q s1" .
    with "2.prems"(1) None m show ?thesis by (cases e1) (auto dest: Mkdir_keeps)
  next
    case (Some n)
    with "2.prems" show ?thesis by (cases n) auto
  qed
qed simp

lemma WriteFile_Stat:
  assumes "WriteFile f b s = (None, s')"
  shows "Stat f s'" and "Stat q s \<Longrightarrow> Stat q s'"
proof -
  obtain r s1 where o: "open_create (locate f) s = (r, s1)" by (cases "open_create (locate f) s")
  from assms o have s': "s' = s1\<lparr>fs_nodes := AList.update (locate f) (FileNode b) (fs_nodes s1)\<rparr>"
    by (cases r) (auto simp: WriteFile_def)
  then show "Stat f s'" by (simp add: Stat_def update_conv')
  show "Stat q s'" if "Stat q s"
  proof -
    have "Stat q s1"
      using o that by (auto simp: open_create_def intro: Stat_update split: if_splits option.splits fs_node.splits)
    then show ?thesis unfolding s' by (rule Stat_update)
  qed
qed

text \<open>The tail call is made only after both files were written, and then the files are found.\<close>

lemma SelfCert_body_again:
  assumes "SelfCert_body ops lg dirpath hosts us s = Inr s'"
  shows "Stat (path_Join [dirpath, ''cert.pem'']) s' \<and> Stat (path_Join [dirpath, ''key.pem'']) s'"
proof -
  obtain s1 s2 cert key where
    "WriteFile (path_Join [dirpath, ''cert.pem'']) cert s1 = (None, s2)"
    "WriteFile (path_Join [dirpath, ''key.pem'']) key s2 = (None, s')"
    using assms by (auto simp: SelfCert_body_def Let_def split: prod.splits option.splits sum.splits if_splits)
  then show ?thesis using WriteFile_Stat by blast
qed

definition self_cert_ok :: "bool \<Rightarrow> string \<Rightarrow> self_cert \<Rightarrow> bool" where
  "self_cert_ok lg dirpath r =
     (case r of
        Returned ((None, info), s) \<Rightarrow>
          ti_CertFile info = path_Join [dirpath, ''cert.pem''] \<and> ti_KeyFile info = path_Join [dirpath, ''key.pem''] \<and>
          ti_selfCert info \<and> Stat (ti_CertFile info) s \<and> Stat (ti_KeyFile info) s
      | Returned ((Some err, info), s) \<Rightarrow> TLSInfo_Empty info
      | Panics \<Rightarrow> \<not> lg
      | Waits \<Rightarrow> False)"

lemma SelfCert_body_result:
  "SelfCert_body ops lg dirpath hosts us s = Inl r \<Longrightarrow> self_cert_ok lg dirpath r"
  by (auto simp: SelfCert_body_def Let_def self_cert_ok_def TLSInfo_Empty_def TLSInfo_zero_def
      split: prod.splits option.splits sum.splits if_splits)

lemma SelfCert_body_found:
  assumes "Stat (path_Join [dirpath, ''cert.pem'']) s" and "Stat (path_Join [dirpath, ''key.pem'']) s"
  shows "\<exists>r. SelfCert_body ops lg dirpath hosts us s = Inl r"
proof -
  obtain e s1 where m: "MkdirAll dirpath s = (e, s1)" by (cases "MkdirAll dirpath s")
  then have "Stat (path_Join [dirpath, ''cert.pem'']) s1" "Stat (path_Join [dirpath, ''key.pem'']) s1"
    using assms by (auto simp: MkdirAll_def dest: mkdir_all_keeps)
  with m show ?thesis by (cases e) (simp_all add: SelfCert_body_def Let_def)
qed

section \<open>Listeners\<close>

datatype listener =
    NetListener nat string string
  | unixListener listener
  | rwTimeoutListener listener int int
  | keepaliveListener listener
  | tlsKeepaliveListener listener
  | limitListener listener int

datatype net_error = ErrListen string | ErrRemove os_error | ErrNetClosing | ErrNoTLS

record world =
  w_fs :: fsys
  w_next :: nat
  w_open :: "nat list"

type_synonym listen_error = "string \<Rightarrow> string \<Rightarrow> world \<Rightarrow> string option"

definition net_Listen :: "listen_error \<Rightarrow> string \<Rightarrow> string \<Rightarrow> world \<Rightarrow> (net_error + listener) \<times> world" where
  "net_Listen lerr network addr w =
     (case lerr network addr w of
        Some e \<Rightarrow> (Inl (ErrListen e), w)
      | None \<Rightarrow> (Inr (NetListener (w_next w) network addr), w\<lparr>w_next := w_next w + 1, w_open := w_next w # w_open w\<rparr>))"

text \<open>The address of a listener, as \<open>Addr().String()\<close> gives it for a unix socket.\<close>

fun listener_Addr :: "listener \<Rightarrow> string" where
  "listener_Addr (NetListener i network addr) = addr"
| "listener_Addr (unixListener l) = listener_Addr l"
| "listener_Addr (rwTimeoutListener l wt rd) = listener_Addr l"
| "listener_Addr (keepaliveListener l) = listener_Addr l"
| "listener_Addr (tlsKeepaliveListener l) = listener_Addr l"
| "listener_Addr (limitListener l n) = listener_Addr l"

fun listener_Close :: "listener \<Rightarrow> world \<Rightarrow> net_error option \<times> world" where
  "listener_Close (NetListener i network addr) w =
     (if i \<in> set (w_open w) then (None, w\<lparr>w_open := filter (\<lambda>j. j \<noteq> i) (w_open w)\<rparr>) else (Some ErrNetClosing, w))"
| "listener_Close (unixListener l) w =
     (case Remove (listener_Addr l) (w_fs w) of
        (None, s) \<Rightarrow> listener_Close l (w\<lparr>w_fs := s\<rparr>)
      | (Some err, s) \<Rightarrow>
          if err \<noteq> os_ErrNotExist then (Some (ErrRemove err), w\<lparr>w_fs := s\<rparr>) else listener_Close l (w\<lparr>w_fs := s\<rparr>))"
| "listener_Close (rwTimeoutListener l wt rd) w = listener_Close l w"
| "listener_Close (keepaliveListener l) w = listener_Close l w"
| "listener_Close (tlsKeepaliveListener l) w = listener_Close l w"
| "listener_Close (limitListener l n) w = listener_Close l w"

definition NewUnixListener :: "listen_error \<Rightarrow> string \<Rightarrow> world \<Rightarrow> (net_error + listener) \<times> world" where
  "NewUnixListener lerr addr w =
     (case Remove addr (w_fs w) of
        (err, s) \<Rightarrow>
          let w = w\<lparr>w_fs := s\<rparr> in
          if err \<noteq> None \<and> err \<noteq> Some os_ErrNotExist then (Inl (ErrRemove (the err)), w)
          else (case net_Listen lerr ''unix'' addr w of
                  (Inl e, w) \<Rightarrow> (Inl e, w)
                | (Inr l, w) \<Rightarrow> (Inr (unixListener l), w)))"

definition newListener :: "listen_error \<Rightarrow> string \<Rightarrow> string \<Rightarrow> world \<Rightarrow> (net_error + listener) \<times> world" where
  "newListener lerr addr scheme w =
     (if scheme = ''unix'' \<or> scheme = ''unixs'' then NewUnixListener lerr addr w
      else net_Listen lerr ''tcp'' addr w)"

definition wrapTLS :: "string \<Rightarrow> TLSInfo \<Rightarrow> listener \<Rightarrow> listener" where
  "wrapTLS scheme tlsinfo l = (if scheme \<noteq> ''https'' \<and> scheme \<noteq> ''unixs'' then l else l)"

definition NewListener :: "listen_error \<Rightarrow> string \<Rightarrow> string \<Rightarrow> TLSInfo \<Rightarrow> world \<Rightarrow> (net_error + listener) \<times> world" where
  "NewListener lerr addr scheme tlsinfo w =
     (case newListener lerr addr scheme w of
        (Inl e, w) \<Rightarrow> (Inl e, w)
      | (Inr l, w) \<Rightarrow> (Inr (wrapTLS scheme tlsinfo l), w))"

definition NewTimeoutListener ::
  "listen_error \<Rightarrow> string \<Rightarrow> string \<Rightarrow> TLSInfo \<Rightarrow> int \<Rightarrow> int \<Rightarrow> world \<Rightarrow> (net_error + listener) \<times> world" where
  "NewTimeoutListener lerr addr scheme tlsinfo rdtimeoutd wtimeoutd w =
     (case newListener lerr addr scheme w of
        (Inl e, w) \<Rightarrow> (Inl e, w)
      | (Inr ln, w) \<Rightarrow> (Inr (wrapTLS scheme tlsinfo (rwTimeoutListener ln wtimeoutd rdtimeoutd)), w))"

definition newTLSKeepaliveListener :: "listener \<Rightarrow> listener" where
  "newTLSKeepaliveListener inner = tlsKeepaliveListener inner"

definition NewKeepAliveListener :: "listener \<Rightarrow> string \<Rightarrow> 'c tls_Config option \<Rightarrow> net_error + listener" where
  "NewKeepAliveListener l scheme tlscfg =
     (if scheme = ''https'' then
        (case tlscfg of None \<Rightarrow> Inl ErrNoTLS | Some cfg \<Rightarrow> Inr (newTLSKeepaliveListener l))
      else Inr (keepaliveListener l))"

text \<open>\<open>LimitListener\<close> makes a channel with \<open>n\<close> places, which panics for a negative \<open>n\<close>.\<close>

definition LimitListener :: "listener \<Rightarrow> int \<Rightarrow> listener option" where
  "LimitListener l n = (if n < 0 then None else Some (limitListener l n))"

section \<open>Connections\<close>

text \<open>The operations of a \<open>net.Conn\<close> the wrappers call, with the deadline in nanoseconds.\<close>

record 'n conn_ops =
  SetWriteDeadline :: "int \<Rightarrow> 'n \<Rightarrow> string + 'n"
  SetReadDeadline :: "int \<Rightarrow> 'n \<Rightarrow> string + 'n"
  conn_Write :: "bytes \<Rightarrow> 'n \<Rightarrow> (nat \<times> string option) \<times> 'n"
  conn_Read :: "nat \<Rightarrow> 'n \<Rightarrow> (bytes \<times> string option) \<times> 'n"

record 'n timeoutConn =
  tc_Conn :: 'n
  tc_wtimeoutd :: int
  tc_rdtimeoutd :: int

definition timeoutConn_Write ::
  "'n conn_ops \<Rightarrow> int \<Rightarrow> bytes \<Rightarrow> 'n timeoutConn \<Rightarrow> (nat \<times> string option) \<times> 'n timeoutConn" where
  "timeoutConn_Write ops now b c =
     (case (if 0 < tc_wtimeoutd c then SetWriteDeadline ops (now + tc_wtimeoutd c) (tc_Conn c) else Inr (tc_Conn c)) of
        Inl err \<Rightarrow> ((0, Some err), c)
      | Inr n \<Rightarrow> (let (r, n') = conn_Write ops b n in (r, c\<lparr>tc_Conn := n'\<rparr>)))"

definition timeoutConn_Read ::
  "'n conn_ops \<Rightarrow> int \<Rightarrow> nat \<Rightarrow> 'n timeoutConn \<Rightarrow> (bytes \<times> string option) \<times> 'n timeoutConn" where
  "timeoutConn_Read ops now len c =
     (case (if 0 < tc_rdtimeoutd c then SetReadDeadline ops (now + tc_rdtimeoutd c) (tc_Conn c) else Inr (tc_Conn c)) of
        Inl err \<Rightarrow> (([], Some err), c)
      | Inr n \<Rightarrow> (let (r, n') = conn_Read ops len n in (r, c\<lparr>tc_Conn := n'\<rparr>)))"

text \<open>\<open>Dial\<close> wraps the connection before it looks at the error: a failed call returns a wrapper around nil.\<close>

definition rwTimeoutDialer_Dial ::
  "(string \<Rightarrow> string \<Rightarrow> string + 'n) \<Rightarrow> int \<Rightarrow> int \<Rightarrow> string \<Rightarrow> string \<Rightarrow> 'n option timeoutConn \<times> string option" where
  "rwTimeoutDialer_Dial dial wtimeoutd rdtimeoutd network address =
     (case dial network address of
        Inl err \<Rightarrow> (\<lparr>tc_Conn = None, tc_wtimeoutd = wtimeoutd, tc_rdtimeoutd = rdtimeoutd\<rparr>, Some err)
      | Inr conn \<Rightarrow> (\<lparr>tc_Conn = Some conn, tc_wtimeoutd = wtimeoutd, tc_rdtimeoutd = rdtimeoutd\<rparr>, None))"

definition rwTimeoutListener_Accept :: "string + 'n \<Rightarrow> int \<Rightarrow> int \<Rightarrow> string + 'n timeoutConn" where
  "rwTimeoutListener_Accept accepted wtimeoutd rdtimeoutd =
     (case accepted of
        Inl err \<Rightarrow> Inl err
      | Inr c \<Rightarrow> Inr \<lparr>tc_Conn = c, tc_wtimeoutd = wtimeoutd, tc_rdtimeoutd = rdtimeoutd\<rparr>)"

section \<open>HTTP transports\<close>

record 'c http_Transport =
  ht_DialTimeout :: int
  ht_KeepAlive :: int
  ht_TLSHandshakeTimeout :: int
  ht_TLSClientConfig :: "'c tls_Config"
  ht_MaxIdleConnsPerHost :: int
  ht_timeouts :: "(int \<times> int) option"
  ht_protocols :: "string list"

definition NewTransport :: "('c, 'k) cert_ops \<Rightarrow> fsys \<Rightarrow> TLSInfo \<Rightarrow> int \<Rightarrow> tls_error + 'c http_Transport" where
  "NewTransport ops s info dialtimeoutd =
     (case ClientConfig ops s info of
        Inl err \<Rightarrow> Inl err
      | Inr cfg \<Rightarrow>
          Inr \<lparr>ht_DialTimeout = dialtimeoutd, ht_KeepAlive = 30 * 1000000000, ht_TLSHandshakeTimeout = 10 * 1000000000,
               ht_TLSClientConfig = cfg, ht_MaxIdleConnsPerHost = 0, ht_timeouts = None,
               ht_protocols = [''unix'', ''unixs'']\<rparr>)"

definition NewTimeoutTransport ::
  "('c, 'k) cert_ops \<Rightarrow> fsys \<Rightarrow> TLSInfo \<Rightarrow> int \<Rightarrow> int \<Rightarrow> int \<Rightarrow> tls_error + 'c http_Transport" where
  "NewTimeoutTransport ops s info dialtimeoutd rdtimeoutd wtimeoutd =
     (case NewTransport ops s info dialtimeoutd of
        Inl err \<Rightarrow> Inl err
      | Inr tr \<Rightarrow>
          Inr (tr\<lparr>ht_MaxIdleConnsPerHost := (if rdtimeoutd \<noteq> 0 \<or> wtimeoutd \<noteq> 0 then -1 else 1024),
                  ht_timeouts := Some (rdtimeoutd, wtimeoutd)\<rparr>))"

text \<open>\<open>strings.Replace\<close> of the first occurrence.\<close>

fun replace_first :: "string \<Rightarrow> string \<Rightarrow> string \<Rightarrow> string" where
  "replace_first old new [] = (if old = [] then new else [])"
| "replace_first old new (c # s) =
     (if HasPrefix (c # s) old then new @ drop (length old) (c # s) else c # replace_first old new s)"

text \<open>\<open>RoundTrip\<close> of a unix transport works on a copy of the URL with the scheme of HTTP.\<close>

definition unixTransport_scheme :: "string \<Rightarrow> string" where
  "unixTransport_scheme scheme = replace_first ''unix'' ''http'' scheme"

definition GetHostname :: "(string \<Rightarrow> string option) \<Rightarrow> string option \<Rightarrow> string" where
  "GetHostname split req =
     (case req of None \<Rightarrow> [] | Some host \<Rightarrow> (case split host of None \<Rightarrow> host | Some h \<Rightarrow> h))"

section \<open>The limit on connections\<close>

text \<open>The channel \<open>sem\<close> of a limit listener holds one element per goroutine that is inside the inner \<open>Accept\<close>
  and per connection whose slot has not been given back. A connection is closed and runs its
  \<open>releaseOnce\<close>; \<open>Close\<close> may be called again.\<close>

record limit_conn =
  lc_open :: bool
  lc_released :: bool

record limit_state =
  ls_cap :: nat
  ls_sem :: nat
  ls_accepting :: nat
  ls_failed :: nat
  ls_conns :: "limit_conn list"

definition limit_acquire :: "limit_state \<Rightarrow> limit_state option" where
  "limit_acquire s = (if ls_sem s < ls_cap s then Some (s\<lparr>ls_sem := ls_sem s + 1\<rparr>) else None)"

definition limit_release :: "limit_state \<Rightarrow> limit_state option" where
  "limit_release s = (if 0 < ls_sem s then Some (s\<lparr>ls_sem := ls_sem s - 1\<rparr>) else None)"

definition new_limit :: "nat \<Rightarrow> limit_state" where
  "new_limit n = \<lparr>ls_cap = n, ls_sem = 0, ls_accepting = 0, ls_failed = 0, ls_conns = []\<rparr>"

text \<open>The atomic steps of \<open>Accept\<close> (take a slot; the inner \<open>Accept\<close> returns a connection or an error; the
  slot is given back after an error) and of \<open>Close\<close> (close the connection; release once).\<close>

inductive limit_step :: "limit_state \<Rightarrow> limit_state \<Rightarrow> bool" where
  acquire: "limit_acquire s = Some s' \<Longrightarrow> limit_step s (s'\<lparr>ls_accepting := ls_accepting s' + 1\<rparr>)"
| accepted: "0 < ls_accepting s \<Longrightarrow>
    limit_step s (s\<lparr>ls_accepting := ls_accepting s - 1, ls_conns := ls_conns s @ [\<lparr>lc_open = True, lc_released = False\<rparr>]\<rparr>)"
| failed: "0 < ls_accepting s \<Longrightarrow>
    limit_step s (s\<lparr>ls_accepting := ls_accepting s - 1, ls_failed := ls_failed s + 1\<rparr>)"
| give_back: "0 < ls_failed s \<Longrightarrow> limit_release s = Some s' \<Longrightarrow> limit_step s (s'\<lparr>ls_failed := ls_failed s' - 1\<rparr>)"
| close: "i < length (ls_conns s) \<Longrightarrow>
    limit_step s (s\<lparr>ls_conns := (ls_conns s)[i := (ls_conns s ! i)\<lparr>lc_open := False\<rparr>]\<rparr>)"
| release: "i < length (ls_conns s) \<Longrightarrow> \<not> lc_open (ls_conns s ! i) \<Longrightarrow> \<not> lc_released (ls_conns s ! i) \<Longrightarrow>
    limit_release s = Some s' \<Longrightarrow>
    limit_step s (s'\<lparr>ls_conns := (ls_conns s')[i := (ls_conns s' ! i)\<lparr>lc_released := True\<rparr>]\<rparr>)"

inductive limit_reachable :: "nat \<Rightarrow> limit_state \<Rightarrow> bool" for n where
  init: "limit_reachable n (new_limit n)"
| step: "limit_reachable n s \<Longrightarrow> limit_step s s' \<Longrightarrow> limit_reachable n s'"

definition open_conns :: "limit_state \<Rightarrow> nat" where
  "open_conns s = length (filter lc_open (ls_conns s))"

definition held_slots :: "limit_state \<Rightarrow> nat" where
  "held_slots s = length (filter (\<lambda>c. \<not> lc_released c) (ls_conns s))"

definition limit_inv :: "nat \<Rightarrow> limit_state \<Rightarrow> bool" where
  "limit_inv n s \<longleftrightarrow> ls_cap s = n \<and> ls_sem s \<le> n \<and> ls_sem s = ls_accepting s + ls_failed s + held_slots s \<and>
     (\<forall>c \<in> set (ls_conns s). lc_open c \<longrightarrow> \<not> lc_released c)"

lemma filter_update_count:
  assumes "i < length xs"
  shows "length (filter P (xs[i := y])) + (if P (xs ! i) then 1 else 0) = length (filter P xs) + (if P y then 1 else 0)"
  using assms
proof (induction xs arbitrary: i)
  case (Cons x xs)
  then show ?case by (cases i) auto
qed simp

lemma held_update:
  assumes "i < length (ls_conns s)"
  shows "held_slots (s\<lparr>ls_conns := (ls_conns s)[i := c]\<rparr>) + (if lc_released (ls_conns s ! i) then 0 else 1) =
    held_slots s + (if lc_released c then 0 else 1)"
  using filter_update_count [OF assms, of "\<lambda>c. \<not> lc_released c" c] by (auto simp: held_slots_def)

lemma limit_step_inv:
  assumes "limit_step s s'" and "limit_inv n s"
  shows "limit_inv n s'"
  using assms
proof (induction rule: limit_step.induct)
  case (close i s)
  have "held_slots (s\<lparr>ls_conns := (ls_conns s)[i := (ls_conns s ! i)\<lparr>lc_open := False\<rparr>]\<rparr>) = held_slots s"
    using held_update [OF close.hyps, of "(ls_conns s ! i)\<lparr>lc_open := False\<rparr>"] by (simp split: if_splits)
  moreover have "\<forall>c \<in> set ((ls_conns s)[i := (ls_conns s ! i)\<lparr>lc_open := False\<rparr>]). lc_open c \<longrightarrow> \<not> lc_released c"
    using close set_update_subset_insert [of "ls_conns s" i] by (fastforce simp: limit_inv_def)
  ultimately show ?case using close by (simp add: limit_inv_def)
next
  case (release i s s')
  define t where "t = s\<lparr>ls_conns := (ls_conns s)[i := (ls_conns s ! i)\<lparr>lc_released := True\<rparr>]\<rparr>"
  have h: "held_slots t + 1 = held_slots s" using held_update [OF release.hyps(1), of "(ls_conns s ! i)\<lparr>lc_released := True\<rparr>"] release.hyps(3) by (simp add: t_def)
  have "s'\<lparr>ls_conns := (ls_conns s')[i := (ls_conns s' ! i)\<lparr>lc_released := True\<rparr>]\<rparr> = t\<lparr>ls_sem := ls_sem s - 1\<rparr>"
    using release.hyps(4) by (auto simp: limit_release_def t_def split: if_splits)
  moreover have "held_slots (t\<lparr>ls_sem := ls_sem s - 1\<rparr>) = held_slots t" by (simp add: held_slots_def)
  moreover have "\<forall>c \<in> set (ls_conns t). lc_open c \<longrightarrow> \<not> lc_released c"
    using release.prems release.hyps set_update_subset_insert [of "ls_conns s" i]
    by (fastforce simp: limit_inv_def t_def)
  ultimately show ?case using release.prems release.hyps h by (auto simp: limit_inv_def t_def)
qed (auto simp: limit_inv_def held_slots_def limit_acquire_def limit_release_def split: if_splits)

lemma limit_reachable_inv: "limit_reachable n s \<Longrightarrow> limit_inv n s"
proof (induction rule: limit_reachable.induct)
  case init
  show ?case by (simp add: new_limit_def limit_inv_def held_slots_def)
next
  case (step s s')
  from step.hyps(2) step.IH show ?case by (rule limit_step_inv)
qed

lemma open_le_held: "\<forall>c \<in> set cs. lc_open c \<longrightarrow> \<not> lc_released c \<Longrightarrow>
  length (filter lc_open cs) \<le> length (filter (\<lambda>c. \<not> lc_released c) cs)"
  by (induction cs) auto

section \<open>Properties\<close>



text \<open>\<open>SelfCert\<close> returns for every file system and every outcome of the random numbers and the crypto
  functions, although it calls itself: without an error it names a certificate and a key file that both
  exist, with an error the settings stay empty, and it panics at most without a logger.\<close>

lemma SelfCert_returns:
  "\<exists>r. SelfCert ops lg dirpath hosts us s = Some r \<and> self_cert_ok lg dirpath r"
proof (cases "SelfCert_body ops lg dirpath hosts us s")
  case (Inl r)
  then show ?thesis by (subst SelfCert.simps) (simp add: SelfCert_body_result)
next
  case (Inr s')
  then obtain r where r: "SelfCert_body ops lg dirpath hosts [] s' = Inl r"
    using SelfCert_body_again SelfCert_body_found by blast
  have "SelfCert ops lg dirpath hosts us s = SelfCert ops lg dirpath hosts [] s'"
    by (subst SelfCert.simps) (simp add: Inr)
  also have "\<dots> = Some r" by (subst SelfCert.simps) (simp add: r)
  finally show ?thesis using SelfCert_body_result [OF r] by blast
qed

end
