(* ===== verification/Embed_Config.thy ===== *)
theory Embed_Config
  imports Etcd_Server Flags Net_Transport
begin

text \<open>
  \<open>embed/config.go\<close>, \<open>embed/config_logging.go\<close>, \<open>embed/util.go\<close> and \<open>pkg/logutil/zap.go\<close>: the configuration of an
  embedded server, its defaults, the settings derived from it and the set-up of its logger.

  Handlers, the registration of services and the builder of a logger given by the embedding program
  are argument types. \<open>zap.Config.Build\<close> is an argument that returns the error; a logger is present
  or not. A map used as a set of strings is the list of its keys.
\<close>

section \<open>Logger configuration\<close>

datatype zap_level = DebugLevel | InfoLevel

record zap_Config =
  zc_Level :: zap_level
  zc_Development :: bool
  zc_Sampling :: "nat \<times> nat"
  zc_Encoding :: string
  zc_OutputPaths :: "string list"
  zc_ErrorOutputPaths :: "string list"

definition DefaultZapLoggerConfig :: zap_Config where
  "DefaultZapLoggerConfig = \<lparr>zc_Level = InfoLevel, zc_Development = False, zc_Sampling = (100, 100),
     zc_Encoding = ''console'', zc_OutputPaths = [''stderr''], zc_ErrorOutputPaths = [''stderr'']\<rparr>"

text \<open>The two halves of \<open>MergeOutputPaths\<close>. The order in which the map is visited does not show, since the
  paths are sorted.\<close>

definition merge_paths :: "string list \<Rightarrow> string list" where
  "merge_paths paths =
     (let outputs = fold List.insert paths [] in
      sort (if ''/dev/null'' \<in> set outputs then [''/dev/null''] else outputs))"

definition MergeOutputPaths :: "zap_Config \<Rightarrow> zap_Config" where
  "MergeOutputPaths cfg =
     cfg\<lparr>zc_OutputPaths := merge_paths (zc_OutputPaths cfg),
         zc_ErrorOutputPaths := merge_paths (zc_ErrorOutputPaths cfg)\<rparr>"

section \<open>Constants\<close>

definition ClusterStateFlagNew :: string where "ClusterStateFlagNew = ''new''"

definition ClusterStateFlagExisting :: string where "ClusterStateFlagExisting = ''existing''"

definition DefaultName :: string where "DefaultName = ''default''"

definition DefaultMaxRequestBytes :: u64 where "DefaultMaxRequestBytes = 1572864"

definition DefaultListenPeerURLs :: string where "DefaultListenPeerURLs = ''http://localhost:2380''"

definition DefaultListenClientURLs :: string where "DefaultListenClientURLs = ''http://localhost:2379''"

definition DefaultLogOutput :: string where "DefaultLogOutput = ''default''"

definition StdErrLogOutput :: string where "StdErrLogOutput = ''stderr''"

definition StdOutLogOutput :: string where "StdOutLogOutput = ''stdout''"

definition DefaultInitialAdvertisePeerURLs :: string where
  "DefaultInitialAdvertisePeerURLs = ''http://localhost:2380''"

definition DefaultAdvertiseClientURLs :: string where
  "DefaultAdvertiseClientURLs = ''http://localhost:2379''"

section \<open>Config\<close>

datatype 'b logger_builder = DefaultBuilder zap_Config | CustomBuilder 'b

record ('u, 'h, 'b) Config =
  ec_Name :: string
  ec_Dir :: string
  ec_WalDir :: string
  ec_SnapshotCount :: u64
  ec_SnapshotCatchUpEntries :: u64
  ec_MaxSnapFiles :: u64
  ec_MaxWalFiles :: u64
  ec_TickMs :: u64
  ec_ElectionMs :: u64
  ec_InitialElectionTickAdvance :: bool
  ec_BackendBatchInterval :: int
  ec_BackendBatchLimit :: int
  ec_QuotaBackendBytes :: int
  ec_MaxTxnOps :: u64
  ec_MaxRequestBytes :: u64
  ec_LPUrls :: "'u URLs"
  ec_LCUrls :: "'u URLs"
  ec_APUrls :: "'u URLs"
  ec_ACUrls :: "'u URLs"
  ec_ClientTLSInfo :: TLSInfo
  ec_ClientAutoTLS :: bool
  ec_PeerTLSInfo :: TLSInfo
  ec_CipherSuites :: "string list"
  ec_ClusterState :: string
  ec_DNSCluster :: string
  ec_DNSClusterServiceName :: string
  ec_Dproxy :: string
  ec_Durl :: string
  ec_InitialCluster :: string
  ec_InitialClusterToken :: string
  ec_StrictReconfigCheck :: bool
  ec_EnableV2 :: bool
  ec_AutoCompactionMode :: string
  ec_AutoCompactionRetention :: string
  ec_GRPCKeepAliveMinTime :: int
  ec_GRPCKeepAliveInterval :: int
  ec_GRPCKeepAliveTimeout :: int
  ec_PreVote :: bool
  ec_CORS :: "string list"
  ec_HostWhitelist :: "string list"
  ec_UserHandlers :: "(string, 'h) gomap"
  ec_ServiceRegister :: "'h option"
  ec_AuthToken :: string
  ec_BcryptCost :: u64
  ec_InitialCorruptCheck :: bool
  ec_CorruptCheckTime :: int
  ec_EnableV2V3 :: string
  ec_BackendFreelistType :: string
  ec_EnableLeaseCheckpoint :: bool
  ec_ForceNewCluster :: bool
  ec_EnablePprof :: bool
  ec_Metrics :: string
  ec_ListenMetricsUrls :: "'u URLs"
  ec_Logger :: string
  ec_DeprecatedLogOutput :: "string list"
  ec_LogOutputs :: "string list"
  ec_Debug :: bool
  ec_ZapLoggerBuilder :: "'b logger_builder option"
  ec_logger :: bool
  ec_loggerConfig :: "zap_Config option"
  ec_loggerCore :: bool
  ec_loggerWriteSyncer :: bool
  ec_EnableGRPCGateway :: bool
  ec_LogPkgLevels :: string

text \<open>\<open>InitialClusterFromName\<close>: the loop puts a comma in front of every entry, and \<open>ret[1:]\<close> drops the first.\<close>

fun cluster_entries :: "'u url_ops \<Rightarrow> string \<Rightarrow> 'u list \<Rightarrow> string \<Rightarrow> string" where
  "cluster_entries ops n [] ret = ret"
| "cluster_entries ops n (u # us) ret = cluster_entries ops n us (ret @ '','' @ n @ ''='' @ url_String ops u)"

definition InitialClusterFromName :: "'u url_ops \<Rightarrow> string \<Rightarrow> ('u, 'h, 'b) Config \<Rightarrow> string" where
  "InitialClusterFromName ops name cfg =
     (if length (ec_APUrls cfg) = 0 then []
      else let n = (if name = [] then DefaultName else name)
           in tl (cluster_entries ops n (ec_APUrls cfg) []))"

text \<open>\<open>NewConfig\<close> dereferences the parsed defaults, so it panics when one of them does not parse. The cost
  constant of the package \<open>bcrypt\<close> is an argument.\<close>

definition parsed :: "'u url_ops \<Rightarrow> string \<Rightarrow> 'u option" where
  "parsed ops s = (case url_Parse ops s of Inl e \<Rightarrow> None | Inr u \<Rightarrow> Some u)"

definition NewConfig :: "'u url_ops \<Rightarrow> u64 \<Rightarrow> ('u, 'h, 'b) Config option" where
  "NewConfig ops cost =
     do { lpurl \<leftarrow> parsed ops DefaultListenPeerURLs;
          lcurl \<leftarrow> parsed ops DefaultListenClientURLs;
          apurl \<leftarrow> parsed ops DefaultInitialAdvertisePeerURLs;
          acurl \<leftarrow> parsed ops DefaultAdvertiseClientURLs;
          let cfg = \<lparr>ec_Name = DefaultName, ec_Dir = [], ec_WalDir = [],
            ec_SnapshotCount = DefaultSnapshotCount, ec_SnapshotCatchUpEntries = DefaultSnapshotCatchUpEntries,
            ec_MaxSnapFiles = 5, ec_MaxWalFiles = 5, ec_TickMs = 100, ec_ElectionMs = 1000,
            ec_InitialElectionTickAdvance = True, ec_BackendBatchInterval = 0, ec_BackendBatchLimit = 0,
            ec_QuotaBackendBytes = 0, ec_MaxTxnOps = 128, ec_MaxRequestBytes = DefaultMaxRequestBytes,
            ec_LPUrls = [lpurl], ec_LCUrls = [lcurl], ec_APUrls = [apurl], ec_ACUrls = [acurl],
            ec_ClientTLSInfo = TLSInfo_zero, ec_ClientAutoTLS = False, ec_PeerTLSInfo = TLSInfo_zero,
            ec_CipherSuites = [], ec_ClusterState = ClusterStateFlagNew, ec_DNSCluster = [],
            ec_DNSClusterServiceName = [], ec_Dproxy = [], ec_Durl = [], ec_InitialCluster = [],
            ec_InitialClusterToken = ''etcd-cluster'', ec_StrictReconfigCheck = True, ec_EnableV2 = True,
            ec_AutoCompactionMode = [], ec_AutoCompactionRetention = [],
            ec_GRPCKeepAliveMinTime = 5 * 1000000000, ec_GRPCKeepAliveInterval = 7200 * 1000000000,
            ec_GRPCKeepAliveTimeout = 20 * 1000000000, ec_PreVote = False, ec_CORS = [''*''],
            ec_HostWhitelist = [''*''], ec_UserHandlers = [], ec_ServiceRegister = None, ec_AuthToken = ''simple'',
            ec_BcryptCost = cost, ec_InitialCorruptCheck = False, ec_CorruptCheckTime = 0, ec_EnableV2V3 = [],
            ec_BackendFreelistType = [], ec_EnableLeaseCheckpoint = False, ec_ForceNewCluster = False,
            ec_EnablePprof = False, ec_Metrics = ''basic'', ec_ListenMetricsUrls = [], ec_Logger = ''zap'',
            ec_DeprecatedLogOutput = [DefaultLogOutput], ec_LogOutputs = [DefaultLogOutput], ec_Debug = False,
            ec_ZapLoggerBuilder = None, ec_logger = False, ec_loggerConfig = None, ec_loggerCore = False,
            ec_loggerWriteSyncer = False, ec_EnableGRPCGateway = False, ec_LogPkgLevels = []\<rparr>;
          Some (cfg\<lparr>ec_InitialCluster := InitialClusterFromName ops (ec_Name cfg) cfg\<rparr>) }"

definition updateCipherSuites :: "TLSInfo \<Rightarrow> string list \<Rightarrow> string list option" where
  "updateCipherSuites tls ss = (if length (ti_CipherSuites tls) > 0 \<and> length ss > 0 then Some ss else None)"

section \<open>Logging and validation\<close>

datatype embed_error =
    ErrUnknownLogger string | ErrZapBuild string | ErrCipherSuites "string list" | ErrSelfCert tls_error
  | ErrClientTLS string | ErrNet net_error | ErrInitialCluster url_error | ErrNewServer new_error

definition log_path :: "string \<Rightarrow> string" where
  "log_path v = (if v = DefaultLogOutput then StdErrLogOutput else v)"

text \<open>The configuration that \<open>setupLogging\<close> puts together from \<open>LogOutputs\<close> and \<open>Debug\<close>.\<close>

definition logger_config :: "('u, 'h, 'b) Config \<Rightarrow> zap_Config" where
  "logger_config cfg =
     (let paths = map log_path (ec_LogOutputs cfg);
          copied = MergeOutputPaths (DefaultZapLoggerConfig\<lparr>zc_OutputPaths := paths, zc_ErrorOutputPaths := paths\<rparr>)
      in if ec_Debug cfg then copied\<lparr>zc_Level := DebugLevel\<rparr> else copied)"

text \<open>The builder of \<open>setupLogging\<close> assigns the result of \<open>Build\<close> to \<open>logger\<close> before it looks at the error.\<close>

type_synonym ('u, 'h, 'b) custom_builder = "'b \<Rightarrow> ('u, 'h, 'b) Config \<Rightarrow> string option \<times> ('u, 'h, 'b) Config"

definition run_builder ::
  "(zap_Config \<Rightarrow> string option) \<Rightarrow> ('u, 'h, 'b) custom_builder \<Rightarrow> 'b logger_builder \<Rightarrow> ('u, 'h, 'b) Config \<Rightarrow>
   string option \<times> ('u, 'h, 'b) Config" where
  "run_builder build custom b c =
     (case b of
        CustomBuilder f \<Rightarrow> custom f c
      | DefaultBuilder copied \<Rightarrow>
          (case build copied of
             Some err \<Rightarrow> (Some err, c\<lparr>ec_logger := False\<rparr>)
           | None \<Rightarrow> (None, c\<lparr>ec_logger := True, ec_loggerConfig := Some copied, ec_loggerCore := False,
                            ec_loggerWriteSyncer := False\<rparr>)))"

definition setupLogging ::
  "(zap_Config \<Rightarrow> string option) \<Rightarrow> ('u, 'h, 'b) custom_builder \<Rightarrow> ('u, 'h, 'b) Config \<Rightarrow>
   embed_error option \<times> ('u, 'h, 'b) Config" where
  "setupLogging build custom cfg =
     (if ec_Logger cfg = ''zap'' then
        (let cfg = (case ec_ZapLoggerBuilder cfg of
                      None \<Rightarrow> cfg\<lparr>ec_ZapLoggerBuilder := Some (DefaultBuilder (logger_config cfg))\<rparr>
                    | Some b \<Rightarrow> cfg)
         in case run_builder build custom (the (ec_ZapLoggerBuilder cfg)) cfg of
              (Some err, cfg') \<Rightarrow> (Some (ErrZapBuild err), cfg')
            | (None, cfg') \<Rightarrow> (None, cfg'))
      else (Some (ErrUnknownLogger (ec_Logger cfg)), cfg))"

definition Validate ::
  "(zap_Config \<Rightarrow> string option) \<Rightarrow> ('u, 'h, 'b) custom_builder \<Rightarrow> ('u, 'h, 'b) Config \<Rightarrow>
   embed_error option \<times> ('u, 'h, 'b) Config" where
  "Validate build custom cfg =
     (case setupLogging build custom cfg of
        (Some err, cfg) \<Rightarrow> (Some err, cfg)
      | (None, cfg) \<Rightarrow> (None, cfg))"

section \<open>Derived settings\<close>

text \<open>The map, the token and the error of \<open>PeerURLsMapAndToken\<close>; a nil map is empty.\<close>

definition PeerURLsMapAndToken ::
  "'u url_ops \<Rightarrow> ((string, string list) gomap \<Rightarrow> (string, string list) gomap) \<Rightarrow> ('u, 'h, 'b) Config \<Rightarrow>
   ('u URLsMap \<times> string) \<times> url_error option" where
  "PeerURLsMapAndToken ops visit cfg =
     (if ec_Durl cfg \<noteq> [] then (([(ec_Name cfg, ec_APUrls cfg)], ec_Durl cfg), None)
      else if ec_DNSCluster cfg \<noteq> [] then (([], ec_InitialClusterToken cfg), None)
      else case NewURLsMap ops visit (ec_InitialCluster cfg) of
        Inl err \<Rightarrow> (([], ec_InitialClusterToken cfg), Some err)
      | Inr urlsmap \<Rightarrow> ((urlsmap, ec_InitialClusterToken cfg), None))"

definition IsNewCluster :: "('u, 'h, 'b) Config \<Rightarrow> bool" where
  "IsNewCluster cfg \<longleftrightarrow> ec_ClusterState cfg = ClusterStateFlagNew"

text \<open>Division by a zero tick panics.\<close>

definition embed_ElectionTicks :: "('u, 'h, 'b) Config \<Rightarrow> int option" where
  "embed_ElectionTicks cfg = (if ec_TickMs cfg = 0 then None else Some (sint (ec_ElectionMs cfg div ec_TickMs cfg)))"

definition defaultPeerHost :: "'u url_ops \<Rightarrow> ('u, 'h, 'b) Config \<Rightarrow> bool" where
  "defaultPeerHost ops cfg \<longleftrightarrow>
     (case ec_APUrls cfg of [u] \<Rightarrow> url_String ops u = DefaultInitialAdvertisePeerURLs | _ \<Rightarrow> False)"

definition defaultClientHost :: "'u url_ops \<Rightarrow> ('u, 'h, 'b) Config \<Rightarrow> bool" where
  "defaultClientHost ops cfg \<longleftrightarrow>
     (case ec_ACUrls cfg of [u] \<Rightarrow> url_String ops u = DefaultAdvertiseClientURLs | _ \<Rightarrow> False)"

definition ClientSelfCert ::
  "'u url_ops \<Rightarrow> ('c, 'k) cert_ops \<Rightarrow> ('u, 'h, 'b) Config \<Rightarrow> fsys \<Rightarrow>
   ((embed_error option \<times> ('u, 'h, 'b) Config) \<times> fsys) call_result option" where
  "ClientSelfCert ops certs cfg s =
     (if \<not> ec_ClientAutoTLS cfg then Some (Returned ((None, cfg), s))
      else if \<not> TLSInfo_Empty (ec_ClientTLSInfo cfg) then Some (Returned ((None, cfg), s))
      else
        do { r \<leftarrow> SelfCert certs (ec_logger cfg) (path_Join [ec_Dir cfg, ''fixtures'', ''client''])
                    (map (url_Host ops) (ec_LCUrls cfg)) [] s;
             Some (case r of
                     Returned ((err, info), s) \<Rightarrow>
                       (let cfg = cfg\<lparr>ec_ClientTLSInfo := info\<rparr> in
                        Returned ((case err of
                            Some e \<Rightarrow> Some (ErrSelfCert e)
                          | None \<Rightarrow> map_option ErrCipherSuites (updateCipherSuites info (ec_CipherSuites cfg)), cfg), s))
                   | Waits \<Rightarrow> Waits
                   | Panics \<Rightarrow> Panics) })"

definition PeerSelfCert :: "('u, 'h, 'b) Config \<Rightarrow> embed_error option" where
  "PeerSelfCert cfg = None"

text \<open>\<open>netutil.GetDefaultHost\<close> on Linux and elsewhere.\<close>

definition GetDefaultHost_linux :: "string \<times> string option" where
  "GetDefaultHost_linux = ([], None)"

definition GetDefaultHost_other :: "string \<Rightarrow> string \<times> string option" where
  "GetDefaultHost_other platform = ([], Some (''default host not supported on '' @ platform))"

text \<open>What \<open>UpdateDefaultClusterFromName\<close> uses of a URL beyond \<open>url_ops\<close>.\<close>

record 'u host_ops =
  url_Hostname :: "'u \<Rightarrow> string"
  url_Port :: "'u \<Rightarrow> string"
  url_of :: "string \<Rightarrow> string \<Rightarrow> 'u"

definition update_initial_cluster :: "'u url_ops \<Rightarrow> string \<Rightarrow> ('u, 'h, 'b) Config \<Rightarrow> ('u, 'h, 'b) Config" where
  "update_initial_cluster ops defaultInitialCluster cfg =
     (if ec_Name cfg \<noteq> DefaultName \<and> ec_InitialCluster cfg = defaultInitialCluster
      then cfg\<lparr>ec_InitialCluster := InitialClusterFromName ops (ec_Name cfg) cfg\<rparr> else cfg)"

definition advertised :: "'u url_ops \<Rightarrow> 'u host_ops \<Rightarrow> string \<Rightarrow> 'u \<Rightarrow> 'u \<Rightarrow> 'u" where
  "advertised ops hops host listen u = url_of hops (url_Scheme ops u) (host @ '':'' @ url_Port hops listen)"

text \<open>The result is the host and the error, and the changed configuration; indexing an empty list of listen
  URLs panics.\<close>

definition UpdateDefaultClusterFromName ::
  "'u url_ops \<Rightarrow> 'u host_ops \<Rightarrow> string \<times> string option \<Rightarrow> string \<Rightarrow> ('u, 'h, 'b) Config \<Rightarrow>
   ((string \<times> string option) \<times> ('u, 'h, 'b) Config) option" where
  "UpdateDefaultClusterFromName ops hops detected defaultInitialCluster cfg =
     (let (defaultHostname, defaultHostStatus) = detected in
      if defaultHostname = [] \<or> defaultHostStatus \<noteq> None
      then Some (([], defaultHostStatus), update_initial_cluster ops defaultInitialCluster cfg)
      else
        do { lp \<leftarrow> go_index (ec_LPUrls cfg) 0;
             let peer = defaultPeerHost ops cfg \<and> url_Hostname hops lp = ''0.0.0.0'';
             let cfg = (if peer
                        then cfg\<lparr>ec_APUrls := map (advertised ops hops defaultHostname lp) (ec_APUrls cfg)\<rparr> else cfg);
             let cfg = update_initial_cluster ops defaultInitialCluster cfg;
             lc \<leftarrow> go_index (ec_LCUrls cfg) 0;
             let client = defaultClientHost ops cfg \<and> url_Hostname hops lc = ''0.0.0.0'';
             let cfg = (if client
                        then cfg\<lparr>ec_ACUrls := map (advertised ops hops defaultHostname lc) (ec_ACUrls cfg)\<rparr> else cfg);
             Some ((if peer \<or> client then defaultHostname else [], defaultHostStatus), cfg) })"

definition getAPURLs :: "'u url_ops \<Rightarrow> ('u, 'h, 'b) Config \<Rightarrow> string list" where
  "getAPURLs ops cfg = map (url_String ops) (ec_APUrls cfg)"

definition getLPURLs :: "'u url_ops \<Rightarrow> ('u, 'h, 'b) Config \<Rightarrow> string list" where
  "getLPURLs ops cfg = map (url_String ops) (ec_LPUrls cfg)"

definition getACURLs :: "'u url_ops \<Rightarrow> ('u, 'h, 'b) Config \<Rightarrow> string list" where
  "getACURLs ops cfg = map (url_String ops) (ec_ACUrls cfg)"

definition getLCURLs :: "'u url_ops \<Rightarrow> ('u, 'h, 'b) Config \<Rightarrow> string list" where
  "getLCURLs ops cfg = map (url_String ops) (ec_LCUrls cfg)"

definition getMetricsURLs :: "'u url_ops \<Rightarrow> ('u, 'h, 'b) Config \<Rightarrow> string list" where
  "getMetricsURLs ops cfg = map (url_String ops) (ec_ListenMetricsUrls cfg)"

definition isMemberInitialized :: "('u, 'h, 'b) Config \<Rightarrow> fsys \<Rightarrow> bool" where
  "isMemberInitialized cfg s =
     wal_Exist (if ec_WalDir cfg = [] then path_Join [ec_Dir cfg, ''member'', ''wal''] else ec_WalDir cfg) s"

section \<open>Lemmas\<close>

lemma set_merge_paths: "set (merge_paths ps) = (if ''/dev/null'' \<in> set ps then {''/dev/null''} else set ps)"
  by (simp add: merge_paths_def Let_def)

text \<open>A second call builds the logger from the outputs of the first one.\<close>

lemma setupLogging_again:
  assumes "setupLogging build custom cfg = (None, cfg')" and "ec_ZapLoggerBuilder cfg = None"
  shows "ec_loggerConfig (snd (setupLogging build custom (cfg'\<lparr>ec_LogOutputs := outs, ec_Debug := d\<rparr>))) =
    Some (logger_config cfg)"
proof -
  have zap: "ec_Logger cfg = ''zap''" using assms(1) by (simp add: setupLogging_def split: if_splits)
  have ok: "build (logger_config cfg) = None"
    using assms zap by (cases "build (logger_config cfg)") (simp_all add: setupLogging_def run_builder_def)
  have "ec_ZapLoggerBuilder cfg' = Some (DefaultBuilder (logger_config cfg))" "ec_Logger cfg' = ''zap''"
    using assms zap ok by (auto simp: setupLogging_def run_builder_def)
  with ok show ?thesis by (simp add: setupLogging_def run_builder_def)
qed

lemma cluster_entries_join:
  "us \<noteq> [] \<Longrightarrow> cluster_entries ops n us ret = ret @ '','' @ join '','' (map (\<lambda>u. n @ ''='' @ url_String ops u) us)"
proof (induction us arbitrary: ret)
  case (Cons u us)
  then show ?case by (cases "us = []") auto
qed simp

lemma InitialClusterFromName_join:
  assumes "ec_APUrls cfg \<noteq> []"
  shows "InitialClusterFromName ops name cfg =
    join '','' (map (\<lambda>u. (if name = [] then DefaultName else name) @ ''='' @ url_String ops u) (ec_APUrls cfg))"
  using assms by (simp add: InitialClusterFromName_def cluster_entries_join Let_def)

lemma settings_cluster:
  assumes "us \<noteq> []" and "CHR '','' \<notin> set n" and "CHR ''='' \<notin> set n"
    and "\<forall>u \<in> set us. CHR '','' \<notin> set (url_String ops u)"
  shows "settings (join '','' (map (\<lambda>u. n @ ''='' @ url_String ops u) us)) = map (\<lambda>u. (n, url_String ops u)) us"
proof -
  have "split_on (CHR '','') (join '','' (map (\<lambda>u. n @ ''='' @ url_String ops u) us)) =
      map (\<lambda>u. n @ ''='' @ url_String ops u) us"
    using assms by (intro split_on_join) auto
  moreover have "setting (n @ ''='' @ v) = (n, v)" for v using assms(3) by (simp add: setting_def)
  ultimately show ?thesis by (simp add: settings_def comp_def)
qed

lemma append_same_key: "fold (\<lambda>(k, v). append_value k v) (map (\<lambda>u. (n, f u)) us) [(n, vs)] = [(n, vs @ map f us)]"
  by (induction us arbitrary: vs) (auto simp: append_value_def)

lemma parse_cluster:
  assumes "us \<noteq> []" and "settings s = map (\<lambda>u. (n, f u)) us"
  shows "URLsMap_parse s = [(n, map f us)]"
proof (cases us)
  case (Cons u us')
  have "append_value n (f u) [] = [(n, [f u])]" by (simp add: append_value_def)
  then show ?thesis using append_same_key [of n f us' "[f u]"] by (simp add: URLsMap_parse_def parse_loop_settings assms(2) Cons)
qed (use assms in simp)

lemma check_urls_strings:
  "\<forall>u \<in> set us. check_url ops (url_String ops u) = Inr u \<Longrightarrow> check_urls ops (map (url_String ops) us) = Inr us"
  by (induction us) auto

lemma NewURLsMap_of_name:
  assumes "ec_APUrls cfg \<noteq> []" and "CHR '','' \<notin> set name" and "CHR ''='' \<notin> set name"
    and "\<forall>u \<in> set (ec_APUrls cfg). check_url ops (url_String ops u) = Inr u \<and> CHR '','' \<notin> set (url_String ops u)"
    and "\<forall>m. mset (visit m) = mset m"
  shows "NewURLsMap ops visit (InitialClusterFromName ops name cfg) =
    Inr [(if name = [] then DefaultName else name, URLs_Sort ops (ec_APUrls cfg))]"
proof -
  define n where "n = (if name = [] then DefaultName else name)"
  have "CHR '','' \<notin> set DefaultName" "CHR ''='' \<notin> set DefaultName" by code_simp+
  then have n: "CHR '','' \<notin> set n" "CHR ''='' \<notin> set n" using assms(2,3) by (simp_all add: n_def)
  have "settings (InitialClusterFromName ops name cfg) = map (\<lambda>u. (n, url_String ops u)) (ec_APUrls cfg)"
    unfolding InitialClusterFromName_join [OF assms(1)] n_def [symmetric]
    using assms(4) by (intro settings_cluster [OF assms(1) n]) simp
  from parse_cluster [OF assms(1) this]
  have p: "URLsMap_parse (InitialClusterFromName ops name cfg) = [(n, map (url_String ops) (ec_APUrls cfg))]" .
  have "mset (visit [(n, map (url_String ops) (ec_APUrls cfg))]) = {#(n, map (url_String ops) (ec_APUrls cfg))#}"
    using assms(5) by simp
  then have "visit [(n, map (url_String ops) (ec_APUrls cfg))] = [(n, map (url_String ops) (ec_APUrls cfg))]"
    by simp
  moreover have "NewURLs ops (map (url_String ops) (ec_APUrls cfg)) = Inr (URLs_Sort ops (ec_APUrls cfg))"
    using assms(1,4) check_urls_strings [of "ec_APUrls cfg" ops] by (simp add: NewURLs_def)
  ultimately show ?thesis using p by (simp add: NewURLsMap_def n_def)
qed

section \<open>Properties\<close>

text \<open>C23: The initial cluster that a configuration derives from its name and its advertised peer URLs parses back
  to a cluster of exactly this member with these URLs in sorted order, under the configured token. The
  name must contain neither a comma nor an equals sign, an empty name stands for the default one, and
  the URLs must print as texts that parse to them again.\<close>

theorem initial_cluster_round_trip:
  assumes "ec_Durl cfg = []" and "ec_DNSCluster cfg = []" and "ec_APUrls cfg \<noteq> []"
    and "CHR '','' \<notin> set name" and "CHR ''='' \<notin> set name"
    and "\<forall>u \<in> set (ec_APUrls cfg). check_url ops (url_String ops u) = Inr u \<and> CHR '','' \<notin> set (url_String ops u)"
    and "\<forall>m. mset (visit m) = mset m"
  shows "PeerURLsMapAndToken ops visit (cfg\<lparr>ec_InitialCluster := InitialClusterFromName ops name cfg\<rparr>) =
    (([(if name = [] then DefaultName else name, URLs_Sort ops (ec_APUrls cfg))], ec_InitialClusterToken cfg), None)"
  using NewURLsMap_of_name [OF assms(3-7)] assms(1,2) by (simp add: PeerURLsMapAndToken_def)

text \<open>The default configuration over plain URLs, for examples.\<close>

definition default_config :: "(string, unit, unit) Config" where
  "default_config = the (NewConfig plain_urls 10)"

lemma default_config_fields:
  "ec_Durl default_config = []" "ec_DNSCluster default_config = []" "ec_APUrls default_config = [''http://localhost:2380'']"
  "ec_InitialClusterToken default_config = ''etcd-cluster''" "ec_Name default_config = ''default''"
  "ec_InitialCluster default_config = ''default=http://localhost:2380''"
  by code_simp+

theorem initial_cluster_round_trip_witness:
  "PeerURLsMapAndToken plain_urls rev
     (default_config\<lparr>ec_InitialCluster := InitialClusterFromName plain_urls ''n1'' default_config\<rparr>) =
   (([(''n1'', [''http://localhost:2380''])], ''etcd-cluster''), None)"
proof -
  have "check_url plain_urls (url_String plain_urls ''http://localhost:2380'') = Inr ''http://localhost:2380'' \<and>
      CHR '','' \<notin> set (url_String plain_urls ''http://localhost:2380'')"
    by code_simp
  then show ?thesis
    using initial_cluster_round_trip [of default_config "''n1''" plain_urls rev]
    by (simp add: default_config_fields URLs_Sort_def)
qed

end
