(* ===== verification/Embed_Etcd.thy ===== *)
theory Embed_Etcd
  imports Embed_Config
begin

text \<open>
  \<open>embed/etcd.go\<close> and \<open>embed/serve.go\<close>: the listeners of an embedded server, the contexts that serve them, and
  the start of the server.

  \<open>proc_result\<close> is what a call does to the process: it goes on, exits, panics, or waits for ever. What
  \<open>StartEtcd\<close> calls outside the modelled packages is the record \<open>embed_env\<close>. gRPC and HTTP servers are
  represented by what they are attached to. Log output is left out.
\<close>

datatype 'a proc_result = Runs 'a | Exits int | Crashes | Hangs

fun proc_bind :: "'a proc_result \<Rightarrow> ('a \<Rightarrow> 'b proc_result) \<Rightarrow> 'b proc_result" where
  "proc_bind (Runs a) f = f a"
| "proc_bind (Exits n) f = Exits n"
| "proc_bind Crashes f = Crashes"
| "proc_bind Hangs f = Hangs"

definition proc_of :: "'a call_result \<Rightarrow> 'a proc_result" where
  "proc_of r = (case r of Returned a \<Rightarrow> Runs a | Waits \<Rightarrow> Hangs | Panics \<Rightarrow> Crashes)"

definition proc_option :: "'a option \<Rightarrow> 'a proc_result" where
  "proc_option r = (case r of Some a \<Rightarrow> Runs a | None \<Rightarrow> Crashes)"

lemma proc_bind_Runs: "proc_bind r f = Runs b \<longleftrightarrow> (\<exists>a. r = Runs a \<and> f a = Runs b)"
  by (cases r) auto

section \<open>Serve contexts\<close>

record 'h serveCtx =
  sx_lg :: bool
  sx_l :: "listener option"
  sx_addr :: string
  sx_network :: string
  sx_secure :: bool
  sx_insecure :: bool
  sx_userHandlers :: "(string, 'h) gomap"
  sx_serviceRegister :: "'h option"
  sx_serversC :: nat
  sx_serversC_closed :: bool

definition newServeCtx :: "bool \<Rightarrow> 'h serveCtx" where
  "newServeCtx lg = \<lparr>sx_lg = lg, sx_l = None, sx_addr = [], sx_network = [], sx_secure = False, sx_insecure = False,
     sx_userHandlers = [], sx_serviceRegister = None, sx_serversC = 0, sx_serversC_closed = False\<rparr>"

definition registerUserHandler :: "string \<Rightarrow> 'h \<Rightarrow> 'h serveCtx \<Rightarrow> 'h serveCtx" where
  "registerUserHandler s h sctx =
     (if map_of (sx_userHandlers sctx) s \<noteq> None then sctx
      else sctx\<lparr>sx_userHandlers := AList.update s h (sx_userHandlers sctx)\<rparr>)"

definition HTTPPrefixPProf :: string where
  "HTTPPrefixPProf = ''/debug/pprof''"

text \<open>The handlers of \<open>net/http/pprof\<close> are given by name.\<close>

definition PProfHandlers :: "(string \<Rightarrow> 'h) \<Rightarrow> (string, 'h) gomap" where
  "PProfHandlers pprof =
     map (\<lambda>(p, h). (HTTPPrefixPProf @ p, pprof h))
       [(''/'', ''Index''), (''/profile'', ''Profile''), (''/symbol'', ''Symbol''), (''/cmdline'', ''Cmdline''),
        (''/trace '', ''Trace''), (''/heap'', ''heap''), (''/goroutine'', ''goroutine''),
        (''/threadcreate'', ''threadcreate''), (''/block'', ''block''), (''/mutex'', ''mutex'')]"

definition registerPprof :: "(string \<Rightarrow> 'h) \<Rightarrow> 'h serveCtx \<Rightarrow> 'h serveCtx" where
  "registerPprof pprof sctx = fold (\<lambda>(p, h). registerUserHandler p h) (PProfHandlers pprof) sctx"

definition registerTrace :: "(string \<Rightarrow> 'h) \<Rightarrow> 'h serveCtx \<Rightarrow> 'h serveCtx" where
  "registerTrace trace sctx =
     registerUserHandler ''/debug/events'' (trace ''RenderEvents'')
       (registerUserHandler ''/debug/requests'' (trace ''Render'') sctx)"

text \<open>\<open>http.ServeMux.Handle\<close> panics for an empty or a repeated pattern.\<close>

definition mux_Handle :: "string \<Rightarrow> 'r \<Rightarrow> (string, 'r) gomap \<Rightarrow> (string, 'r) gomap option" where
  "mux_Handle pattern h m = (if pattern = [] \<or> map_of m pattern \<noteq> None then None else Some (m @ [(pattern, h)]))"

fun mux_all :: "(string \<times> 'r) list \<Rightarrow> (string, 'r) gomap \<Rightarrow> (string, 'r) gomap option" where
  "mux_all [] m = Some m"
| "mux_all ((p, h) # hs) m = do { m' \<leftarrow> mux_Handle p h m; mux_all hs m' }"

definition createMux :: "'h option \<Rightarrow> 'h option \<Rightarrow> 'h serveCtx \<Rightarrow> (string, 'h) gomap option" where
  "createMux gwmux handler sctx =
     do { m \<leftarrow> mux_all (sx_userHandlers sctx) [];
          m \<leftarrow> (case gwmux of None \<Rightarrow> Some m | Some g \<Rightarrow> mux_Handle ''/v3/'' g m);
          (case handler of None \<Rightarrow> Some m | Some h \<Rightarrow> mux_Handle ''/'' h m) }"

text \<open>\<open>grpcHandlerFunc\<close>: whether the gRPC server gets the request.\<close>

fun contains :: "string \<Rightarrow> string \<Rightarrow> bool" where
  "contains [] sub = (sub = [])"
| "contains (c # s) sub = (HasPrefix (c # s) sub \<or> contains s sub)"

definition grpcHandlerFunc :: "bool \<Rightarrow> nat \<Rightarrow> string \<Rightarrow> bool" where
  "grpcHandlerFunc otherHandler protoMajor contentType =
     (if \<not> otherHandler then True else protoMajor = 2 \<and> contains contentType ''application/grpc'')"

text \<open>The access controller answers \<open>OPTIONS\<close> itself and hands the rest to the multiplexer, under the current
  prefix.\<close>

datatype http_answer = StatusOK | MuxServes string

definition accessController_ServeHTTP :: "string \<Rightarrow> string \<Rightarrow> http_answer" where
  "accessController_ServeHTTP method path =
     (let path = (if HasPrefix path ''/v3beta/'' then replace_first ''/v3beta/'' ''/v3/'' path else path)
      in if method = ''OPTIONS'' then StatusOK else MuxServes path)"

text \<open>\<open>registerGateway\<close>: dialling and the registration of the handlers return errors.\<close>

definition gateway_addr :: "'h serveCtx \<Rightarrow> string" where
  "gateway_addr sctx = (if sx_network sctx = ''unix'' then ''unix://'' @ sx_addr sctx else sx_addr sctx)"

definition registerGateway ::
  "(string \<Rightarrow> string option) \<Rightarrow> (string \<Rightarrow> string option) list \<Rightarrow> 'h serveCtx \<Rightarrow> string option" where
  "registerGateway dial handlers sctx =
     (case dial (gateway_addr sctx) of
        Some err \<Rightarrow> Some err
      | None \<Rightarrow> fold (\<lambda>h r. case r of Some err \<Rightarrow> Some err | None \<Rightarrow> h (gateway_addr sctx)) handlers None)"

text \<open>What \<open>serve\<close> attaches to the multiplexed listener before it serves: a gRPC server for HTTP/2 and an
  HTTP server for HTTP/1, when the context is insecure. \<open>serversC\<close> holds two elements.\<close>

datatype service = GrpcOnHTTP2 | HttpOnHTTP1 | HttpOnAny

definition serve ::
  "(string \<Rightarrow> string option) \<Rightarrow> (string \<Rightarrow> string option) list \<Rightarrow> bool \<Rightarrow> 'h \<Rightarrow> 'h option \<Rightarrow> 'h serveCtx \<Rightarrow>
   ((string + service list) \<times> 'h serveCtx) proc_result" where
  "serve dial handlers enableGateway gw handler sctx =
     (if \<not> sx_insecure sctx then Runs (Inr [], sctx)
      else case (if enableGateway then registerGateway dial handlers sctx else None) of
        Some err \<Rightarrow> Runs (Inl err, sctx)
      | None \<Rightarrow>
          (case createMux (if enableGateway then Some gw else None) handler sctx of
             None \<Rightarrow> Crashes
           | Some m \<Rightarrow>
               if sx_serversC_closed sctx then Crashes
               else if sx_serversC sctx < 2
               then Runs (Inr [GrpcOnHTTP2, HttpOnHTTP1], sctx\<lparr>sx_serversC := sx_serversC sctx + 1\<rparr>)
               else Hangs))"

datatype stop_action = HttpShutdown | GrpcStop | GrpcGracefulStop

definition stopServers :: "bool \<Rightarrow> bool \<Rightarrow> stop_action list" where
  "stopServers secure graceful_in_time =
     (let shutdownNow = [HttpShutdown, GrpcStop] in
      if secure then shutdownNow
      else if graceful_in_time then [GrpcGracefulStop] else GrpcGracefulStop # shutdownNow)"

section \<open>Listeners\<close>

definition reservedInternalFDNum :: u64 where
  "reservedInternalFDNum = 150"

definition rafthttp_NewListener ::
  "listen_error \<Rightarrow> 'u url_ops \<Rightarrow> 'u \<Rightarrow> TLSInfo \<Rightarrow> world \<Rightarrow> (net_error + listener) \<times> world" where
  "rafthttp_NewListener lerr ops u tlsinfo w =
     NewTimeoutListener lerr (url_Host ops u) (url_Scheme ops u) tlsinfo ConnReadTimeout ConnWriteTimeout w"

text \<open>The loop of \<open>configurePeerListeners\<close>. The statement \<open>return nil, err\<close> sets the result \<open>peers\<close> to nil before
  the deferred function ranges over it, so that closes nothing. \<open>logger.Fatal\<close> exits.\<close>

fun peer_loop ::
  "listen_error \<Rightarrow> 'u url_ops \<Rightarrow> TLSInfo \<Rightarrow> 'u list \<Rightarrow> listener list \<Rightarrow> world \<Rightarrow> (net_error + listener list) \<times> world" where
  "peer_loop lerr ops tls [] peers w = (Inr peers, w)"
| "peer_loop lerr ops tls (u # us) peers w =
     (case rafthttp_NewListener lerr ops u tls w of
        (Inl err, w) \<Rightarrow> (Inl err, w)
      | (Inr l, w) \<Rightarrow> peer_loop lerr ops tls us (peers @ [l]) w)"

definition configurePeerListeners ::
  "listen_error \<Rightarrow> 'u url_ops \<Rightarrow> ('u, 'h, 'b) Config \<Rightarrow> world \<Rightarrow> ((embed_error + listener list) \<times> world) proc_result" where
  "configurePeerListeners lerr ops cfg w =
     (case updateCipherSuites (ec_PeerTLSInfo cfg) (ec_CipherSuites cfg) of
        Some ss \<Rightarrow> Runs (Inl (ErrCipherSuites ss), w)
      | None \<Rightarrow>
          if PeerSelfCert cfg \<noteq> None \<and> ec_logger cfg then Exits 1
          else (case peer_loop lerr ops (ec_PeerTLSInfo cfg) (ec_LPUrls cfg) [] w of
             (Inl err, w) \<Rightarrow> Runs (Inl (ErrNet err), w)
           | (Inr peers, w) \<Rightarrow> Runs (Inr peers, w)))"

definition is_secure :: "'u url_ops \<Rightarrow> 'u \<Rightarrow> bool" where
  "is_secure ops u \<longleftrightarrow> url_Scheme ops u = ''https'' \<or> url_Scheme ops u = ''unixs''"

definition listen_network :: "'u url_ops \<Rightarrow> 'u \<Rightarrow> string" where
  "listen_network ops u = (if url_Scheme ops u = ''unix'' \<or> url_Scheme ops u = ''unixs'' then ''unix'' else ''tcp'')"

definition listen_addr :: "'u url_ops \<Rightarrow> 'u \<Rightarrow> string" where
  "listen_addr ops u =
     (if url_Scheme ops u = ''unix'' \<or> url_Scheme ops u = ''unixs'' then url_Host ops u @ url_Path ops u
      else url_Host ops u)"

text \<open>The wrappers around a new socket: the limit on connections, when the limit on file descriptors can be
  read, and keep-alive for TCP. A limit that is too low ends the process when there is a logger.\<close>

definition limit_fds :: "u64 option \<Rightarrow> bool \<Rightarrow> listener \<Rightarrow> listener proc_result" where
  "limit_fds fdLimit lg l =
     (case fdLimit of
        None \<Rightarrow> Runs l
      | Some lim \<Rightarrow>
          if lim \<le> reservedInternalFDNum \<and> lg then Exits 1
          else proc_option (LimitListener l (sint (lim - reservedInternalFDNum))))"

definition register_handlers :: "(string \<Rightarrow> 'h) \<Rightarrow> ('u, 'h, 'b) Config \<Rightarrow> 'h serveCtx \<Rightarrow> 'h serveCtx" where
  "register_handlers debug cfg sctx =
     (let sctx = sctx\<lparr>sx_userHandlers := fold (\<lambda>(k, h). AList.update k h) (ec_UserHandlers cfg) (sx_userHandlers sctx),
                      sx_serviceRegister := ec_ServiceRegister cfg\<rparr>;
          sctx = (if ec_EnablePprof cfg \<or> ec_Debug cfg then registerPprof debug sctx else sctx)
      in if ec_Debug cfg then registerTrace debug sctx else sctx)"

type_synonym 'h serve_map = "(string, 'h serveCtx) gomap"

text \<open>The loop of \<open>configureClientListeners\<close> with the listeners that the deferred functions close, the last one
  first. A listener is in that list only after the wrappers succeeded.\<close>

fun client_loop ::
  "listen_error \<Rightarrow> 'u url_ops \<Rightarrow> (string \<Rightarrow> 'h) \<Rightarrow> u64 option \<Rightarrow> ('u, 'h, 'b) Config \<Rightarrow> 'u list \<Rightarrow>
   'h serve_map \<times> listener list \<times> world \<Rightarrow> (embed_error option \<times> 'h serve_map \<times> listener list \<times> world) proc_result" where
  "client_loop lerr ops debug fdLimit cfg [] st = Runs (None, st)"
| "client_loop lerr ops debug fdLimit cfg (u # us) (sctxs, deferred, w) =
     (if is_secure ops u \<and> TLSInfo_Empty (ec_ClientTLSInfo cfg)
      then Runs (Some (ErrClientTLS (url_String ops u)), sctxs, deferred, w)
      else
        (let network = listen_network ops u; addr = listen_addr ops u;
             sctx = (newServeCtx (ec_logger cfg))
               \<lparr>sx_network := network, sx_secure := is_secure ops u, sx_insecure := \<not> is_secure ops u\<rparr>
         in case map_of sctxs addr of
              Some oldctx \<Rightarrow>
                client_loop lerr ops debug fdLimit cfg us
                  (AList.update addr (oldctx\<lparr>sx_secure := sx_secure oldctx \<or> sx_secure sctx,
                                             sx_insecure := sx_insecure oldctx \<or> sx_insecure sctx\<rparr>) sctxs, deferred, w)
            | None \<Rightarrow>
                (case net_Listen lerr network addr w of
                   (Inl err, w) \<Rightarrow> Runs (Some (ErrNet err), sctxs, deferred, w)
                 | (Inr l, w) \<Rightarrow>
                     proc_bind (limit_fds fdLimit (ec_logger cfg) l) (\<lambda>l.
                       case (if network = ''tcp'' then NewKeepAliveListener l network (None :: unit tls_Config option) else Inr l) of
                         Inl err \<Rightarrow> Runs (Some (ErrNet err), sctxs, deferred, w)
                       | Inr l \<Rightarrow>
                           client_loop lerr ops debug fdLimit cfg us
                             (AList.update addr
                                (register_handlers debug cfg (sctx\<lparr>sx_addr := addr, sx_l := Some l\<rparr>)) sctxs,
                              l # deferred, w)))))"

definition close_all :: "listener list \<Rightarrow> world \<Rightarrow> world" where
  "close_all ls w = fold (\<lambda>l w. snd (listener_Close l w)) ls w"

definition configureClientListeners ::
  "listen_error \<Rightarrow> 'u url_ops \<Rightarrow> ('c, 'k) cert_ops \<Rightarrow> (string \<Rightarrow> 'h) \<Rightarrow> u64 option \<Rightarrow> ('u, 'h, 'b) Config \<Rightarrow> world \<Rightarrow>
   ((embed_error + 'h serve_map) \<times> ('u, 'h, 'b) Config \<times> world) proc_result" where
  "configureClientListeners lerr ops certs debug fdLimit cfg w =
     (case updateCipherSuites (ec_ClientTLSInfo cfg) (ec_CipherSuites cfg) of
        Some ss \<Rightarrow> Runs (Inl (ErrCipherSuites ss), cfg, w)
      | None \<Rightarrow>
          (case ClientSelfCert ops certs cfg (w_fs w) of
             None \<Rightarrow> Hangs
           | Some r \<Rightarrow>
               proc_bind (proc_of r) (\<lambda>((err, cfg), s).
                 let w = w\<lparr>w_fs := s\<rparr> in
                 if err \<noteq> None \<and> ec_logger cfg then Exits 1
                 else proc_bind (client_loop lerr ops debug fdLimit cfg (ec_LCUrls cfg) ([], [], w))
                   (\<lambda>(err, sctxs, deferred, w).
                      case err of
                        Some e \<Rightarrow> Runs (Inl e, cfg, close_all deferred w)
                      | None \<Rightarrow> Runs (Inr sctxs, cfg, w)))))"

section \<open>Lemmas on the client listeners\<close>

text \<open>The socket under the wrappers, and listeners whose \<open>Close\<close> does nothing but close it.\<close>

fun sock :: "listener \<Rightarrow> nat" where
  "sock (NetListener i network addr) = i"
| "sock (unixListener l) = sock l"
| "sock (rwTimeoutListener l wt rd) = sock l"
| "sock (keepaliveListener l) = sock l"
| "sock (tlsKeepaliveListener l) = sock l"
| "sock (limitListener l n) = sock l"

fun plain :: "listener \<Rightarrow> bool" where
  "plain (NetListener i network addr) = True"
| "plain (unixListener l) = False"
| "plain (rwTimeoutListener l wt rd) = plain l"
| "plain (keepaliveListener l) = plain l"
| "plain (tlsKeepaliveListener l) = plain l"
| "plain (limitListener l n) = plain l"

lemma plain_Close: "plain l \<Longrightarrow> w_open (snd (listener_Close l w)) = filter (\<lambda>i. i \<noteq> sock l) (w_open w)"
  by (induction l) (auto intro!: filter_True [symmetric])

lemma close_all_open:
  "\<forall>l \<in> set ls. plain l \<Longrightarrow> w_open (close_all ls w) = filter (\<lambda>i. i \<notin> sock ` set ls) (w_open w)"
proof (induction ls arbitrary: w)
  case (Cons l ls)
  then show ?case by (simp add: close_all_def plain_Close)
qed (simp add: close_all_def)

definition fd_limit_ok :: "u64 option \<Rightarrow> bool" where
  "fd_limit_ok fdLimit = (case fdLimit of None \<Rightarrow> True | Some lim \<Rightarrow> reservedInternalFDNum < lim \<and> lim < 2 ^ 63)"

lemma limit_fds_ok:
  assumes "fd_limit_ok fdLimit" and "plain l"
  shows "\<exists>l'. limit_fds fdLimit lg l = Runs l' \<and> sock l' = sock l \<and> plain l'"
proof (cases fdLimit)
  case (Some lim)
  have lim: "150 < lim" "lim < 2 ^ 63" using assms(1) Some by (simp_all add: fd_limit_ok_def reservedInternalFDNum_def)
  have "uint lim < 2 ^ 63" using lim(2) by (simp add: word_less_def)
  moreover have "uint (lim - 150) = uint lim - 150" using lim(1) by (simp add: uint_sub_if' word_less_def)
  moreover have "150 < uint lim" using lim(1) by (simp add: word_less_def)
  ultimately have "0 \<le> sint (lim - 150)" by (simp add: sint_small)
  then show ?thesis
    using lim assms(2) Some
    by (auto simp: limit_fds_def LimitListener_def proc_option_def reservedInternalFDNum_def)
qed (use assms(2) in \<open>simp add: limit_fds_def\<close>)

text \<open>The state of the loop after the URLs \<open>seen\<close>, started in the world \<open>w0\<close>.\<close>

definition ctx_ok :: "'u url_ops \<Rightarrow> 'u set \<Rightarrow> listener list \<Rightarrow> string \<Rightarrow> 'h serveCtx \<Rightarrow> bool" where
  "ctx_ok ops seen deferred addr sctx \<longleftrightarrow>
     (sx_secure sctx \<longleftrightarrow> (\<exists>u \<in> seen. listen_addr ops u = addr \<and> is_secure ops u)) \<and>
     (sx_insecure sctx \<longleftrightarrow> (\<exists>u \<in> seen. listen_addr ops u = addr \<and> \<not> is_secure ops u)) \<and>
     sx_addr sctx = addr \<and> (\<exists>l \<in> set deferred. sx_l sctx = Some l)"

definition loop_inv :: "'u url_ops \<Rightarrow> world \<Rightarrow> 'u set \<Rightarrow> 'h serve_map \<times> listener list \<times> world \<Rightarrow> bool" where
  "loop_inv ops w0 seen st = (case st of (sctxs, deferred, w) \<Rightarrow>
     distinct (map_keys sctxs) \<and> set (map_keys sctxs) = listen_addr ops ` seen \<and>
     (\<forall>addr sctx. map_of sctxs addr = Some sctx \<longrightarrow> ctx_ok ops seen deferred addr sctx) \<and>
     (\<forall>l \<in> set deferred. plain l) \<and> length deferred = length sctxs \<and> w_next w = w_next w0 + length deferred \<and>
     map sock deferred = rev [w_next w0..<w_next w] \<and> w_open w = map sock deferred @ w_open w0)"

lemma loop_inv_start: "loop_inv ops w {} ([], [], w)"
  by (simp add: loop_inv_def)

lemma loop_inv_merge:
  assumes "loop_inv ops w0 seen (sctxs, deferred, w)" and "map_of sctxs (listen_addr ops u) = Some old"
    and "new = old\<lparr>sx_secure := sx_secure old \<or> is_secure ops u, sx_insecure := sx_insecure old \<or> \<not> is_secure ops u\<rparr>"
  shows "loop_inv ops w0 (insert u seen) (AList.update (listen_addr ops u) new sctxs, deferred, w)"
proof -
  have key: "listen_addr ops u \<in> set (map_keys sctxs)" using assms(2) by (force dest: map_of_SomeD)
  have old: "ctx_ok ops seen deferred (listen_addr ops u) old" using assms(1,2) by (simp add: loop_inv_def)
  have "ctx_ok ops (insert u seen) deferred a c" if "map_of (AList.update (listen_addr ops u) new sctxs) a = Some c" for a c
  proof (cases "a = listen_addr ops u")
    case True
    then show ?thesis using that old by (auto simp: update_conv' ctx_ok_def assms(3))
  next
    case False
    then have "ctx_ok ops seen deferred a c" using that assms(1) by (simp add: update_conv' loop_inv_def)
    with False show ?thesis by (auto simp: ctx_ok_def)
  qed
  moreover have "length (AList.update (listen_addr ops u) new sctxs) = length sctxs"
    using key by (metis length_map update_keys)
  moreover have keys: "map_keys (AList.update (listen_addr ops u) new sctxs) = map_keys sctxs"
    using key by (simp add: update_keys)
  moreover have "insert (listen_addr ops u) (listen_addr ops ` seen) = listen_addr ops ` seen"
    using assms(1) key by (auto simp: loop_inv_def)
  ultimately show ?thesis using assms(1) unfolding loop_inv_def prod.case keys by simp
qed

lemma register_handlers_fields [simp]:
  "sx_secure (register_handlers debug cfg sctx) = sx_secure sctx"
  "sx_insecure (register_handlers debug cfg sctx) = sx_insecure sctx"
  "sx_addr (register_handlers debug cfg sctx) = sx_addr sctx"
  "sx_l (register_handlers debug cfg sctx) = sx_l sctx"
proof -
  have r: "sx_secure (registerUserHandler p h c) = sx_secure c" "sx_insecure (registerUserHandler p h c) = sx_insecure c"
    "sx_addr (registerUserHandler p h c) = sx_addr c" "sx_l (registerUserHandler p h c) = sx_l c" for p h and c :: "'h serveCtx"
    by (simp_all add: registerUserHandler_def)
  have f: "sx_secure (fold (\<lambda>(p, h). registerUserHandler p h) hs c) = sx_secure c"
    "sx_insecure (fold (\<lambda>(p, h). registerUserHandler p h) hs c) = sx_insecure c"
    "sx_addr (fold (\<lambda>(p, h). registerUserHandler p h) hs c) = sx_addr c"
    "sx_l (fold (\<lambda>(p, h). registerUserHandler p h) hs c) = sx_l c" for hs and c :: "'h serveCtx"
    by (induction hs arbitrary: c) (auto simp: r)
  show "sx_secure (register_handlers debug cfg sctx) = sx_secure sctx"
    "sx_insecure (register_handlers debug cfg sctx) = sx_insecure sctx"
    "sx_addr (register_handlers debug cfg sctx) = sx_addr sctx"
    "sx_l (register_handlers debug cfg sctx) = sx_l sctx"
    by (simp_all add: register_handlers_def registerPprof_def registerTrace_def Let_def r f)
qed

lemma loop_inv_listen:
  assumes inv: "loop_inv ops w0 seen (sctxs, deferred, w)" and new: "map_of sctxs (listen_addr ops u) = None"
    and l: "plain l" "sock l = w_next w"
    and c: "sx_secure sctx = is_secure ops u" "sx_insecure sctx = (\<not> is_secure ops u)" "sx_addr sctx = listen_addr ops u"
      "sx_l sctx = Some l"
  shows "loop_inv ops w0 (insert u seen)
    (AList.update (listen_addr ops u) sctx sctxs, l # deferred, w\<lparr>w_next := w_next w + 1, w_open := w_next w # w_open w\<rparr>)"
proof -
  have fresh: "listen_addr ops u \<notin> set (map_keys sctxs)" using new by (simp add: map_of_eq_None_iff)
  then have notin: "listen_addr ops u \<notin> listen_addr ops ` seen" using inv by (simp add: loop_inv_def)
  have keys: "map_keys (AList.update (listen_addr ops u) sctx sctxs) = map_keys sctxs @ [listen_addr ops u]"
    using fresh by (simp add: update_keys)
  then have len: "length (AList.update (listen_addr ops u) sctx sctxs) = length sctxs + 1"
    by (metis length_append_singleton length_map Suc_eq_plus1)
  have "ctx_ok ops (insert u seen) (l # deferred) a c"
    if "map_of (AList.update (listen_addr ops u) sctx sctxs) a = Some c" for a c
  proof (cases "a = listen_addr ops u")
    case True
    then show ?thesis using that c notin by (auto simp: update_conv' ctx_ok_def image_iff)
  next
    case False
    then have "ctx_ok ops seen deferred a c" using that inv by (simp add: update_conv' loop_inv_def)
    with False show ?thesis by (auto simp: ctx_ok_def)
  qed
  moreover have "set (map_keys sctxs @ [listen_addr ops u]) = listen_addr ops ` insert u seen"
    using inv by (simp add: loop_inv_def)
  moreover have "distinct (map_keys sctxs @ [listen_addr ops u])" using inv fresh by (simp add: loop_inv_def)
  ultimately show ?thesis using inv l len unfolding loop_inv_def prod.case keys by simp
qed

lemma client_loop_result:
  assumes "fd_limit_ok fdLimit" and "loop_inv ops w0 seen st"
  shows "\<exists>err st' seen'. client_loop lerr ops debug fdLimit cfg us st = Runs (err, st') \<and> loop_inv ops w0 seen' st' \<and>
    (err = None \<longrightarrow> seen' = seen \<union> set us) \<and> w_fs (snd (snd st')) = w_fs (snd (snd st)) \<and>
    ((\<forall>u \<in> set us. \<not> is_secure ops u) \<and> (\<forall>n a w. lerr n a w = None) \<longrightarrow> err = None)"
  using assms(2)
proof (induction us arbitrary: seen st)
  case Nil
  then show ?case by (cases st) auto
next
  case (Cons u us)
  obtain sctxs deferred w where st: "st = (sctxs, deferred, w)" by (cases st)
  note inv = Cons.prems [unfolded st]
  show ?case
  proof (cases "is_secure ops u \<and> TLSInfo_Empty (ec_ClientTLSInfo cfg)")
    case True
    with inv show ?thesis by (auto simp: st)
  next
    case False
    show ?thesis
    proof (cases "map_of sctxs (listen_addr ops u)")
      case (Some old)
      from Cons.IH [OF loop_inv_merge [OF inv Some refl]] False Some show ?thesis
        by (simp add: st Let_def newServeCtx_def) blast
    next
      case None
      show ?thesis
      proof (cases "lerr (listen_network ops u) (listen_addr ops u) w")
        case (Some e)
        with False None inv show ?thesis by (auto simp: st Let_def net_Listen_def)
      next
        case free: None
        let ?l = "NetListener (w_next w) (listen_network ops u) (listen_addr ops u)"
        let ?w = "w\<lparr>w_next := w_next w + 1, w_open := w_next w # w_open w\<rparr>"
        obtain l where l: "limit_fds fdLimit (ec_logger cfg) ?l = Runs l" "sock l = w_next w" "plain l"
          using limit_fds_ok [OF assms(1), of ?l] by auto
        define k where "k = (if listen_network ops u = ''tcp'' then keepaliveListener l else l)"
        have k: "plain k" "sock k = w_next w" using l by (simp_all add: k_def)
        define c where "c = register_handlers debug cfg
          ((newServeCtx (ec_logger cfg))\<lparr>sx_network := listen_network ops u, sx_secure := is_secure ops u,
             sx_insecure := \<not> is_secure ops u, sx_addr := listen_addr ops u, sx_l := Some k\<rparr>)"
        have "client_loop lerr ops debug fdLimit cfg (u # us) st =
            client_loop lerr ops debug fdLimit cfg us (AList.update (listen_addr ops u) c sctxs, k # deferred, ?w)"
          using False None free l(1)
          by (auto simp: st Let_def net_Listen_def NewKeepAliveListener_def k_def c_def newServeCtx_def)
        moreover have "loop_inv ops w0 (insert u seen) (AList.update (listen_addr ops u) c sctxs, k # deferred, ?w)"
          by (rule loop_inv_listen [OF inv None k]) (simp_all add: c_def)
        note Cons.IH [OF this]
        ultimately show ?thesis by (simp add: st) blast
      qed
    qed
  qed
qed

lemma close_deferred:
  assumes "loop_inv ops w0 seen (sctxs, deferred, w)" and "\<forall>i \<in> set (w_open w0). i < w_next w0"
  shows "w_open (close_all deferred w) = w_open w0"
proof -
  have m: "map sock deferred = rev [w_next w0..<w_next w]" and o: "w_open w = map sock deferred @ w_open w0"
    and p: "\<forall>l \<in> set deferred. plain l"
    using assms(1) by (simp_all add: loop_inv_def)
  have "sock ` set deferred = {w_next w0..<w_next w}" using arg_cong [OF m, of set] by simp
  moreover have "filter (\<lambda>i. i \<notin> {w_next w0..<w_next w}) (rev [w_next w0..<w_next w]) = []"
    by (simp add: filter_empty_conv)
  moreover have "filter (\<lambda>i. i \<notin> {w_next w0..<w_next w}) (w_open w0) = w_open w0"
    using assms(2) by (intro filter_True) auto
  ultimately show ?thesis by (simp add: close_all_open [OF p] o m)
qed

section \<open>The server\<close>

record embed_grpc =
  eg_enforcement_MinTime :: "int option"
  eg_keepalive :: "(int \<times> int) option"

text \<open>The options of the gRPC servers that \<open>serveClients\<close> starts.\<close>

definition grpc_options :: "('u, 'h, 'b) Config \<Rightarrow> embed_grpc" where
  "grpc_options cfg =
     \<lparr>eg_enforcement_MinTime = (if 0 < ec_GRPCKeepAliveMinTime cfg then Some (ec_GRPCKeepAliveMinTime cfg) else None),
      eg_keepalive = (if 0 < ec_GRPCKeepAliveInterval cfg \<and> 0 < ec_GRPCKeepAliveTimeout cfg
        then Some (ec_GRPCKeepAliveInterval cfg, ec_GRPCKeepAliveTimeout cfg) else None)\<rparr>"

text \<open>The configuration \<open>StartEtcd\<close> passes to the server; the number of ticks panics for a zero tick.\<close>

definition server_config ::
  "'u URLsMap \<Rightarrow> string \<Rightarrow> ('u, 'h, 'b) Config \<Rightarrow> ('u, TLSInfo) ServerConfig option" where
  "server_config urlsmap token cfg =
     do { ticks \<leftarrow> embed_ElectionTicks cfg;
          Some \<lparr>sc_Name = ec_Name cfg, sc_DiscoveryURL = ec_Durl cfg, sc_DiscoveryProxy = ec_Dproxy cfg,
            sc_ClientURLs = ec_ACUrls cfg, sc_PeerURLs = ec_APUrls cfg, sc_DataDir = ec_Dir cfg,
            sc_DedicatedWALDir = ec_WalDir cfg, sc_SnapshotCount = ec_SnapshotCount cfg,
            sc_SnapshotCatchUpEntries = ec_SnapshotCatchUpEntries cfg, sc_MaxSnapFiles = ec_MaxSnapFiles cfg,
            sc_MaxWALFiles = ec_MaxWalFiles cfg, sc_BackendBatchInterval = ec_BackendBatchInterval cfg,
            sc_BackendBatchLimit = ec_BackendBatchLimit cfg, sc_BackendFreelistType = [],
            sc_InitialPeerURLsMap = urlsmap, sc_InitialClusterToken = token, sc_NewCluster = IsNewCluster cfg,
            sc_PeerTLSInfo = ec_PeerTLSInfo cfg, sc_CORS = ec_CORS cfg, sc_HostWhitelist = ec_HostWhitelist cfg,
            sc_TickMs = ec_TickMs cfg, sc_ElectionTicks = ticks,
            sc_InitialElectionTickAdvance = ec_InitialElectionTickAdvance cfg, sc_BootstrapTimeout = 0,
            sc_AutoCompactionRetention = 0, sc_AutoCompactionMode = ec_AutoCompactionMode cfg,
            sc_QuotaBackendBytes = ec_QuotaBackendBytes cfg, sc_MaxTxnOps = ec_MaxTxnOps cfg,
            sc_MaxRequestBytes = ec_MaxRequestBytes cfg, sc_StrictReconfigCheck = ec_StrictReconfigCheck cfg,
            sc_ClientCertAuthEnabled = False, sc_AuthToken = ec_AuthToken cfg, sc_BcryptCost = ec_BcryptCost cfg,
            sc_InitialCorruptCheck = ec_InitialCorruptCheck cfg, sc_CorruptCheckTime = ec_CorruptCheckTime cfg,
            sc_PreVote = ec_PreVote cfg, sc_Logger = ec_logger cfg, sc_LoggerConfig = (ec_loggerConfig cfg \<noteq> None),
            sc_LoggerCore = ec_loggerCore cfg, sc_LoggerWriteSyncer = ec_loggerWriteSyncer cfg,
            sc_Debug = ec_Debug cfg, sc_ForceNewCluster = ec_ForceNewCluster cfg,
            sc_EnableLeaseCheckpoint = ec_EnableLeaseCheckpoint cfg, sc_LeaseCheckpointInterval = 0,
            sc_EnableGRPCGateway = ec_EnableGRPCGateway cfg\<rparr> }"

text \<open>\<open>Start\<close> of the server attaches the goroutines that adjust the ticks and publish the member.\<close>

definition server_Start ::
  "('v \<Rightarrow> 'v option) \<Rightarrow> ('u, 'tls, 'v, 'be, 'f) EtcdServer \<Rightarrow> ('u, 'tls, 'v, 'be, 'f) EtcdServer option" where
  "server_Start reparse s =
     do { s \<leftarrow> server_start reparse s;
          let (_, s) = goAttach s;
          let (_, s) = goAttach s;
          Some s }"

text \<open>What \<open>servePeers\<close> sets up for a peer listener: the servers behind the multiplexer, the read timeout of
  the HTTP server, and whether \<open>close\<close> stops the servers as secure ones. \<open>peerTLScfg\<close> stays nil.\<close>

record peerServer =
  ps_listener :: listener
  ps_addr :: string
  ps_services :: "service list"
  ps_ReadTimeout :: int
  ps_secure :: bool

text \<open>The goroutines of \<open>servePeers\<close> and \<open>serveClients\<close>, which give their error to \<open>errHandler\<close>.\<close>

datatype reporter = PeerServe string | ClientServe string

record ('u, 'h, 'b, 'srv) Etcd =
  et_Peers :: "listener list"
  et_peer_servers :: "peerServer list"
  et_sctxs :: "'h serve_map"
  et_Server :: "'srv option"
  et_cfg :: "('u, 'h, 'b) Config"
  et_stopc :: bool
  et_errc_cap :: nat
  et_errc :: "string list"
  et_reporters :: "reporter list"
  et_gopts :: "embed_grpc option"

definition servePeers :: "('u, 'h, 'b, 'srv) Etcd \<Rightarrow> ('u, 'h, 'b, 'srv) Etcd" where
  "servePeers e =
     e\<lparr>et_peer_servers := map (\<lambda>l. \<lparr>ps_listener = l, ps_addr = listener_Addr l, ps_services = [GrpcOnHTTP2, HttpOnAny],
         ps_ReadTimeout = 5 * 60 * 1000000000, ps_secure = False\<rparr>) (et_Peers e),
       et_reporters := et_reporters e @ map (\<lambda>l. PeerServe (listener_Addr l)) (et_Peers e)\<rparr>"

definition serveClients :: "('u, 'h, 'b, 'srv) Etcd \<Rightarrow> ('u, 'h, 'b, 'srv) Etcd" where
  "serveClients e =
     e\<lparr>et_gopts := Some (grpc_options (et_cfg e)),
       et_reporters := et_reporters e @ map (\<lambda>(addr, sctx). ClientServe addr) (et_sctxs e)\<rparr>"

record ('u, 'db, 'tx, 'e, 'h, 'b, 'c, 'k) embed_env =
  ee_server :: "('u, TLSInfo, 'db, 'tx, 'e) server_env"
  ee_parse_visit :: "(string, string list) gomap \<Rightarrow> (string, string list) gomap"
  ee_build :: "zap_Config \<Rightarrow> string option"
  ee_custom :: "('u, 'h, 'b) custom_builder"
  ee_listen :: listen_error
  ee_certs :: "('c, 'k) cert_ops"
  ee_tls_message :: "tls_error \<Rightarrow> string"
  ee_debug :: "string \<Rightarrow> 'h"
  ee_fdLimit :: "u64 option"
  ee_reparse :: "unit \<Rightarrow> unit option"

definition timeout_round_tripper :: "('c, 'k) cert_ops \<Rightarrow> (tls_error \<Rightarrow> string) \<Rightarrow> fsys \<Rightarrow> TLSInfo round_tripper" where
  "timeout_round_tripper certs msg s info dialtimeoutd rdtimeoutd wtimeoutd =
     (case NewTimeoutTransport certs s info dialtimeoutd rdtimeoutd wtimeoutd of Inl err \<Rightarrow> Some (msg err) | Inr tr \<Rightarrow> None)"

text \<open>The deferred function of \<open>StartEtcd\<close>: on an error it closes \<open>serversC\<close> of every context and calls \<open>Close\<close>,
  whose body is empty, so the sockets stay open.\<close>

definition Etcd_Close :: "('u, 'h, 'b, 'srv) Etcd \<Rightarrow> world \<Rightarrow> world" where
  "Etcd_Close e w = w"

definition start_failed :: "embed_error \<Rightarrow> ('u, 'h, 'b, 'srv) Etcd \<Rightarrow> world \<Rightarrow> ((embed_error + ('u, 'h, 'b, 'srv) Etcd) \<times> world) proc_result" where
  "start_failed err e w = Runs (Inl err, Etcd_Close e w)"

definition StartEtcd ::
  "('u, 'db, 'tx, 'e, 'h, 'b, 'c, 'k) embed_env \<Rightarrow> ('u, 'h, 'b) Config \<Rightarrow> world \<Rightarrow>
   ((embed_error + ('u, 'h, 'b, ('u, TLSInfo, unit, ('db, 'tx, unit) backend, 'f) EtcdServer) Etcd) \<times> world) proc_result" where
  "StartEtcd env inCfg w =
     (let ops = env_urls (ee_server env) in
      case Validate (ee_build env) (ee_custom env) inCfg of
        (Some err, _) \<Rightarrow> Runs (Inl err, w)
      | (None, cfg) \<Rightarrow>
          (let e = \<lparr>et_Peers = [], et_peer_servers = [], et_sctxs = [], et_Server = None, et_cfg = cfg, et_stopc = False,
                    et_errc_cap = 0, et_errc = [], et_reporters = [], et_gopts = None\<rparr>
           in proc_bind (configurePeerListeners (ee_listen env) ops cfg w) (\<lambda>(r, w).
              case r of
                Inl err \<Rightarrow> start_failed err e w
              | Inr peers \<Rightarrow>
                  proc_bind (configureClientListeners (ee_listen env) ops (ee_certs env) (ee_debug env) (ee_fdLimit env) cfg w)
                    (\<lambda>(r, cfg, w).
                       let e = e\<lparr>et_Peers := peers, et_cfg := cfg\<rparr> in
                       case r of
                         Inl err \<Rightarrow> start_failed err e w
                       | Inr sctxs \<Rightarrow>
                           (let e = e\<lparr>et_sctxs := sctxs\<rparr>;
                                ((urlsmap, token), err) =
                                  (if \<not> isMemberInitialized cfg (w_fs w) then PeerURLsMapAndToken ops (ee_parse_visit env) cfg
                                   else (([], []), None))
                            in case err of
                                 Some err \<Rightarrow> start_failed (ErrInitialCluster err) e w
                               | None \<Rightarrow>
                                   proc_bind (proc_option (server_config urlsmap token cfg)) (\<lambda>srvcfg.
                                     if \<not> ec_logger cfg then Crashes
                                     else
                                       proc_bind (proc_of (NewServer
                                           ((ee_server env)\<lparr>env_rt :=
                                              timeout_round_tripper (ee_certs env) (ee_tls_message env) (w_fs w)\<rparr>)
                                           srvcfg (w_fs w)))
                                         (\<lambda>(r, s).
                                            let w = w\<lparr>w_fs := s\<rparr> in
                                            case r of
                                              Inl err \<Rightarrow> start_failed (ErrNewServer err) e w
                                            | Inr srv \<Rightarrow>
                                                proc_bind (proc_option (server_Start (ee_reparse env) srv)) (\<lambda>srv.
                                                  Runs (Inr (serveClients (servePeers (e\<lparr>et_Server := Some srv,
                                                      et_errc_cap := length peers + 0 + 2 * length sctxs\<rparr>))), w)))))))))"

text \<open>\<open>errHandler\<close>: nothing is sent once the server stops; otherwise the send waits for a place in the channel.\<close>

definition errHandler :: "string \<Rightarrow> ('u, 'h, 'b, 'srv) Etcd \<Rightarrow> ('u, 'h, 'b, 'srv) Etcd proc_result" where
  "errHandler err e =
     (if et_stopc e then Runs e
      else if length (et_errc e) < et_errc_cap e then Runs (e\<lparr>et_errc := et_errc e @ [err]\<rparr>) else Hangs)"

section \<open>Lemmas on the start\<close>

lemma serve_fields [simp]:
  "et_Server (serveClients (servePeers e)) = et_Server e" "et_Peers (serveClients (servePeers e)) = et_Peers e"
  "et_sctxs (serveClients (servePeers e)) = et_sctxs e" "et_errc_cap (serveClients (servePeers e)) = et_errc_cap e"
  by (simp_all add: servePeers_def serveClients_def)

text \<open>As many errors are reported without waiting as \<open>errc\<close> holds. Every context has three goroutines that
  report, those of its two servers and the one of \<open>serve\<close>, but only two places.\<close>

lemma errHandler_fold:
  "fold (\<lambda>err r. proc_bind r (errHandler err)) errs (Runs e) =
     (if et_stopc e then Runs e
      else if length (et_errc e) + length errs \<le> et_errc_cap e \<or> errs = [] then Runs (e\<lparr>et_errc := et_errc e @ errs\<rparr>)
      else Hangs)"
proof -
  have hang: "fold (\<lambda>err r. proc_bind r (errHandler err)) es Hangs = Hangs" for es
    by (induction es) (simp_all add: errHandler_def)
  show ?thesis by (induction errs arbitrary: e) (auto simp: errHandler_def hang)
qed

definition with_logger :: "('u, 'h, 'b) Config \<Rightarrow> ('u, 'h, 'b) Config" where
  "with_logger cfg = cfg\<lparr>ec_ZapLoggerBuilder := Some (DefaultBuilder (logger_config cfg)), ec_logger := True,
     ec_loggerConfig := Some (logger_config cfg), ec_loggerCore := False, ec_loggerWriteSyncer := False\<rparr>"

lemma with_logger_fields [simp]:
  "ec_logger (with_logger cfg)" "ec_PeerTLSInfo (with_logger cfg) = ec_PeerTLSInfo cfg"
  "ec_ClientTLSInfo (with_logger cfg) = ec_ClientTLSInfo cfg" "ec_CipherSuites (with_logger cfg) = ec_CipherSuites cfg"
  "ec_LPUrls (with_logger cfg) = ec_LPUrls cfg" "ec_LCUrls (with_logger cfg) = ec_LCUrls cfg"
  "ec_ClientAutoTLS (with_logger cfg) = ec_ClientAutoTLS cfg" "ec_Name (with_logger cfg) = ec_Name cfg"
  "ec_Dir (with_logger cfg) = ec_Dir cfg" "ec_WalDir (with_logger cfg) = ec_WalDir cfg" "ec_Durl (with_logger cfg) = ec_Durl cfg"
  "ec_DNSCluster (with_logger cfg) = ec_DNSCluster cfg" "ec_InitialCluster (with_logger cfg) = ec_InitialCluster cfg"
  "ec_InitialClusterToken (with_logger cfg) = ec_InitialClusterToken cfg" "IsNewCluster (with_logger cfg) = IsNewCluster cfg"
  "ec_TickMs (with_logger cfg) = ec_TickMs cfg" "embed_ElectionTicks (with_logger cfg) = embed_ElectionTicks cfg"
  by (simp_all add: with_logger_def IsNewCluster_def embed_ElectionTicks_def)

lemma Validate_ok:
  assumes "ec_Logger cfg = ''zap''" and "ec_ZapLoggerBuilder cfg = None" and "build (logger_config cfg) = None"
  shows "Validate build custom cfg = (None, with_logger cfg)"
  using assms by (simp add: Validate_def setupLogging_def run_builder_def with_logger_def)

lemma peer_loop_ok:
  assumes "\<forall>u \<in> set us. url_Scheme ops u \<noteq> ''unix'' \<and> url_Scheme ops u \<noteq> ''unixs''" and "\<forall>n a w. lerr n a w = None"
    and "\<forall>i \<in> set (w_open w). i < w_next w"
  shows "\<exists>ps' w'. peer_loop lerr ops tls us ps w = (Inr ps', w') \<and> length ps' = length ps + length us \<and> w_fs w' = w_fs w \<and>
    length (w_open w') = length (w_open w) + length us \<and> (\<forall>i \<in> set (w_open w'). i < w_next w')"
  using assms(1,3)
proof (induction us arbitrary: ps w)
  case (Cons u us)
  let ?w = "w\<lparr>w_next := w_next w + 1, w_open := w_next w # w_open w\<rparr>"
  obtain l where "rafthttp_NewListener lerr ops u tls w = (Inr l, ?w)"
    using Cons.prems(1) assms(2)
    by (simp add: rafthttp_NewListener_def NewTimeoutListener_def newListener_def net_Listen_def wrapTLS_def)
  moreover have "\<forall>i \<in> set (w_open ?w). i < w_next ?w" using Cons.prems(2) by auto
  ultimately show ?case using Cons.IH [of ?w "ps @ [l]"] Cons.prems(1) by simp
qed auto

lemma client_listeners_ok:
  assumes "fd_limit_ok fdLimit" and "\<not> ec_ClientAutoTLS cfg" and "ec_CipherSuites cfg = []"
    and "\<forall>u \<in> set (ec_LCUrls cfg). \<not> is_secure ops u" and "\<forall>n a w. lerr n a w = None"
  shows "\<exists>sctxs w'. configureClientListeners lerr ops certs debug fdLimit cfg w = Runs (Inr sctxs, cfg, w') \<and>
    set (map_keys sctxs) = listen_addr ops ` set (ec_LCUrls cfg) \<and> w_fs w' = w_fs w \<and>
    length (w_open w') = length (w_open w) + card (listen_addr ops ` set (ec_LCUrls cfg))"
proof -
  let ?us = "ec_LCUrls cfg"
  obtain sctxs deferred w1 where
    run: "client_loop lerr ops debug fdLimit cfg ?us ([], [], w) = Runs (None, sctxs, deferred, w1)"
    and inv: "loop_inv ops w (set ?us) (sctxs, deferred, w1)" and fs: "w_fs w1 = w_fs w"
    using client_loop_result [OF assms(1) loop_inv_start, of lerr ops debug cfg ?us w] assms(4,5) by auto
  have "length sctxs = card (listen_addr ops ` set ?us)"
    using inv unfolding loop_inv_def prod.case by (metis distinct_card length_map)
  then have "set (map_keys sctxs) = listen_addr ops ` set ?us"
    "length (w_open w1) = length (w_open w) + card (listen_addr ops ` set ?us)"
    using inv by (simp_all add: loop_inv_def)
  moreover have "configureClientListeners lerr ops certs debug fdLimit cfg w = Runs (Inr sctxs, cfg, w1)"
    using assms(2,3) run
    by (simp add: configureClientListeners_def ClientSelfCert_def proc_of_def updateCipherSuites_def)
  ultimately show ?thesis using fs by blast
qed

lemma fresh_not_initialized:
  assumes "tree_wf s" and "ds \<noteq> []" and "\<forall>e \<in> set ds. path_elem e" and "ec_Dir cfg = rooted ds" and "ec_WalDir cfg = []"
    and "\<forall>k. below (True, ds) k \<longrightarrow> map_of (fs_nodes s) k = None"
  shows "\<not> isMemberInitialized cfg s"
proof -
  have e: "path_elem ''member''" "path_elem ''wal''" by code_simp+
  then have "path_Join [rooted ds, ''member'', ''wal''] = rooted (ds @ [''member'', ''wal''])"
    using clean_rooted [of "ds @ [''member'', ''wal'']"] assms(2,3) rooted_snoc [of "ds @ [''member'']"]
    by (simp add: path_Join_def rooted_snoc Let_def)
  moreover have "\<not> wal_Exist (rooted (ds @ [''member'', ''wal''])) s"
    by (rule no_wal_without_dir [OF assms(1)]) (use assms(3,6) e in \<open>auto simp: below_def\<close>)
  ultimately show ?thesis by (simp add: isMemberInitialized_def assms(4,5))
qed

lemma ticks_ok:
  assumes "0 < ec_TickMs cfg" and "ec_TickMs cfg \<le> ec_ElectionMs cfg" and "ec_ElectionMs cfg < 2 ^ 32"
  obtains t where "embed_ElectionTicks cfg = Some t" and "0 < t" and "0 \<le> wrap_int (sint (ec_TickMs cfg) * 1000000)"
proof -
  let ?t = "uint (ec_TickMs cfg)" and ?e = "uint (ec_ElectionMs cfg)"
  have b: "0 < ?t" "?t \<le> ?e" "?e < 2 ^ 32" using assms by (simp_all add: word_less_def word_le_def)
  have s: "sint x = uint x" if "uint x < 2 ^ 32" for x :: u64 using that by (intro sint_small) simp
  have q: "uint (ec_ElectionMs cfg div ec_TickMs cfg) = ?e div ?t" by (simp add: uint_div)
  have "?e div ?t \<le> ?e" using zdiv_mono2 [of ?e 1 ?t] b by simp
  then have "sint (ec_ElectionMs cfg div ec_TickMs cfg) = ?e div ?t" using s q b(3) by simp
  moreover have "0 < ?e div ?t" using b by (simp add: pos_imp_zdiv_pos_iff)
  moreover have "0 \<le> wrap_int (sint (ec_TickMs cfg) * 1000000)" using s [of "ec_TickMs cfg"] b by simp
  moreover have "embed_ElectionTicks cfg = Some (sint (ec_ElectionMs cfg div ec_TickMs cfg))"
    using assms(1) by (auto simp: embed_ElectionTicks_def)
  ultimately show thesis using that by simp
qed

lemma round_tripper_plain:
  "TLSInfo_Empty info \<Longrightarrow> timeout_round_tripper certs msg s info d r w = None"
  by (simp add: timeout_round_tripper_def NewTimeoutTransport_def NewTransport_def ClientConfig_def)

lemma openBackend_ok:
  assumes "\<forall>p oo. \<exists>db. bolt_Open ops p oo = Inr db"
  shows "\<exists>be. openBackend ops oo cfg = Returned be"
proof -
  obtain db where "bolt_Open ops p o' = Inr (db p o')" for p o' using assms by metis
  then show ?thesis
    by (simp add: openBackend_def server_newBackend_def Backend_Tx.newBackend_def Commit_def batchTx_Lock_def
        batchTx_commit_def batchTx_Unlock_def unsafeCommit_def readTx_Lock_def readTx_Unlock_def newBatchTxBuffered_def
        unlocked_def Let_def)
qed

lemma ClusterVersion_bind:
  assumes "\<forall>v. reparse v \<noteq> None"
  shows "Option.bind (ClusterVersion reparse s) (\<lambda>v. Some t) = Some t"
proof -
  have "ClusterVersion reparse s \<noteq> None"
    using assms by (auto simp: ClusterVersion_def cluster_Version_def split: option.splits)
  then show ?thesis by auto
qed

lemma server_Start_ok:
  assumes "\<forall>v. reparse v \<noteq> None"
  shows "\<exists>srv'. server_Start reparse srv = Some srv' \<and> es_id srv' = es_id srv \<and> es_r srv' = es_r srv \<and>
    es_cluster srv' = es_cluster srv \<and> es_readych srv' = es_readych srv \<and> es_stop srv' = Some False \<and> es_wg srv' = es_wg srv + 2"
  by (simp add: server_Start_def server_start_def goAttach_def Let_def ClusterVersion_bind [OF assms])

section \<open>Properties\<close>

text \<open>C21: Setting up the client listeners always ends, and binds one socket for each distinct address of the listen
  URLs, however often an address is given; a context serves securely exactly when an \<open>https\<close> or \<open>unixs\<close>
  URL has its address and insecurely exactly when another URL has it. When it fails, it has closed every
  socket it bound. The limit on file descriptors must be unknown or above the reserve, and automatic
  certificates off.\<close>

theorem client_listeners_result:
  assumes "\<forall>i \<in> set (w_open w). i < w_next w" and "fd_limit_ok fdLimit" and "\<not> ec_ClientAutoTLS cfg"
  shows "\<exists>r w'. configureClientListeners lerr ops certs debug fdLimit cfg w = Runs (r, cfg, w') \<and>
    (case r of
       Inl err \<Rightarrow> w_open w' = w_open w
     | Inr sctxs \<Rightarrow>
         distinct (map_keys sctxs) \<and> set (map_keys sctxs) = listen_addr ops ` set (ec_LCUrls cfg) \<and>
         length (w_open w') = length (w_open w) + card (listen_addr ops ` set (ec_LCUrls cfg)) \<and>
         (\<forall>addr sctx. map_of sctxs addr = Some sctx \<longrightarrow>
            sx_secure sctx = (\<exists>u \<in> set (ec_LCUrls cfg). listen_addr ops u = addr \<and> is_secure ops u) \<and>
            sx_insecure sctx = (\<exists>u \<in> set (ec_LCUrls cfg). listen_addr ops u = addr \<and> \<not> is_secure ops u) \<and>
            (\<exists>l. sx_l sctx = Some l \<and> sock l \<in> set (w_open w') \<and> sock l \<notin> set (w_open w))))"
proof -
  let ?us = "ec_LCUrls cfg"
  obtain err sctxs deferred w1 seen where
    run: "client_loop lerr ops debug fdLimit cfg ?us ([], [], w) = Runs (err, sctxs, deferred, w1)"
    and inv: "loop_inv ops w seen (sctxs, deferred, w1)" and seen: "err = None \<longrightarrow> seen = set ?us"
    using client_loop_result [OF assms(2) loop_inv_start, of lerr ops debug cfg ?us w] by (metis prod_cases3 Un_empty_left)
  show ?thesis
  proof (cases "updateCipherSuites (ec_ClientTLSInfo cfg) (ec_CipherSuites cfg)")
    case (Some ss)
    then show ?thesis by (simp add: configureClientListeners_def)
  next
    case None
    have eq: "configureClientListeners lerr ops certs debug fdLimit cfg w =
        (case err of Some e \<Rightarrow> Runs (Inl e, cfg, close_all deferred w1) | None \<Rightarrow> Runs (Inr sctxs, cfg, w1))"
      using None assms(3) run by (simp add: configureClientListeners_def ClientSelfCert_def proc_of_def)
    show ?thesis
    proof (cases err)
      case (Some e)
      then show ?thesis using eq close_deferred [OF inv assms(1)] by simp
    next
      case ok: None
      with seen have seen: "seen = set ?us" by simp
      have len: "length sctxs = card (listen_addr ops ` set ?us)"
        using inv unfolding loop_inv_def prod.case seen by (metis distinct_card length_map)
      have o: "w_open w1 = map sock deferred @ w_open w" and m: "map sock deferred = rev [w_next w..<w_next w1]"
        and d: "length deferred = length sctxs" "distinct (map_keys sctxs)" "set (map_keys sctxs) = listen_addr ops ` set ?us"
        and c: "\<And>addr sctx. map_of sctxs addr = Some sctx \<Longrightarrow> ctx_ok ops (set ?us) deferred addr sctx"
        using inv by (simp_all add: loop_inv_def seen)
      have fresh: "sock l \<in> set (w_open w1) \<and> sock l \<notin> set (w_open w)" if "l \<in> set deferred" for l
      proof -
        have "sock l \<in> set (map sock deferred)" using that by simp
        then show ?thesis using assms(1) unfolding o m by auto
      qed
      have "sx_secure sctx = (\<exists>u \<in> set ?us. listen_addr ops u = addr \<and> is_secure ops u) \<and>
          sx_insecure sctx = (\<exists>u \<in> set ?us. listen_addr ops u = addr \<and> \<not> is_secure ops u) \<and>
          (\<exists>l. sx_l sctx = Some l \<and> sock l \<in> set (w_open w1) \<and> sock l \<notin> set (w_open w))"
        if "map_of sctxs addr = Some sctx" for addr sctx
        using c [OF that] fresh unfolding ctx_ok_def by blast
      moreover have "length (w_open w1) = length (w_open w) + card (listen_addr ops ` set ?us)"
        using o d(1) len by simp
      ultimately show ?thesis using eq ok d(2,3) by simp
    qed
  qed
qed


text \<open>An environment for examples: every address can be bound, certificates are never asked for.\<close>

definition example_certs :: "(unit, unit) cert_ops" where
  "example_certs = \<lparr>X509KeyPair = (\<lambda>c k. None), CommonName = (\<lambda>c. []), VerifyHostname = (\<lambda>c h. False),
     rand_Int = Inr 1, GenerateKey = Inr (), CreateCertificate = (\<lambda>n us ips names k. Inr []),
     MarshalECPrivateKey = (\<lambda>k. Inr []), pem_Encode = (\<lambda>t b. b), host_of = id, is_IP = (\<lambda>h. False)\<rparr>"

definition example_embed_env :: "(string, nat, nat, string, unit, unit, unit, unit) embed_env" where
  "example_embed_env =
     \<lparr>ee_server = \<lparr>env_sha1 = example_sha1, env_urls = plain_urls, env_visit = rev,
        env_bolt = example_bolt\<lparr>bolt_Open := \<lambda>p oo. Inr 0\<rparr>, env_boltOpenOptions = boltOpenOptions_linux,
        env_enc = (\<lambda>m. Inr []), env_get = (\<lambda>u. Inl ''connection refused''), env_rt = (\<lambda>tls d r w. None),
        env_draws = (3, 5), env_now = 1600000000000000000, env_ceil_seconds = id\<rparr>,
      ee_parse_visit = rev, ee_build = (\<lambda>c. None), ee_custom = (\<lambda>b c. (None, c)), ee_listen = (\<lambda>n a w. None),
      ee_certs = example_certs, ee_tls_message = (\<lambda>e. []), ee_debug = (\<lambda>n. ()), ee_fdLimit = Some 1024,
      ee_reparse = Some\<rparr>"

definition empty_world :: world where
  "empty_world = \<lparr>w_fs = empty_fs, w_next = 0, w_open = []\<rparr>"

lemma example_fd_limit: "fd_limit_ok (Some 1024)"
  by (simp add: fd_limit_ok_def reservedInternalFDNum_def)

theorem client_listeners_result_witness:
  "\<exists>r w'. configureClientListeners (\<lambda>n a w. None) plain_urls example_certs (\<lambda>n. ()) (Some 1024)
      (default_config\<lparr>ec_LCUrls := [''http://a:1'', ''http://b:1'', ''http://a:1'']\<rparr>) empty_world =
      Runs (r, default_config\<lparr>ec_LCUrls := [''http://a:1'', ''http://b:1'', ''http://a:1'']\<rparr>, w') \<and>
    (case r of Inl err \<Rightarrow> w_open w' = [] | Inr sctxs \<Rightarrow> length (w_open w') = 2)"
proof -
  let ?c = "default_config\<lparr>ec_LCUrls := [''http://a:1'', ''http://b:1'', ''http://a:1'']\<rparr>"
  have c: "\<not> ec_ClientAutoTLS ?c" "card (listen_addr plain_urls ` set (ec_LCUrls ?c)) = 2" by code_simp+
  have w: "\<forall>i \<in> set (w_open empty_world). i < w_next empty_world" "w_open empty_world = []" by (simp_all add: empty_world_def)
  from client_listeners_result [OF w(1) example_fd_limit c(1), of "\<lambda>n a w. None" plain_urls example_certs "\<lambda>n. ()"]
  show ?thesis unfolding w(2) c(2)
    apply (elim exE conjE)
    subgoal for r w' by (intro exI [of _ r] exI [of _ w']) (cases r, simp_all)
    done
qed


end
