(* ===== verification/Http_Api.thy ===== *)
theory Http_Api
  imports Rpc_Errors Embed_Etcd
begin

text \<open>
  What the server answers over HTTP: \<open>etcdserver/api/v2error/error.go\<close>, \<open>etcdserver/api/etcdhttp\<close>, the handlers of
  \<open>etcdserver/api/rafthttp\<close>, \<open>version\<close>, and the grpc service with its gateway (\<open>etcdserver/api/v3rpc\<close>,
  \<open>etcdserver/etcdserverpb/rpc.pb.gw.go\<close>).

  Package \<open>net/http\<close> is modelled as far as the code uses it: the response a handler writes, and the choice
  of a handler by \<open>ServeMux\<close>. JSON encoding, the grpc client and the gateway's decoder are parameters.
\<close>

section \<open>Responses\<close>

record response =
  rs_Header :: "(string, string list) gomap"
  rs_status :: "int option"
  rs_body :: string

definition new_response :: response where
  "new_response = \<lparr>rs_Header = [], rs_status = None, rs_body = []\<rparr>"

definition Header_Set :: "string \<Rightarrow> string \<Rightarrow> response \<Rightarrow> response" where
  "Header_Set k v w = w\<lparr>rs_Header := AList.update k [v] (rs_Header w)\<rparr>"

definition Header_Add :: "string \<Rightarrow> string \<Rightarrow> response \<Rightarrow> response" where
  "Header_Add k v w =
     w\<lparr>rs_Header := AList.update k ((case map_of (rs_Header w) k of None \<Rightarrow> [] | Some vs \<Rightarrow> vs) @ [v]) (rs_Header w)\<rparr>"

text \<open>The first status is the one that is sent; a body without a status is sent with 200.\<close>

definition WriteHeader :: "int \<Rightarrow> response \<Rightarrow> response" where
  "WriteHeader code w = (case rs_status w of None \<Rightarrow> w\<lparr>rs_status := Some code\<rparr> | Some _ \<Rightarrow> w)"

definition Write :: "string \<Rightarrow> response \<Rightarrow> response" where
  "Write b w = (let w = WriteHeader 200 w in w\<lparr>rs_body := rs_body w @ b\<rparr>)"

definition http_Error :: "string \<Rightarrow> int \<Rightarrow> response \<Rightarrow> response" where
  "http_Error msg code w =
     Write (msg @ [CHR 0x0A])
       (WriteHeader code (Header_Set ''X-Content-Type-Options'' ''nosniff''
         (Header_Set ''Content-Type'' ''text/plain; charset=utf-8'' w)))"

definition http_NotFound :: "response \<Rightarrow> response" where
  "http_NotFound w = http_Error ''404 page not found'' 404 w"

section \<open>Errors of the v2 API\<close>

definition v2_errors :: "(int, string) gomap" where
  "v2_errors =
     [(100, ''Key not found''),
      (101, ''Compare failed''),
      (102, ''Not a file''),
      (103, ''Reached the max number of peers in the cluster''),
      (104, ''Not a directory''),
      (105, ''Key already exists''),
      (106, ''The prefix of given key is a keyword in etcd''),
      (107, ''Root is read only''),
      (108, ''Directory not empty''),
      (109, ''Peer address has existed''),
      (110, ''The request requires user authentication''),
      (200, ''Value is Required in POST form''),
      (201, ''PrevValue is Required in POST form''),
      (202, ''The given TTL in POST form is not a number''),
      (203, ''The given index in POST form is not a number''),
      (204, ''Value or TTL is required in POST form''),
      (205, ''The given timeout in POST form is not a number''),
      (206, ''Name is required in POST form''),
      (207, ''Index or value is required''),
      (208, ''Index and value cannot both be specified''),
      (209, ''Invalid field''),
      (210, ''Invalid POST form''),
      (211, ''Value provided on refresh''),
      (212, ''A TTL must be provided on refresh''),
      (300, ''Raft Internal Error''),
      (301, ''During Leader Election''),
      (400, ''watcher is cleared due to etcd recovery''),
      (401, ''The event in requested index is outdated and cleared''),
      (402, ''Standby Internal Error''),
      (403, ''Invalid active size''),
      (404, ''Standby remove delay''),
      (500, ''Client Internal Error'')]"

definition errorStatus :: "(int, int) gomap" where
  "errorStatus = [(100, 404), (102, 403), (108, 403), (110, 401), (101, 412), (105, 412), (300, 500), (301, 500)]"

record v2Error =
  ve_ErrorCode :: int
  ve_Message :: string
  ve_Cause :: string
  ve_Index :: u64

definition NewError :: "int \<Rightarrow> string \<Rightarrow> u64 \<Rightarrow> v2Error" where
  "NewError errorCode cause index =
     \<lparr>ve_ErrorCode = errorCode, ve_Message = (case map_of v2_errors errorCode of None \<Rightarrow> [] | Some m \<Rightarrow> m),
      ve_Cause = cause, ve_Index = index\<rparr>"

definition NewRequestError :: "int \<Rightarrow> string \<Rightarrow> v2Error" where
  "NewRequestError errorCode cause = NewError errorCode cause 0"

definition v2Error_Error :: "v2Error \<Rightarrow> string" where
  "v2Error_Error e = ve_Message e @ '' ('' @ ve_Cause e @ '')''"

definition StatusCode :: "v2Error \<Rightarrow> int" where
  "StatusCode e = (case map_of errorStatus (ve_ErrorCode e) of None \<Rightarrow> 400 | Some status \<Rightarrow> status)"

text \<open>\<open>json\<close> encodes the error, \<open>dec\<close> prints a number.\<close>

definition WriteTo :: "(v2Error \<Rightarrow> string) \<Rightarrow> (u64 \<Rightarrow> string) \<Rightarrow> v2Error \<Rightarrow> response \<Rightarrow> response" where
  "WriteTo json dec e w =
     Write (json e @ [CHR 0x0A])
       (WriteHeader (StatusCode e)
         (Header_Set ''Content-Type'' ''application/json'' (Header_Add ''X-Etcd-Index'' (dec (ve_Index e)) w)))"

text \<open>An error of another type is \<open>None\<close>.\<close>

definition isKeyNotFound :: "v2Error option \<Rightarrow> bool" where
  "isKeyNotFound err = (case err of None \<Rightarrow> False | Some e \<Rightarrow> ve_ErrorCode e = 100)"

section \<open>The choice of a handler\<close>

text \<open>\<open>cleanPath\<close>, \<open>match\<close>, \<open>shouldRedirect\<close> and \<open>Handler\<close> of \<open>http.ServeMux\<close>, for patterns without a host. A pattern that
  ends in a slash serves the paths below it; the longest such pattern is chosen.\<close>

definition ends_in_slash :: "string \<Rightarrow> bool" where
  "ends_in_slash p = (p \<noteq> [] \<and> last p = CHR ''/'')"

definition cleanPath :: "string \<Rightarrow> string" where
  "cleanPath p =
     (if p = [] then ''/''
      else let p = (if hd p = CHR ''/'' then p else CHR ''/'' # p); np = path_Clean p
           in if ends_in_slash p \<and> np \<noteq> ''/'' then np @ ''/'' else np)"

fun longest_prefix :: "(string, 'r) gomap \<Rightarrow> string \<Rightarrow> (string \<times> 'r) option" where
  "longest_prefix [] path = None"
| "longest_prefix ((p, h) # m) path =
     (case longest_prefix m path of
        Some (q, g) \<Rightarrow> if ends_in_slash p \<and> HasPrefix path p \<and> length q < length p then Some (p, h) else Some (q, g)
      | None \<Rightarrow> if ends_in_slash p \<and> HasPrefix path p then Some (p, h) else None)"

definition mux_match :: "(string, 'r) gomap \<Rightarrow> string \<Rightarrow> 'r option" where
  "mux_match m path =
     (case map_of m path of Some h \<Rightarrow> Some h | None \<Rightarrow> map_option snd (longest_prefix m path))"

definition shouldRedirect :: "(string, 'r) gomap \<Rightarrow> string \<Rightarrow> bool" where
  "shouldRedirect m path =
     (map_of m path = None \<and> path \<noteq> [] \<and> map_of m (path @ ''/'') \<noteq> None \<and> last path \<noteq> CHR ''/'')"

datatype 'r mux_target = Serve 'r | RedirectTo string | NoHandler

definition mux_handler :: "(string, 'r) gomap \<Rightarrow> string \<Rightarrow> 'r mux_target" where
  "mux_handler m path = (case mux_match m path of Some h \<Rightarrow> Serve h | None \<Rightarrow> NoHandler)"

definition mux_Handler :: "(string, 'r) gomap \<Rightarrow> string \<Rightarrow> string \<Rightarrow> 'r mux_target" where
  "mux_Handler m method path =
     (if method = ''CONNECT'' then if shouldRedirect m path then RedirectTo (path @ ''/'') else mux_handler m path
      else
        let p = cleanPath path in
        if shouldRedirect m p then RedirectTo (p @ ''/'')
        else if p \<noteq> path then RedirectTo p
        else mux_handler m path)"

section \<open>Handlers\<close>

definition version_Version :: string where
  "version_Version = ''3.3.0+git''"

definition version_Cluster :: "string \<Rightarrow> string" where
  "version_Cluster v =
     (let vs = split_on (CHR ''.'') v in
      if length vs \<le> 2 then v else vs ! 0 @ ''.'' @ vs ! 1)"

record Versions =
  ver_Server :: string
  ver_Cluster :: string

definition allowMethod :: "string \<Rightarrow> string \<Rightarrow> response \<Rightarrow> bool \<times> response" where
  "allowMethod method m w =
     (if m = method then (True, w) else (False, http_Error ''Method Not Allowed'' 405 (Header_Set ''Allow'' m w)))"

text \<open>When the versions cannot be encoded the body is empty.\<close>

definition serveVersion :: "(Versions \<Rightarrow> string option) \<Rightarrow> string \<Rightarrow> string \<Rightarrow> response \<Rightarrow> response" where
  "serveVersion json method clusterV w =
     (let (ok, w) = allowMethod method ''GET'' w in
      if \<not> ok then w
      else
        Write (case json \<lparr>ver_Server = version_Version, ver_Cluster = clusterV\<rparr> of Some b \<Rightarrow> b | None \<Rightarrow> [])
          (Header_Set ''Content-Type'' ''application/json'' w))"

text \<open>\<open>Version\<close> of the cluster panics when its version does not parse.\<close>

definition versionHandler ::
  "('v \<Rightarrow> 'v option) \<Rightarrow> ('v \<Rightarrow> string) \<Rightarrow> (Versions \<Rightarrow> string option) \<Rightarrow> ('v, 'b) RaftCluster \<Rightarrow> string \<Rightarrow> response \<Rightarrow> response option" where
  "versionHandler reparse show_version json c method w =
     (case cluster_Version reparse c of
        None \<Rightarrow> None
      | Some v \<Rightarrow>
          Some (serveVersion json method (case v of Some v \<Rightarrow> show_version v | None \<Rightarrow> ''not_decided'') w))"

datatype basic_handler = VersionHandler

definition HandleBasic :: "(string, basic_handler) gomap \<Rightarrow> (string, basic_handler) gomap option" where
  "HandleBasic mux = mux_Handle ''/version'' VersionHandler mux"

text \<open>The handler of the peers answers everything with 404; the raft handler it gets is not used.\<close>

datatype peer_handler = NotFoundHandler | PipelineHandler u64 u64

definition RaftPrefix :: string where
  "RaftPrefix = ''/raft''"

definition newPipelineHandler :: "u64 \<Rightarrow> u64 \<Rightarrow> peer_handler" where
  "newPipelineHandler localID cid = PipelineHandler localID cid"

definition Transport_Handler :: "('u, 'tls) Transport \<Rightarrow> (string, peer_handler) gomap option" where
  "Transport_Handler t = mux_Handle RaftPrefix (newPipelineHandler (tr_ID t) (tr_ClusterID t)) []"

definition RaftHandler :: "('u, 'tls, 'v, 'be, 'f) EtcdServer \<Rightarrow> (string, peer_handler) gomap option" where
  "RaftHandler s = Transport_Handler (es_transport s)"

text \<open>\<open>LeaseHandler\<close> returns nil with and without a lessor.\<close>

definition LeaseHandler :: "('u, 'tls, 'v, 'be, 'f) EtcdServer \<Rightarrow> peer_handler option" where
  "LeaseHandler s = None"

definition newPeerHandler ::
  "(string, peer_handler) gomap \<Rightarrow> peer_handler option \<Rightarrow> (string, peer_handler) gomap option" where
  "newPeerHandler raftHandler leaseHandler = mux_Handle ''/'' NotFoundHandler []"

definition NewPeerHandler :: "('u, 'tls, 'v, 'be, 'f) EtcdServer \<Rightarrow> (string, peer_handler) gomap option" where
  "NewPeerHandler s = do { raftHandler \<leftarrow> RaftHandler s; newPeerHandler raftHandler (LeaseHandler s) }"

section \<open>The grpc service\<close>

definition grpcOverheadBytes :: u64 where
  "grpcOverheadBytes = 512 * 1024"

definition maxStreams :: int where
  "maxStreams = 2 ^ 32 - 1"

definition maxSendBytes :: int where
  "maxSendBytes = 2 ^ 31 - 1"

text \<open>The header of the responses; ids are converted to signed numbers. A nil cluster panics.\<close>

record v3_header =
  hd_clusterID :: int
  hd_memberID :: int

definition newHeader :: "('u, 'tls, 'v, 'be, 'f) EtcdServer \<Rightarrow> v3_header option" where
  "newHeader s = do { c \<leftarrow> es_cluster s; Some \<lparr>hd_clusterID = sint (rc_cid c), hd_memberID = sint (es_id s)\<rparr> }"

record kvServer =
  ks_hdr :: v3_header
  ks_maxTxnOps :: u64

definition NewKVServer :: "('u, 'tls, 'v, 'be, 'f) EtcdServer \<Rightarrow> kvServer option" where
  "NewKVServer s = do { h \<leftarrow> newHeader s; Some \<lparr>ks_hdr = h, ks_maxTxnOps = sc_MaxTxnOps (es_Cfg s)\<rparr> }"

record quotaKVServer =
  qs_KVServer :: kvServer
  qs_q :: "Quota option"
  qs_id :: ID

definition NewQuotaKVServer :: "('u, 'tls, 'v, 'be, 'f) EtcdServer \<Rightarrow> quotaKVServer option" where
  "NewQuotaKVServer s =
     do { kv \<leftarrow> NewKVServer s; Some \<lparr>qs_KVServer = kv, qs_q = NewBackendQuota (es_Cfg s), qs_id = es_id s\<rparr> }"

text \<open>The options that later ones may override, and the registered service. Certificates and
  interceptors are left out.\<close>

record grpcServer =
  gr_MaxRecvMsgSize :: int
  gr_MaxSendMsgSize :: int
  gr_MaxConcurrentStreams :: int
  gr_gopts :: "embed_grpc option"
  gr_kv :: quotaKVServer

definition v3rpc_Server :: "embed_grpc option \<Rightarrow> ('u, 'tls, 'v, 'be, 'f) EtcdServer \<Rightarrow> grpcServer option" where
  "v3rpc_Server gopts s =
     do { kv \<leftarrow> NewQuotaKVServer s;
          Some \<lparr>gr_MaxRecvMsgSize = sint (sc_MaxRequestBytes (es_Cfg s) + grpcOverheadBytes),
                gr_MaxSendMsgSize = maxSendBytes, gr_MaxConcurrentStreams = maxStreams, gr_gopts = gopts, gr_kv = kv\<rparr> }"

section \<open>The gateway\<close>

text \<open>A handler of the gateway reads the body, decodes it into an empty request, where the end of the input is
  no error, and calls the grpc client.\<close>

datatype decode_error = DecodeEOF | DecodeErr string

definition invalid_argument :: "string \<Rightarrow> rpc_err" where
  "invalid_argument t = StatusErr InvalidArgument t"

definition gateway_request ::
  "'m \<Rightarrow> (string \<Rightarrow> 'm \<Rightarrow> 'm \<times> decode_error option) \<Rightarrow> ('m \<Rightarrow> rpc_err + 'r) \<Rightarrow> string + string \<Rightarrow> rpc_err + 'r" where
  "gateway_request zero decode call body =
     (case body of
        Inl berr \<Rightarrow> Inl (invalid_argument berr)
      | Inr bytes \<Rightarrow>
          (case decode bytes zero of
             (_, Some (DecodeErr t)) \<Rightarrow> Inl (invalid_argument t)
           | (protoReq, _) \<Rightarrow> call protoReq))"

definition request_KV_Put_0 ::
  "(string \<Rightarrow> PutRequest \<Rightarrow> PutRequest \<times> decode_error option) \<Rightarrow> (PutRequest \<Rightarrow> rpc_err + 'r) \<Rightarrow> string + string \<Rightarrow> rpc_err + 'r" where
  "request_KV_Put_0 decode client_Put body = gateway_request PutRequest_zero decode client_Put body"

datatype 'r gateway_answer = HTTPError rpc_err | ForwardResponse 'r

definition gateway_handle ::
  "(string + string \<Rightarrow> rpc_err option) \<Rightarrow> (string + string \<Rightarrow> rpc_err + 'r) \<Rightarrow> string + string \<Rightarrow> 'r gateway_answer" where
  "gateway_handle annotate request body =
     (case annotate body of
        Some err \<Rightarrow> HTTPError err
      | None \<Rightarrow> (case request body of Inl err \<Rightarrow> HTTPError err | Inr resp \<Rightarrow> ForwardResponse resp))"

datatype gateway_method = KV_Range | KV_Put

definition RegisterKVHandlerClient :: "(string \<times> string list \<times> gateway_method) list" where
  "RegisterKVHandlerClient = [(''POST'', [''v3'', ''kv'', ''range''], KV_Range), (''POST'', [''v3'', ''kv'', ''put''], KV_Put)]"

section \<open>A client's HTTP request\<close>

text \<open>The handlers behind the multiplexer of \<open>createMux\<close>.\<close>

datatype 'u client_handler = UserHandler 'u | GatewayProxy | BasicMux

datatype 'u client_answer = Answered response | ToGateway string | ToUser 'u | Redirected string

definition basic_answer ::
  "('v \<Rightarrow> 'v option) \<Rightarrow> ('v \<Rightarrow> string) \<Rightarrow> (Versions \<Rightarrow> string option) \<Rightarrow> ('v, 'b) RaftCluster \<Rightarrow> string \<Rightarrow> string \<Rightarrow>
   'u client_answer option" where
  "basic_answer reparse show_version json c method path =
     do { mux \<leftarrow> HandleBasic [];
          case mux_Handler mux method path of
            Serve VersionHandler \<Rightarrow> map_option Answered (versionHandler reparse show_version json c method new_response)
          | RedirectTo p \<Rightarrow> Some (Redirected p)
          | NoHandler \<Rightarrow> Some (Answered (http_NotFound new_response)) }"

definition client_http ::
  "('v \<Rightarrow> 'v option) \<Rightarrow> ('v \<Rightarrow> string) \<Rightarrow> (Versions \<Rightarrow> string option) \<Rightarrow> ('v, 'b) RaftCluster \<Rightarrow> bool \<Rightarrow>
   'u client_handler serveCtx \<Rightarrow> string \<Rightarrow> string \<Rightarrow> 'u client_answer option" where
  "client_http reparse show_version json c enableGateway sctx method path =
     do { m \<leftarrow> createMux (if enableGateway then Some GatewayProxy else None) (Some BasicMux) sctx;
          case accessController_ServeHTTP method path of
            StatusOK \<Rightarrow> Some (Answered (WriteHeader 200 new_response))
          | MuxServes p \<Rightarrow>
              (case mux_Handler m method p of
                 Serve (UserHandler u) \<Rightarrow> Some (ToUser u)
               | Serve GatewayProxy \<Rightarrow> Some (ToGateway p)
               | Serve BasicMux \<Rightarrow> basic_answer reparse show_version json c method p
               | RedirectTo q \<Rightarrow> Some (Redirected q)
               | NoHandler \<Rightarrow> Some (Answered (http_NotFound new_response))) }"

section \<open>Lemmas on routing\<close>

lemma mux_all_append:
  assumes "distinct (map fst hs)" and "\<forall>(p, h) \<in> set hs. p \<noteq> [] \<and> p \<notin> fst ` set m"
  shows "mux_all hs m = Some (m @ hs)"
  using assms
proof (induction hs arbitrary: m)
  case (Cons ph hs)
  obtain p h where ph: "ph = (p, h)" by (cases ph)
  have "mux_Handle p h m = Some (m @ [(p, h)])" using Cons.prems by (auto simp: ph mux_Handle_def map_of_eq_None_iff)
  moreover have "mux_all hs (m @ [(p, h)]) = Some ((m @ [(p, h)]) @ hs)"
    using Cons.prems by (intro Cons.IH) (auto simp: ph image_iff)
  ultimately show ?case by (simp add: ph)
qed simp

lemma longest_prefix_skip:
  "\<forall>(p, h) \<in> set xs. \<not> HasPrefix path p \<Longrightarrow> longest_prefix (xs @ ys) path = longest_prefix ys path"
  by (induction xs) (auto split: option.splits)

lemma HasPrefix_iff: "HasPrefix s p \<longleftrightarrow> (\<exists>t. s = p @ t)"
  unfolding HasPrefix_def by (metis append_eq_conv_conj append_take_drop_id)

text \<open>The longest pattern wins, in whatever order the patterns were added.\<close>

lemma longest_prefix_result:
  "case longest_prefix m path of
     Some (q, h) \<Rightarrow> (q, h) \<in> set m \<and> ends_in_slash q \<and> HasPrefix path q \<and>
       (\<forall>p g. (p, g) \<in> set m \<longrightarrow> ends_in_slash p \<longrightarrow> HasPrefix path p \<longrightarrow> length p \<le> length q)
   | None \<Rightarrow> \<forall>p g. (p, g) \<in> set m \<longrightarrow> \<not> (ends_in_slash p \<and> HasPrefix path p)"
proof (induction m)
  case (Cons x m)
  obtain p h where "x = (p, h)" by (cases x)
  with Cons show ?case by (cases "longest_prefix m path") (auto dest: less_imp_le order_trans split: prod.splits)
qed simp

lemma cleanPath_absolute: "\<exists>t. cleanPath q = CHR ''/'' # t"
proof (cases "q = []")
  case False
  define p where "p = (if hd q = CHR ''/'' then q else CHR ''/'' # q)"
  have "p = CHR ''/'' # tl p" using False by (cases q) (simp_all add: p_def)
  then obtain s where "p = CHR ''/'' # s" by blast
  then obtain t where t: "path_Clean p = CHR ''/'' # t" by (simp add: path_Clean_def Let_def)
  have "cleanPath q = (if ends_in_slash p \<and> path_Clean p \<noteq> ''/'' then path_Clean p @ ''/'' else path_Clean p)"
    using False by (simp add: cleanPath_def Let_def p_def)
  then show ?thesis by (simp add: t)
qed (simp add: cleanPath_def)

text \<open>The routes of a context whose own handlers are below \<open>/debug/\<close>, as those of \<open>registerPprof\<close> and
  \<open>registerTrace\<close> are.\<close>

definition debug_handlers :: "'h serveCtx \<Rightarrow> bool" where
  "debug_handlers sctx \<longleftrightarrow> distinct (map fst (sx_userHandlers sctx)) \<and>
     (\<forall>(p, h) \<in> set (sx_userHandlers sctx). HasPrefix p ''/debug/'')"

lemma createMux_routes:
  assumes "debug_handlers sctx"
  shows "createMux (Some g) (Some b) sctx = Some (sx_userHandlers sctx @ [(''/v3/'', g), (''/'', b)])"
proof -
  let ?hs = "sx_userHandlers sctx"
  have debug: "\<exists>t. p = ''/debug/'' @ t" if "(p, h) \<in> set ?hs" for p h
    using assms that by (auto simp: debug_handlers_def HasPrefix_iff)
  have "mux_all ?hs [] = Some ?hs"
    using assms debug by (subst mux_all_append) (force simp: debug_handlers_def)+
  moreover have "map_of ?hs ''/v3/'' = None" "map_of ?hs ''/'' = None"
    using debug by (force simp: map_of_eq_None_iff)+
  ultimately show ?thesis by (simp add: createMux_def mux_Handle_def)
qed

lemma debug_route_skipped:
  assumes "debug_handlers sctx" and "\<not> HasPrefix q ''/debug''"
  shows "map_of (sx_userHandlers sctx) q = None" "map_of (sx_userHandlers sctx) (q @ ''/'') = None"
    "\<forall>(p, h) \<in> set (sx_userHandlers sctx). \<not> HasPrefix q p"
proof -
  have debug: "HasPrefix p ''/debug/''" if "p \<in> fst ` set (sx_userHandlers sctx)" for p
    using assms(1) that by (auto simp: debug_handlers_def)
  have weaken: "HasPrefix q ''/debug''" if "HasPrefix q ''/debug/''" using that by (force simp: HasPrefix_iff)
  have slash: "HasPrefix q ''/debug''" if h: "HasPrefix (q @ ''/'') ''/debug/''"
  proof -
    from h obtain t where "q @ ''/'' = ''/debug'' @ (CHR ''/'' # t)" by (auto simp: HasPrefix_iff)
    then have "q = ''/debug'' @ butlast (CHR ''/'' # t)" by (metis butlast_append butlast_snoc list.distinct(1))
    then show ?thesis unfolding HasPrefix_iff by blast
  qed
  show "map_of (sx_userHandlers sctx) q = None" "map_of (sx_userHandlers sctx) (q @ ''/'') = None"
    using assms(2) debug weaken slash by (auto simp: map_of_eq_None_iff simp del: append_Cons)
  have "HasPrefix q ''/debug''" if "(p, h) \<in> set (sx_userHandlers sctx)" "HasPrefix q p" for p h
    using that debug [of p] by (force simp: HasPrefix_iff)
  then show "\<forall>(p, h) \<in> set (sx_userHandlers sctx). \<not> HasPrefix q p" using assms(2) by auto
qed

lemma client_mux_target:
  assumes "debug_handlers sctx" and "\<not> HasPrefix q ''/debug''" and "cleanPath q = q" and "method \<noteq> ''CONNECT''"
  shows "mux_Handler (sx_userHandlers sctx @ [(''/v3/'', g), (''/'', b)]) method q =
    (if HasPrefix q ''/v3/'' then Serve g else if q = ''/v3'' then RedirectTo ''/v3/'' else Serve b)"
proof -
  obtain t where q: "q = CHR ''/'' # t" using cleanPath_absolute [of q] assms(3) by auto
  note skip = debug_route_skipped [OF assms(1,2)]
  let ?m = "sx_userHandlers sctx @ [(''/v3/'', g), (''/'', b)]"
  have "shouldRedirect ?m q \<longleftrightarrow> q = ''/v3''"
    using skip(1,2) by (auto simp: shouldRedirect_def map_add_def q)
  moreover have "longest_prefix ?m q = Some (if HasPrefix q ''/v3/'' then (''/v3/'', g) else (''/'', b))"
    by (subst longest_prefix_skip [OF skip(3)]) (simp add: ends_in_slash_def q HasPrefix_def)
  then have "mux_match ?m q = Some (if HasPrefix q ''/v3/'' then g else b)"
    using skip(1) by (auto simp: mux_match_def map_add_def HasPrefix_def)
  moreover have "\<not> HasPrefix ''/v3'' ''/v3/''" by (simp add: HasPrefix_def)
  ultimately show ?thesis using assms(3,4) by (auto simp: mux_Handler_def mux_handler_def Let_def)
qed

section \<open>Properties\<close>


text \<open>C27: Raft never accepts a put that the grpc server would have refused for its size: the encoding of an
  accepted request is smaller than the limit on received messages by at least the overhead reserved for
  grpc, unless the configured limit is so large that adding the overhead wraps around.\<close>

theorem accepted_put_fits_grpc:
  assumes "kvServer_Put_begin now r s = Some (Inr p, s')" and "sc_MaxRequestBytes (es_Cfg s) < 2 ^ 62"
    and "v3rpc_Server gopts s = Some gs"
  shows "int (PutRequest_Size r) + 512 * 1024 \<le> gr_MaxRecvMsgSize gs"
proof -
  let ?M = "sc_MaxRequestBytes (es_Cfg s)" and ?r = "InternalRaftRequest_zero\<lparr>ir_Put := Some r\<rparr>"
  obtain h n where "int (length (proposal h ?r)) \<le> sint ?M" by (rule Put_accepted [OF assms(1)])
  moreover have "length (proposal h ?r) = InternalRaftRequest_Size (with_header h ?r)"
    by (simp add: proposal_def internal_request.size_exact)
  moreover have "PutRequest_Size r \<le> InternalRaftRequest_Size (with_header h ?r)"
    by (simp add: InternalRaftRequest_Size_def with_header_def message_size_def)
  ultimately have le: "int (PutRequest_Size r) \<le> sint ?M" by linarith
  have m: "uint ?M < 2 ^ 62" using assms(2) by (simp add: word_less_def)
  have "uint (?M + grpcOverheadBytes) = uint ?M + 512 * 1024"
    using m by (simp add: uint_word_ariths grpcOverheadBytes_def)
  then have "sint (?M + grpcOverheadBytes) = uint ?M + 512 * 1024" "sint ?M = uint ?M"
    using m by (simp_all add: sint_small)
  moreover have "gr_MaxRecvMsgSize gs = sint (?M + grpcOverheadBytes)"
    using assms(3) by (auto simp: v3rpc_Server_def bind_eq_Some_conv)
  ultimately show ?thesis using le by simp
qed


theorem accepted_put_fits_grpc_witness:
  "\<exists>(s0 :: (string, unit, unit, (nat, nat, unit) backend, unit) EtcdServer) p s' gs.
     kvServer_Put_begin 0 example_put s0 = Some (Inr p, s') \<and> v3rpc_Server None s0 = Some gs \<and>
     int (PutRequest_Size example_put) + 512 * 1024 \<le> gr_MaxRecvMsgSize gs"
proof -
  obtain s0 :: "(string, unit, unit, (nat, nat, unit) backend, unit) EtcdServer" where
    s0: "started 11 (env_now example_env) s0" "es_Cfg s0 = example_server_config" "getCommittedIndex s0 = 0"
    by (rule example_started)
  let ?s = "s0\<lparr>es_cluster := Some (NewCluster ''t'')\<rparr>"
  have st: "started 11 (env_now example_env) ?s" "getCommittedIndex ?s = 0"
    using s0(1,3) by (simp_all add: started_def getCommittedIndex_def)
  obtain p s' where p: "kvServer_Put_begin 0 example_put ?s = Some (Inr p, s')"
    by (rule example_accepted [OF st]) (simp add: s0(2) example_server_config_def)
  obtain gs where gs: "v3rpc_Server None ?s = Some gs"
    by (simp add: v3rpc_Server_def NewQuotaKVServer_def NewKVServer_def newHeader_def)
  have "sc_MaxRequestBytes (es_Cfg ?s) < 2 ^ 62" by (simp add: s0(2) example_server_config_def)
  from accepted_put_fits_grpc [OF p this gs] p gs show ?thesis by blast
qed

end
