(* ===== verification/Interrupts.thy ===== *)
theory Interrupts
  imports Etcd_Prelude "HOL-Library.Sublist"
begin

text \<open>
  \<open>pkg/osutil/interrupt_unix.go\<close>: the handlers that run when the process is told to stop, and the exit that
  waits for them.

  The state is that of the process: the registered handlers, \<open>interruptExitMu\<close>, the goroutines that
  \<open>HandleInterrupts\<close> started and the callers of \<open>Exit\<close>, each at its own place in the code. The sections under
  \<open>interruptRegisterMu\<close> neither wait nor are left in the middle, so each is one step. A handler is a label and
  \<open>pr_ran\<close> records the calls. Signals are delivered by package \<open>os/signal\<close>: to every channel that was given to
  \<open>Notify\<close> and not to \<open>Stop\<close>, without waiting for room in it; when there is none the process is killed.
\<close>

section \<open>State\<close>

datatype signal = SIGINT | SIGTERM

text \<open>The places of the goroutine: at the receive, with what its channel holds; at \<open>interruptExitMu.Lock\<close>, with
  its copy of the handlers; in the loop over the copy; after \<open>signal.Stop\<close>; at its end.\<close>

datatype 'h routine =
    AtReceive "signal option" | AtLock signal "'h list" | AtCall signal "'h list" nat | AtKill signal "'h list"
  | AtEnd "'h list"

text \<open>The places of \<open>Exit\<close>: at the lock and at \<open>os.Exit\<close>.\<close>

datatype exit_call = ExitLock int | ExitNow int

datatype ending = Exited int | Killed signal

record 'h process =
  pr_pid :: int
  pr_handlers :: "'h list"
  pr_exitMu :: bool
  pr_routines :: "'h routine list"
  pr_exits :: "exit_call list"
  pr_ran :: "'h list"
  pr_outcome :: "ending option"

definition started_process :: "int \<Rightarrow> 'h process" where
  "started_process pid =
     \<lparr>pr_pid = pid, pr_handlers = [], pr_exitMu = False, pr_routines = [], pr_exits = [], pr_ran = [], pr_outcome = None\<rparr>"

section \<open>Operations\<close>

definition RegisterInterruptHandler :: "'h \<Rightarrow> 'h process \<Rightarrow> 'h process" where
  "RegisterInterruptHandler h s = s\<lparr>pr_handlers := pr_handlers s @ [h]\<rparr>"

definition HandleInterrupts :: "'h process \<Rightarrow> 'h process" where
  "HandleInterrupts s = s\<lparr>pr_routines := pr_routines s @ [AtReceive None]\<rparr>"

definition osutil_Exit :: "int \<Rightarrow> 'h process \<Rightarrow> 'h process" where
  "osutil_Exit code s = s\<lparr>pr_exits := pr_exits s @ [ExitLock code]\<rparr>"

text \<open>Delivery of a signal. A goroutine past its receive reads its channel no more.\<close>

fun notified :: "'h routine \<Rightarrow> bool" where
  "notified (AtKill _ _) = False"
| "notified (AtEnd _) = False"
| "notified _ = True"

fun notify :: "signal \<Rightarrow> 'h routine \<Rightarrow> 'h routine" where
  "notify sig (AtReceive None) = AtReceive (Some sig)"
| "notify sig r = r"

definition deliver :: "signal \<Rightarrow> 'h process \<Rightarrow> 'h process" where
  "deliver sig s =
     (if \<exists>r \<in> set (pr_routines s). notified r then s\<lparr>pr_routines := map (notify sig) (pr_routines s)\<rparr>
      else s\<lparr>pr_outcome := Some (Killed sig)\<rparr>)"

text \<open>One step of goroutine \<open>i\<close> of \<open>HandleInterrupts\<close>; \<open>None\<close> when it has to wait, or has ended.\<close>

definition routine_step :: "nat \<Rightarrow> 'h process \<Rightarrow> 'h process option" where
  "routine_step i s =
     (case pr_routines s ! i of
        AtReceive None \<Rightarrow> None
      | AtReceive (Some sig) \<Rightarrow> Some (s\<lparr>pr_routines := (pr_routines s)[i := AtLock sig (pr_handlers s)]\<rparr>)
      | AtLock sig ihs \<Rightarrow>
          if pr_exitMu s then None
          else Some (s\<lparr>pr_exitMu := True, pr_routines := (pr_routines s)[i := AtCall sig ihs 0]\<rparr>)
      | AtCall sig ihs n \<Rightarrow>
          if n < length ihs
          then Some (s\<lparr>pr_ran := pr_ran s @ [ihs ! n], pr_routines := (pr_routines s)[i := AtCall sig ihs (n + 1)]\<rparr>)
          else Some (s\<lparr>pr_routines := (pr_routines s)[i := AtKill sig ihs]\<rparr>)
      | AtKill sig ihs \<Rightarrow>
          let s = s\<lparr>pr_routines := (pr_routines s)[i := AtEnd ihs]\<rparr>
          in Some (if pr_pid s = 1 then s\<lparr>pr_outcome := Some (Exited 0)\<rparr> else deliver sig s)
      | AtEnd _ \<Rightarrow> None)"

text \<open>One step of a call of \<open>Exit\<close>.\<close>

definition exit_step :: "nat \<Rightarrow> 'h process \<Rightarrow> 'h process option" where
  "exit_step i s =
     (case pr_exits s ! i of
        ExitLock code \<Rightarrow>
          if pr_exitMu s then None else Some (s\<lparr>pr_exitMu := True, pr_exits := (pr_exits s)[i := ExitNow code]\<rparr>)
      | ExitNow code \<Rightarrow> Some (s\<lparr>pr_outcome := Some (Exited code)\<rparr>))"

section \<open>Runs\<close>

inductive process_step :: "'h process \<Rightarrow> 'h process \<Rightarrow> bool" where
  step_register: "pr_outcome s = None \<Longrightarrow> process_step s (RegisterInterruptHandler h s)"
| step_handle: "pr_outcome s = None \<Longrightarrow> process_step s (HandleInterrupts s)"
| step_exit_call: "pr_outcome s = None \<Longrightarrow> process_step s (osutil_Exit code s)"
| step_signal: "pr_outcome s = None \<Longrightarrow> process_step s (deliver sig s)"
| step_routine: "pr_outcome s = None \<Longrightarrow> i < length (pr_routines s) \<Longrightarrow> routine_step i s = Some t \<Longrightarrow> process_step s t"
| step_exit: "pr_outcome s = None \<Longrightarrow> i < length (pr_exits s) \<Longrightarrow> exit_step i s = Some t \<Longrightarrow> process_step s t"

inductive_cases process_stepE: "process_step s t"

abbreviation process_run :: "int \<Rightarrow> 'h process \<Rightarrow> bool" where
  "process_run pid s \<equiv> process_step\<^sup>*\<^sup>* (started_process pid) s"

text \<open>The copy a goroutine has of the handlers, those of it that have been called, and whether it passed the lock.\<close>

fun copied :: "'h routine \<Rightarrow> 'h list" where
  "copied (AtReceive _) = []"
| "copied (AtLock _ ihs) = ihs"
| "copied (AtCall _ ihs _) = ihs"
| "copied (AtKill _ ihs) = ihs"
| "copied (AtEnd ihs) = ihs"

fun called :: "'h routine \<Rightarrow> 'h list" where
  "called (AtCall _ ihs n) = take n ihs"
| "called (AtKill _ ihs) = ihs"
| "called (AtEnd ihs) = ihs"
| "called _ = []"

fun passed :: "'h routine \<Rightarrow> bool" where
  "passed (AtReceive _) = False"
| "passed (AtLock _ _) = False"
| "passed _ = True"

fun exiting :: "exit_call \<Rightarrow> bool" where
  "exiting (ExitLock _) = False"
| "exiting (ExitNow _) = True"

text \<open>\<open>interruptExitMu\<close> is taken once: by one goroutine, whose calls are all the calls there are, or by one \<open>Exit\<close>.\<close>

definition holders :: "'h process \<Rightarrow> nat" where
  "holders s = length (filter passed (pr_routines s)) + length (filter exiting (pr_exits s))"

definition process_ok :: "'h process \<Rightarrow> bool" where
  "process_ok s \<longleftrightarrow>
     holders s = (if pr_exitMu s then 1 else 0) \<and>
     pr_ran s = concat (map called (pr_routines s)) \<and>
     (\<forall>r \<in> set (pr_routines s). prefix (copied r) (pr_handlers s)) \<and>
     (pr_outcome s \<noteq> None \<longrightarrow> (\<forall>r \<in> set (pr_routines s). passed r \<longrightarrow> \<not> notified r))"


section \<open>The invariant\<close>

lemma called_not_passed [simp]: "\<not> passed r \<Longrightarrow> called r = []"
  by (cases r) auto

lemma passed_notify [simp]: "passed (notify sig r) = passed r"
  by (cases "(sig, r)" rule: notify.cases) auto

lemma called_notify [simp]: "called (notify sig r) = called r"
  by (cases "(sig, r)" rule: notify.cases) auto

lemma copied_notify [simp]: "copied (notify sig r) = copied r"
  by (cases "(sig, r)" rule: notify.cases) auto

lemma notified_if_not_passed: "\<not> passed r \<Longrightarrow> notified r"
  by (cases r) auto

lemma called_finished [simp]: "\<not> notified r \<Longrightarrow> called r = copied r"
  by (cases r) auto

lemma prefix_called: "prefix (called r) (copied r)"
  by (cases r) (auto simp: take_is_prefix)

lemma none_called: "filter passed rs = [] \<Longrightarrow> concat (map called rs) = []"
  by (induction rs) (auto split: if_splits)

text \<open>A process with one goroutine singled out, and the step of that goroutine.\<close>

lemma routine_at:
  assumes "i < length (pr_routines s)"
  obtains us r vs where "pr_routines s = us @ r # vs" "i = length us"
  using assms id_take_nth_drop [of i "pr_routines s"] that [of "take i (pr_routines s)" "pr_routines s ! i"] by auto

lemma deliver_ok:
  assumes "process_ok s" "pr_outcome s = None"
  shows "process_ok (deliver sig s)"
proof -
  have "filter passed (map (notify sig) rs) = map (notify sig) (filter passed rs)" for rs :: "'a routine list"
    by (induction rs) auto
  moreover have "concat (map called (map (notify sig) rs)) = concat (map called rs)" for rs :: "'a routine list"
    by (induction rs) auto
  ultimately show ?thesis using assms by (auto simp: process_ok_def deliver_def holders_def)
qed

lemma routine_step_ok:
  assumes ok: "process_ok s" and running: "pr_outcome s = None"
    and i: "i < length (pr_routines s)" and step: "routine_step i s = Some t"
  shows "process_ok t"
proof -
  obtain us r vs where rs: "pr_routines s = us @ r # vs" and i_us: "i = length us" using i by (rule routine_at)
  have alone: "filter passed us = [] \<and> filter passed vs = [] \<and> filter exiting (pr_exits s) = []" if "passed r"
    using ok that by (auto simp: process_ok_def holders_def rs split: if_splits)
  note parts = ok running rs i_us step
  show ?thesis
  proof (cases r)
    case (AtReceive c)
    then show ?thesis using parts by (auto simp: routine_step_def process_ok_def holders_def split: option.splits)
  next
    case (AtLock sig ihs)
    then show ?thesis using parts by (auto simp: routine_step_def process_ok_def holders_def none_called split: if_splits)
  next
    case (AtCall sig ihs n)
    then have none: "concat (map called us) = []" "concat (map called vs) = []" using alone none_called by auto
    show ?thesis
    proof (cases "n < length ihs")
      case True
      have "t = s\<lparr>pr_ran := pr_ran s @ [ihs ! n], pr_routines := us @ AtCall sig ihs (n + 1) # vs\<rparr>"
        using parts AtCall True by (simp add: routine_step_def)
      moreover have "called (AtCall sig ihs (n + 1)) = called r @ [ihs ! n]"
        using AtCall True by (simp add: take_Suc_conv_app_nth)
      ultimately show ?thesis using parts(1,2,3) none AtCall
        by (simp add: process_ok_def holders_def del: concat_eq_Nil_conv called.simps)
    next
      case False
      then have "t = s\<lparr>pr_routines := us @ AtKill sig ihs # vs\<rparr>" using parts AtCall by (simp add: routine_step_def)
      then show ?thesis using parts(1,2,3) AtCall False by (simp add: process_ok_def holders_def)
    qed
  next
    case (AtKill sig ihs)
    define u where "u = s\<lparr>pr_routines := us @ AtEnd ihs # vs\<rparr>"
    have "process_ok u" using parts AtKill by (auto simp: process_ok_def holders_def u_def)
    moreover have "pr_outcome u = None" using running by (simp add: u_def)
    moreover have "t = u\<lparr>pr_outcome := Some (Exited 0)\<rparr> \<or> t = deliver sig u"
      using parts AtKill by (auto simp: routine_step_def u_def Let_def split: if_splits)
    moreover have "process_ok (u\<lparr>pr_outcome := Some (Exited 0)\<rparr>)"
      using calculation(1) alone AtKill by (auto simp: process_ok_def holders_def u_def filter_empty_conv)
    ultimately show ?thesis by (auto simp: deliver_ok)
  next
    case (AtEnd ihs)
    then show ?thesis using parts by (simp add: routine_step_def)
  qed
qed

lemma exit_step_ok:
  assumes "process_ok s" "pr_outcome s = None" "i < length (pr_exits s)" "exit_step i s = Some t"
  shows "process_ok t"
proof -
  obtain us e vs where es: "pr_exits s = us @ e # vs" and "i = length us"
    using assms(3) id_take_nth_drop [of i "pr_exits s"]
    by (metis length_take min.absorb2 nat_less_le)
  then show ?thesis using assms
    by (cases e) (auto simp: exit_step_def process_ok_def holders_def filter_empty_conv split: if_splits)
qed

lemma process_step_ok: "process_step s t \<Longrightarrow> process_ok s \<Longrightarrow> process_ok t"
proof (induction rule: process_step.induct)
  case (step_register s h)
  then show ?case by (auto simp: process_ok_def holders_def RegisterInterruptHandler_def)
next
  case (step_handle s)
  then show ?case by (auto simp: process_ok_def holders_def HandleInterrupts_def)
next
  case (step_exit_call s code)
  then show ?case by (auto simp: process_ok_def holders_def osutil_Exit_def)
qed (blast intro: deliver_ok routine_step_ok exit_step_ok)+

lemma started_process_ok: "process_ok (started_process pid)"
  by (simp add: process_ok_def holders_def started_process_def)

lemma process_run_ok: "process_run pid s \<Longrightarrow> process_ok s"
  by (induction rule: rtranclp_induct) (simp_all add: started_process_ok process_step_ok)

section \<open>Order, exclusion and progress\<close>

lemma one_passed:
  assumes "process_ok s" "r \<in> set (pr_routines s)" "passed r"
  shows "pr_exitMu s" "filter exiting (pr_exits s) = []" "pr_ran s = called r"
proof -
  obtain us vs where rs: "pr_routines s = us @ r # vs" using assms(2) by (meson split_list)
  have alone: "pr_exitMu s \<and> filter passed us = [] \<and> filter passed vs = [] \<and> filter exiting (pr_exits s) = []"
    using assms(1,3) by (auto simp: process_ok_def holders_def rs split: if_splits)
  then show "pr_exitMu s" "filter exiting (pr_exits s) = []" by simp_all
  have "concat (map called us) = []" "concat (map called vs) = []" using alone none_called by auto
  then show "pr_ran s = called r"
    using assms(1) by (simp add: process_ok_def rs del: concat_eq_Nil_conv)
qed

lemma none_passed:
  assumes "process_ok s" "\<forall>r \<in> set (pr_routines s). \<not> passed r"
  shows "pr_ran s = []"
  using assms none_called [of "pr_routines s"] by (simp add: process_ok_def filter_empty_conv)

lemma exit_waits:
  assumes "pr_exitMu s" "filter exiting (pr_exits s) = []" "i < length (pr_exits s)"
  shows "exit_step i s = None"
  using assms by (cases "pr_exits s ! i") (force simp: exit_step_def filter_empty_conv dest: nth_mem)+

text \<open>C25: The handlers run in the order of their registration and none runs twice, whatever the interleaving of
  registrations, signals, goroutines and exits. Once a goroutine has begun to run them no \<open>Exit\<close> can go on. When the
  process has ended, either no handler was ever started, or all those that were registered when the
  goroutine took its copy have run.\<close>

theorem interrupts_exclude_exit:
  assumes "process_run pid s"
  shows "prefix (pr_ran s) (pr_handlers s) \<and>
    (\<forall>r. r \<in> set (pr_routines s) \<and> passed r \<longrightarrow>
       pr_ran s = called r \<and> (\<forall>i < length (pr_exits s). exit_step i s = None)) \<and>
    (pr_outcome s \<noteq> None \<longrightarrow>
       pr_ran s = [] \<and> (\<forall>r \<in> set (pr_routines s). \<not> passed r) \<or>
       (\<exists>r \<in> set (pr_routines s). \<not> notified r \<and> pr_ran s = copied r))"
proof (cases "\<exists>r \<in> set (pr_routines s). passed r")
  case True
  have ok: "process_ok s" using assms by (rule process_run_ok)
  from True obtain r where r: "r \<in> set (pr_routines s)" "passed r" by blast
  have "prefix (called r) (pr_handlers s)"
    using ok r(1) prefix_called [of r] prefix_order.trans by (auto simp: process_ok_def)
  moreover have "\<not> notified r" if "pr_outcome s \<noteq> None" using ok r that by (auto simp: process_ok_def)
  ultimately show ?thesis using one_passed [OF ok] exit_waits [of s] r by (metis called_finished)
next
  case False
  then show ?thesis using none_passed [OF process_run_ok [OF assms]] by auto
qed

text \<open>After a signal the only goroutine of \<open>HandleInterrupts\<close> ends the process by itself, in four steps and one for
  each handler, unless an \<open>Exit\<close> came first.\<close>

fun routine_steps :: "nat \<Rightarrow> nat \<Rightarrow> 'h process \<Rightarrow> 'h process option" where
  "routine_steps i 0 s = Some s"
| "routine_steps i (Suc n) s = (case routine_step i s of None \<Rightarrow> None | Some t \<Rightarrow> routine_steps i n t)"

lemma calls_then_kill:
  assumes "pr_routines s = [AtCall sig ihs n]" "n \<le> length ihs"
  shows "routine_steps 0 (length ihs - n + 2) s =
    Some (s\<lparr>pr_ran := pr_ran s @ drop n ihs, pr_routines := [AtEnd ihs],
             pr_outcome := Some (if pr_pid s = 1 then Exited 0 else Killed sig)\<rparr>)"
  using assms
proof (induction "length ihs - n" arbitrary: s n)
  case 0
  then show ?case by (simp add: routine_step_def deliver_def numeral_2_eq_2)
next
  case (Suc k)
  define t where "t = s\<lparr>pr_ran := pr_ran s @ [ihs ! n], pr_routines := [AtCall sig ihs (Suc n)]\<rparr>"
  have "n < length ihs" using Suc.hyps by simp
  then have "routine_step 0 s = Some t" using Suc.prems by (simp add: routine_step_def t_def)
  moreover have "routine_steps 0 (length ihs - Suc n + 2) t =
      Some (t\<lparr>pr_ran := pr_ran t @ drop (Suc n) ihs, pr_routines := [AtEnd ihs],
               pr_outcome := Some (if pr_pid t = 1 then Exited 0 else Killed sig)\<rparr>)"
    using Suc.hyps by (intro Suc.hyps(1)) (auto simp: t_def)
  moreover have "length ihs - n + 2 = Suc (length ihs - Suc n + 2)" using \<open>n < length ihs\<close> by simp
  ultimately show ?case using \<open>n < length ihs\<close> by (simp add: t_def Cons_nth_drop_Suc)
qed

lemma signal_ends_process:
  assumes "pr_routines s = [AtReceive (Some sig)]" "\<not> pr_exitMu s"
  shows "routine_steps 0 (length (pr_handlers s) + 4) s =
    Some (s\<lparr>pr_exitMu := True, pr_ran := pr_ran s @ pr_handlers s, pr_routines := [AtEnd (pr_handlers s)],
             pr_outcome := Some (if pr_pid s = 1 then Exited 0 else Killed sig)\<rparr>)"
proof -
  define t where "t = s\<lparr>pr_exitMu := True, pr_routines := [AtCall sig (pr_handlers s) 0]\<rparr>"
  have "routine_steps 0 (length (pr_handlers s) + 2) t =
      Some (t\<lparr>pr_ran := pr_ran t @ pr_handlers s, pr_routines := [AtEnd (pr_handlers s)],
               pr_outcome := Some (if pr_pid t = 1 then Exited 0 else Killed sig)\<rparr>)"
    using calls_then_kill [of t sig "pr_handlers s" 0] by (simp add: t_def)
  then show ?thesis using assms by (simp add: routine_step_def t_def numeral_eq_Suc)
qed

lemma process_run_step: "process_run pid s \<Longrightarrow> process_step s t \<Longrightarrow> process_run pid t"
  by simp

text \<open>A process that has registered two handlers, is told to stop while another part calls \<open>Exit\<close>, and has run the
  first handler.\<close>

definition example_process :: "string process" where
  "example_process =
     \<lparr>pr_pid = 7, pr_handlers = [''close'', ''flush''], pr_exitMu = True, pr_routines = [AtCall SIGTERM [''close'', ''flush''] 1],
      pr_exits = [ExitLock 0], pr_ran = [''close''], pr_outcome = None\<rparr>"

lemma example_process_run: "process_run 7 example_process"
proof -
  define s0 :: "string process" where
    "s0 = osutil_Exit 0 (deliver SIGTERM (HandleInterrupts (RegisterInterruptHandler ''flush''
       (RegisterInterruptHandler ''close'' (started_process 7)))))"
  note ops = RegisterInterruptHandler_def HandleInterrupts_def osutil_Exit_def deliver_def started_process_def
  have s0: "process_run 7 s0"
    unfolding s0_def
    by (intro process_run_step [OF _ step_exit_call] process_run_step [OF _ step_signal]
        process_run_step [OF _ step_handle] process_run_step [OF _ step_register])
      (simp_all add: ops)
  have val: "s0 = \<lparr>pr_pid = 7, pr_handlers = [''close'', ''flush''], pr_exitMu = False,
      pr_routines = [AtReceive (Some SIGTERM)], pr_exits = [ExitLock 0], pr_ran = [], pr_outcome = None\<rparr>"
    by (simp add: s0_def ops)
  have steps: "process_run pid (s :: string process) \<Longrightarrow> pr_outcome s = None \<Longrightarrow> 0 < length (pr_routines s) \<Longrightarrow>
      routine_step 0 s = Some t \<Longrightarrow> process_run pid t" for pid s t
    by (rule process_run_step [OF _ step_routine])
  have s1: "process_run 7 (s0\<lparr>pr_routines := [AtLock SIGTERM [''close'', ''flush'']]\<rparr>)"
    by (rule steps [OF s0]) (simp_all add: val routine_step_def)
  have "process_run 7 (s0\<lparr>pr_exitMu := True, pr_routines := [AtCall SIGTERM [''close'', ''flush''] 0]\<rparr>)"
    by (rule steps [OF s1]) (simp_all add: val routine_step_def)
  then show ?thesis by (rule steps) (simp_all add: val routine_step_def example_process_def)
qed

theorem interrupts_exclude_exit_witness:
  "prefix [''close''] [''close'', ''flush''] \<and> exit_step 0 example_process = None"
  using interrupts_exclude_exit [OF example_process_run] by (simp add: example_process_def)

end
