(* ===== verification/Etcd_Main.thy ===== *)
theory Etcd_Main
  imports Embed_Etcd
begin

text \<open>
  \<open>etcdmain\<close>: the command line of the program, its configuration, and the start of the server.

  A variable bound to a flag is the value of that flag: the flag set holds it until the flags have been
  read, and \<open>bind_flags\<close> copies the values into the configuration, as the pointers of \<open>StringVar\<close> and the
  like share them in the program. \<open>FlagSet.Parse\<close> is that of package \<open>flag\<close>. The environment of the process
  is a list of settings. Output is left out.
\<close>

section \<open>The configuration\<close>

definition proxyFlagOff :: string where "proxyFlagOff = ''off''"

definition proxyFlagReadonly :: string where "proxyFlagReadonly = ''readonly''"

definition proxyFlagOn :: string where "proxyFlagOn = ''on''"

definition fallbackFlagExit :: string where "fallbackFlagExit = ''exit''"

definition fallbackFlagProxy :: string where "fallbackFlagProxy = ''proxy''"

record configProxy =
  cp_ProxyFailureWaitMs :: u64
  cp_ProxyRefreshIntervalMs :: u64
  cp_ProxyDialTimeoutMs :: u64
  cp_ProxyWriteTimeoutMs :: u64
  cp_ProxyReadTimeoutMs :: u64
  cp_Proxy :: string

record ('u, 'h, 'b) config =
  mc_ec :: "('u, 'h, 'b) Config"
  mc_cp :: configProxy
  mc_flagSet :: "'u flag_value flagSet"
  mc_configFile :: string
  mc_printVersion :: bool

text \<open>The flags in the order of their definition, with their defaults.\<close>

definition defined_flags ::
  "('u, 'h, 'b) Config \<Rightarrow> configProxy \<Rightarrow> SelectiveStringValue \<Rightarrow> SelectiveStringValue \<Rightarrow> SelectiveStringValue \<Rightarrow>
   'u UniqueURLs list \<Rightarrow> (string \<times> 'u flag_value) list" where
  "defined_flags ec cp clusterState fallback proxy urls =
     [(''version'', FBool False), (''name'', FString (ec_Name ec)), (''config-file'', FString []),
      (''data-dir'', FString (ec_Dir ec)), (''wal-dir'', FString (ec_WalDir ec)),
      (''listen-peer-urls'', FURLs (urls ! 0)), (''listen-client-urls'', FURLs (urls ! 1)),
      (''listen-metrics-urls'', FURLs (urls ! 2)),
      (''max-snapshots'', FUint (ec_MaxSnapFiles ec)), (''max-wals'', FUint (ec_MaxWalFiles ec)),
      (''snapshot-count'', FUint (ec_SnapshotCount ec)), (''heartbeat-interval'', FUint (ec_TickMs ec)),
      (''election-timeout'', FUint (ec_ElectionMs ec)),
      (''initial-election-tick-advance'', FBool (ec_InitialElectionTickAdvance ec)),
      (''quota-backend-bytes'', FInt (ec_QuotaBackendBytes ec)),
      (''backend-batch-interval'', FDuration (ec_BackendBatchInterval ec)),
      (''backend-batch-limit'', FInt (ec_BackendBatchLimit ec)), (''max-txn-ops'', FUint (ec_MaxTxnOps ec)),
      (''max-request-bytes'', FUint (ec_MaxRequestBytes ec)),
      (''grpc-keepalive-min-time'', FDuration (ec_GRPCKeepAliveMinTime ec)),
      (''grpc-keepalive-interval'', FDuration (ec_GRPCKeepAliveInterval ec)),
      (''grpc-keepalive-timeout'', FDuration (ec_GRPCKeepAliveTimeout ec)),
      (''initial-advertise-peer-urls'', FURLs (urls ! 3)), (''advertise-client-urls'', FURLs (urls ! 4)),
      (''discovery'', FString (ec_Durl ec)), (''discovery-fallback'', FSelective fallback),
      (''discovery-proxy'', FString (ec_Dproxy ec)), (''discovery-srv'', FString (ec_DNSCluster ec)),
      (''discovery-srv-name'', FString (ec_DNSClusterServiceName ec)),
      (''initial-cluster'', FString (ec_InitialCluster ec)),
      (''initial-cluster-token'', FString (ec_InitialClusterToken ec)),
      (''initial-cluster-state'', FSelective clusterState),
      (''strict-reconfig-check'', FBool (ec_StrictReconfigCheck ec)), (''enable-v2'', FBool (ec_EnableV2 ec)),
      (''pre-vote'', FBool (ec_PreVote ec)), (''proxy'', FSelective proxy),
      (''proxy-failure-wait'', FUint (cp_ProxyFailureWaitMs cp)),
      (''proxy-refresh-interval'', FUint (cp_ProxyRefreshIntervalMs cp)),
      (''proxy-dial-timeout'', FUint (cp_ProxyDialTimeoutMs cp)),
      (''proxy-write-timeout'', FUint (cp_ProxyWriteTimeoutMs cp)),
      (''proxy-read-timeout'', FUint (cp_ProxyReadTimeoutMs cp)),
      (''cipher-suites'', FStrings (NewStringsValue [])), (''cors'', FURLs (urls ! 5)),
      (''host-whitelist'', FUnique (NewUniqueStringsValue ''*'')), (''logger'', FString ''zap''),
      (''log-output'', FUnique (NewUniqueStringsValue DefaultLogOutput)),
      (''log-outputs'', FUnique (NewUniqueStringsValue DefaultLogOutput)), (''debug'', FBool False),
      (''log-package-levels'', FString []), (''auto-compaction-retention'', FString ''0''),
      (''auto-compaction-mode'', FString ''periodic''), (''enable-pprof'', FBool False),
      (''metrics'', FString (ec_Metrics ec)), (''auth-token'', FString (ec_AuthToken ec)),
      (''bcrypt-cost'', FUint (ec_BcryptCost ec)), (''enable-grpc-gateway'', FBool True),
      (''experimental-initial-corrupt-check'', FBool (ec_InitialCorruptCheck ec)),
      (''experimental-corrupt-check-time'', FDuration (ec_CorruptCheckTime ec)),
      (''experimental-enable-v2v3'', FString (ec_EnableV2V3 ec)),
      (''experimental-backend-bbolt-freelist-type'', FString (ec_BackendFreelistType ec)),
      (''experimental-enable-lease-checkpoint'', FBool False), (''force-new-cluster'', FBool False)]"

fun all_some :: "'a option list \<Rightarrow> 'a list option" where
  "all_some [] = Some []"
| "all_some (x # xs) = do { a \<leftarrow> x; as \<leftarrow> all_some xs; Some (a # as) }"

text \<open>\<open>newConfig\<close>; \<open>None\<close> when a default panics. \<open>VisitAll\<close> visits the flags sorted by name.\<close>

definition newConfig :: "'u url_ops \<Rightarrow> u64 \<Rightarrow> ('u, 'h, 'b) config option" where
  "newConfig ops cost =
     do { ec \<leftarrow> NewConfig ops cost;
          let cp = \<lparr>cp_ProxyFailureWaitMs = 5000, cp_ProxyRefreshIntervalMs = 30000, cp_ProxyDialTimeoutMs = 1000,
                    cp_ProxyWriteTimeoutMs = 5000, cp_ProxyReadTimeoutMs = 0, cp_Proxy = proxyFlagOff\<rparr>;
          clusterState \<leftarrow> NewSelectiveStringValue [ClusterStateFlagNew, ClusterStateFlagExisting];
          fallback \<leftarrow> NewSelectiveStringValue [fallbackFlagProxy, fallbackFlagExit];
          proxy \<leftarrow> NewSelectiveStringValue [proxyFlagOff, proxyFlagReadonly, proxyFlagOn];
          urls \<leftarrow> all_some
            [NewUniqueURLsWithExceptions ops DefaultListenPeerURLs [[]],
             NewUniqueURLsWithExceptions ops DefaultListenClientURLs [[]],
             NewUniqueURLsWithExceptions ops [] [[]],
             NewUniqueURLsWithExceptions ops DefaultInitialAdvertisePeerURLs [[]],
             NewUniqueURLsWithExceptions ops DefaultAdvertiseClientURLs [[]],
             NewUniqueURLsWithExceptions ops ''*'' [''*'']];
          Some \<lparr>mc_ec = ec, mc_cp = cp,
                mc_flagSet = \<lparr>fs_formal = sort_key fst (defined_flags ec cp clusterState fallback proxy urls), fs_actual = []\<rparr>,
                mc_configFile = [], mc_printVersion = False\<rparr> }"

section \<open>The variables bound to flags\<close>

definition flag_bool :: "'u flag_value flagSet \<Rightarrow> string \<Rightarrow> bool" where
  "flag_bool fs n = (case map_of (fs_formal fs) n of Some (FBool b) \<Rightarrow> b | _ \<Rightarrow> False)"

definition flag_string :: "'u flag_value flagSet \<Rightarrow> string \<Rightarrow> string" where
  "flag_string fs n = (case map_of (fs_formal fs) n of Some (FString s) \<Rightarrow> s | _ \<Rightarrow> [])"

definition flag_uint :: "'u flag_value flagSet \<Rightarrow> string \<Rightarrow> u64" where
  "flag_uint fs n = (case map_of (fs_formal fs) n of Some (FUint i) \<Rightarrow> i | _ \<Rightarrow> 0)"

definition flag_int :: "'u flag_value flagSet \<Rightarrow> string \<Rightarrow> int" where
  "flag_int fs n = (case map_of (fs_formal fs) n of Some (FInt i) \<Rightarrow> i | Some (FDuration i) \<Rightarrow> i | _ \<Rightarrow> 0)"

definition flag_choice :: "'u flag_value flagSet \<Rightarrow> string \<Rightarrow> string" where
  "flag_choice fs n = (case map_of (fs_formal fs) n of Some (FSelective ss) \<Rightarrow> ssv_v ss | _ \<Rightarrow> [])"

definition bind_ec :: "'u flag_value flagSet \<Rightarrow> ('u, 'h, 'b) Config \<Rightarrow> ('u, 'h, 'b) Config" where
  "bind_ec fs ec = ec
     \<lparr>ec_Name := flag_string fs ''name'', ec_Dir := flag_string fs ''data-dir'', ec_WalDir := flag_string fs ''wal-dir'',
      ec_SnapshotCount := flag_uint fs ''snapshot-count'', ec_MaxSnapFiles := flag_uint fs ''max-snapshots'',
      ec_MaxWalFiles := flag_uint fs ''max-wals'', ec_TickMs := flag_uint fs ''heartbeat-interval'',
      ec_ElectionMs := flag_uint fs ''election-timeout'',
      ec_InitialElectionTickAdvance := flag_bool fs ''initial-election-tick-advance'',
      ec_BackendBatchInterval := flag_int fs ''backend-batch-interval'',
      ec_BackendBatchLimit := flag_int fs ''backend-batch-limit'',
      ec_QuotaBackendBytes := flag_int fs ''quota-backend-bytes'', ec_MaxTxnOps := flag_uint fs ''max-txn-ops'',
      ec_MaxRequestBytes := flag_uint fs ''max-request-bytes'', ec_DNSCluster := flag_string fs ''discovery-srv'',
      ec_DNSClusterServiceName := flag_string fs ''discovery-srv-name'', ec_Dproxy := flag_string fs ''discovery-proxy'',
      ec_Durl := flag_string fs ''discovery'', ec_InitialCluster := flag_string fs ''initial-cluster'',
      ec_InitialClusterToken := flag_string fs ''initial-cluster-token'',
      ec_StrictReconfigCheck := flag_bool fs ''strict-reconfig-check'', ec_EnableV2 := flag_bool fs ''enable-v2'',
      ec_AutoCompactionMode := flag_string fs ''auto-compaction-mode'',
      ec_AutoCompactionRetention := flag_string fs ''auto-compaction-retention'',
      ec_GRPCKeepAliveMinTime := flag_int fs ''grpc-keepalive-min-time'',
      ec_GRPCKeepAliveInterval := flag_int fs ''grpc-keepalive-interval'',
      ec_GRPCKeepAliveTimeout := flag_int fs ''grpc-keepalive-timeout'', ec_PreVote := flag_bool fs ''pre-vote'',
      ec_AuthToken := flag_string fs ''auth-token'', ec_BcryptCost := flag_uint fs ''bcrypt-cost'',
      ec_InitialCorruptCheck := flag_bool fs ''experimental-initial-corrupt-check'',
      ec_CorruptCheckTime := flag_int fs ''experimental-corrupt-check-time'',
      ec_EnableV2V3 := flag_string fs ''experimental-enable-v2v3'',
      ec_BackendFreelistType := flag_string fs ''experimental-backend-bbolt-freelist-type'',
      ec_EnableLeaseCheckpoint := flag_bool fs ''experimental-enable-lease-checkpoint'',
      ec_ForceNewCluster := flag_bool fs ''force-new-cluster'', ec_EnablePprof := flag_bool fs ''enable-pprof'',
      ec_Metrics := flag_string fs ''metrics'', ec_Logger := flag_string fs ''logger'', ec_Debug := flag_bool fs ''debug'',
      ec_EnableGRPCGateway := flag_bool fs ''enable-grpc-gateway'',
      ec_LogPkgLevels := flag_string fs ''log-package-levels''\<rparr>"

definition bind_flags :: "'u flag_value flagSet \<Rightarrow> ('u, 'h, 'b) config \<Rightarrow> ('u, 'h, 'b) config" where
  "bind_flags fs cfg = cfg
     \<lparr>mc_ec := bind_ec fs (mc_ec cfg),
      mc_cp := (mc_cp cfg)\<lparr>cp_ProxyFailureWaitMs := flag_uint fs ''proxy-failure-wait'',
        cp_ProxyRefreshIntervalMs := flag_uint fs ''proxy-refresh-interval'',
        cp_ProxyDialTimeoutMs := flag_uint fs ''proxy-dial-timeout'',
        cp_ProxyWriteTimeoutMs := flag_uint fs ''proxy-write-timeout'',
        cp_ProxyReadTimeoutMs := flag_uint fs ''proxy-read-timeout''\<rparr>,
      mc_flagSet := fs, mc_configFile := flag_string fs ''config-file'', mc_printVersion := flag_bool fs ''version''\<rparr>"

section \<open>Parsing the command line\<close>

datatype parse_error =
    ErrHelp | ErrFlagSyntax string | ErrNotDefined string | ErrNeedsArgument string | ErrFlagValue string string flag_error

definition split_name :: "string \<Rightarrow> string \<times> string option" where
  "split_name name = (case cut_at (CHR ''='') name of Some (k, v) \<Rightarrow> (k, Some v) | None \<Rightarrow> (name, None))"

text \<open>\<open>parseOne\<close> of package \<open>flag\<close>: it ends with the error, the arguments left and the flags, or goes on with the
  next argument.\<close>

type_synonym 'u parsed_args = "parse_error option \<times> string list \<times> 'u flag_value flagSet"

definition set_flag ::
  "'u url_ops \<Rightarrow> num_parsers \<Rightarrow> string \<Rightarrow> string \<Rightarrow> string list \<Rightarrow> 'u flag_value flagSet \<Rightarrow>
   'u parsed_args + string list \<times> 'u flag_value flagSet" where
  "set_flag ops P name v rest fs =
     (case fs_Set (\<lambda>n. value_Set ops P) name v fs of
        (Some (Some e), fs) \<Rightarrow> Inl (Some (ErrFlagValue name v e), rest, fs)
      | (_, fs) \<Rightarrow> Inr (rest, fs))"

fun parse_one ::
  "'u url_ops \<Rightarrow> num_parsers \<Rightarrow> string list \<Rightarrow> 'u flag_value flagSet \<Rightarrow>
   'u parsed_args + string list \<times> 'u flag_value flagSet" where
  "parse_one ops P [] fs = Inl (None, [], fs)"
| "parse_one ops P (s # rest) fs =
     (if length s < 2 \<or> s ! 0 \<noteq> CHR ''-'' then Inl (None, s # rest, fs)
      else if s = ''--'' then Inl (None, rest, fs)
      else
        (let name = drop (if s ! 1 = CHR ''-'' then 2 else 1) s in
         if name = [] \<or> name ! 0 = CHR ''-'' \<or> name ! 0 = CHR ''='' then Inl (Some (ErrFlagSyntax s), s # rest, fs)
         else
           (let (name, value') = split_name name in
            case map_of (fs_formal fs) name of
              None \<Rightarrow> Inl (Some (if name = ''help'' \<or> name = ''h'' then ErrHelp else ErrNotDefined name), rest, fs)
            | Some flag \<Rightarrow>
                if kind flag = KBool
                then set_flag ops P name (case value' of Some v \<Rightarrow> v | None \<Rightarrow> ''true'') rest fs
                else
                  (case value' of
                     Some v \<Rightarrow> set_flag ops P name v rest fs
                   | None \<Rightarrow>
                       (case rest of
                          [] \<Rightarrow> Inl (Some (ErrNeedsArgument name), rest, fs)
                        | v # rest \<Rightarrow> set_flag ops P name v rest fs)))))"

lemma set_flag_Inr: "set_flag ops P name v rest fs = Inr (rest', fs') \<Longrightarrow> rest' = rest"
  by (auto simp: set_flag_def split: prod.splits option.splits)

lemma parse_one_shorter: "parse_one ops P args fs = Inr (rest, fs') \<Longrightarrow> length rest < length args"
  by (cases args) (auto simp: Let_def split: if_splits option.splits list.splits prod.splits dest!: set_flag_Inr)

text \<open>\<open>Parse\<close>.\<close>

function parse_args ::
  "'u url_ops \<Rightarrow> num_parsers \<Rightarrow> string list \<Rightarrow> 'u flag_value flagSet \<Rightarrow> 'u parsed_args" where
  "parse_args ops P args fs =
     (case parse_one ops P args fs of
        Inl r \<Rightarrow> r
      | Inr (rest, fs') \<Rightarrow> parse_args ops P rest fs')"
  by pat_completeness auto
termination
  by (relation "measure (\<lambda>(ops, P, args, fs). length args)") (auto dest: parse_one_shorter)

declare parse_args.simps [simp del]

datatype main_error = ErrNotAFlag string | ErrEnvValue "flag_error env_error" | ErrValidate embed_error

text \<open>\<open>configFromCmdLine\<close>: the environment first, then the values of the flags that are not variables. \<open>verifyEnv\<close>
  ends the process with status one; a failed type assertion panics.\<close>

definition url_settings :: "(string \<times> 'u flag_value) list \<Rightarrow> ('u, 'h, 'b) Config \<Rightarrow> ('u, 'h, 'b) Config option" where
  "url_settings fs ec =
     do { lp \<leftarrow> UniqueURLsFromFlag fs ''listen-peer-urls'';
          ap \<leftarrow> UniqueURLsFromFlag fs ''initial-advertise-peer-urls'';
          lc \<leftarrow> UniqueURLsFromFlag fs ''listen-client-urls'';
          ac \<leftarrow> UniqueURLsFromFlag fs ''advertise-client-urls'';
          lm \<leftarrow> UniqueURLsFromFlag fs ''listen-metrics-urls'';
          cors \<leftarrow> UniqueURLsMapFromFlag fs ''cors'';
          hosts \<leftarrow> UniqueStringsMapFromFlag fs ''host-whitelist'';
          suites \<leftarrow> StringsFromFlag fs ''cipher-suites'';
          Some (ec\<lparr>ec_LPUrls := lp, ec_APUrls := ap, ec_LCUrls := lc, ec_ACUrls := ac, ec_ListenMetricsUrls := lm,
                   ec_CORS := cors, ec_HostWhitelist := hosts, ec_CipherSuites := suites\<rparr>) }"

definition configFromCmdLine ::
  "'u url_ops \<Rightarrow> num_parsers \<Rightarrow> (zap_Config \<Rightarrow> string option) \<Rightarrow> ('u, 'h, 'b) custom_builder \<Rightarrow> string list \<Rightarrow>
   ('u, 'h, 'b) config \<Rightarrow> (main_error option \<times> ('u, 'h, 'b) config) proc_result" where
  "configFromCmdLine ops P build custom env cfg =
     (case SetFlagsFromEnv (\<lambda>n. value_Set ops P) env ''ETCD'' (mc_flagSet cfg) of
        None \<Rightarrow> Exits 1
      | Some (Some err, fs) \<Rightarrow> Runs (Some (ErrEnvValue err), bind_flags fs cfg)
      | Some (None, fs) \<Rightarrow>
          (let cfg = bind_flags fs cfg in
           proc_bind (proc_option (url_settings (fs_formal fs) (mc_ec cfg))) (\<lambda>ec.
             case Validate build custom ec of
               (err, ec) \<Rightarrow> Runs (map_option ErrValidate err, cfg\<lparr>mc_ec := ec\<rparr>))))"

text \<open>\<open>parse\<close>. With a configuration file nothing further is read.\<close>

definition parse ::
  "'u url_ops \<Rightarrow> num_parsers \<Rightarrow> (zap_Config \<Rightarrow> string option) \<Rightarrow> ('u, 'h, 'b) custom_builder \<Rightarrow> string list \<Rightarrow>
   string list \<Rightarrow> ('u, 'h, 'b) config \<Rightarrow> (main_error option \<times> ('u, 'h, 'b) config) proc_result" where
  "parse ops P build custom env arguments cfg =
     (case parse_args ops P arguments (mc_flagSet cfg) of
        (Some ErrHelp, _, fs) \<Rightarrow> Exits 0
      | (Some e, _, fs) \<Rightarrow> Exits 2
      | (None, rest, fs) \<Rightarrow>
          (let cfg = bind_flags fs cfg in
           if length rest \<noteq> 0 then Runs (Some (ErrNotAFlag (rest ! 0)), cfg)
           else if mc_printVersion cfg then Exits 0
           else
             (let file = (if mc_configFile cfg = [] then Getenv env (FlagToEnv ''ETCD'' ''config-file'') else mc_configFile cfg)
              in if file \<noteq> [] then Runs (None, cfg\<lparr>mc_configFile := file\<rparr>)
                 else configFromCmdLine ops P build custom env cfg)))"

definition isProxy :: "('u, 'h, 'b) config \<Rightarrow> bool" where
  "isProxy cfg \<longleftrightarrow> flag_choice (mc_flagSet cfg) ''proxy'' \<noteq> proxyFlagOff"

definition isReadonlyProxy :: "('u, 'h, 'b) config \<Rightarrow> bool" where
  "isReadonlyProxy cfg \<longleftrightarrow> flag_choice (mc_flagSet cfg) ''proxy'' = proxyFlagReadonly"

definition shouldFallbackToProxy :: "('u, 'h, 'b) config \<Rightarrow> bool" where
  "shouldFallbackToProxy cfg \<longleftrightarrow> flag_choice (mc_flagSet cfg) ''discovery-fallback'' = fallbackFlagProxy"

section \<open>Starting the server\<close>

datatype dirType = dirMember | dirProxy | dirEmpty

definition identifyDataDirOrDie :: "string \<Rightarrow> fsys \<Rightarrow> dirType proc_result" where
  "identifyDataDirOrDie dir s =
     (case ReadDir dir [] s of
        Inl err \<Rightarrow> if err = os_ErrNotExist then Runs dirEmpty else Exits 1
      | Inr names \<Rightarrow>
          (let m = (''member'' \<in> set names); p = (''proxy'' \<in> set names) in
           if m \<and> p then Exits 1
           else Runs (if m then dirMember else if p then dirProxy else dirEmpty)))"

definition checkSupportArch :: "string \<Rightarrow> string list \<Rightarrow> unit proc_result" where
  "checkSupportArch arch env =
     (if arch = ''amd64'' \<or> arch = ''ppc64le'' then Runs ()
      else if (\<exists>e \<in> set env. HasPrefix e ''ETCD_UNSUPPORTED_ARCH='') \<and> Getenv env ''ETCD_UNSUPPORTED_ARCH'' = arch
      then Runs () else Exits 1)"

text \<open>What the program has when it waits at the end: the running server, the error of the start, and whether the
  channels it waits on are those of the server. \<open>startEtcd\<close> waits until the server is ready, which
  \<open>publish\<close> signals.\<close>

record ('u, 'h, 'b, 'srv) running =
  rs_etcd :: "('u, 'h, 'b, 'srv) Etcd option"
  rs_err :: "embed_error option"
  rs_watched :: bool

definition started_running :: "bool \<Rightarrow> (embed_error + ('u, 'h, 'b, 'srv) Etcd) \<Rightarrow> ('u, 'h, 'b, 'srv) running" where
  "started_running watched r =
     (case r of
        Inl err \<Rightarrow> \<lparr>rs_etcd = None, rs_err = Some err, rs_watched = False\<rparr>
      | Inr e \<Rightarrow> \<lparr>rs_etcd = Some e, rs_err = None, rs_watched = watched\<rparr>)"

definition startEtcdOrProxyV2 ::
  "('u, 'db, 'tx, 'e, 'h, 'b, 'c, 'k) embed_env \<Rightarrow> 'u host_ops \<Rightarrow> string \<times> string option \<Rightarrow> num_parsers \<Rightarrow> u64 \<Rightarrow>
   string list \<Rightarrow> string list \<Rightarrow> world \<Rightarrow>
   (('u, 'h, 'b, ('u, TLSInfo, unit, ('db, 'tx, unit) backend, 'f) EtcdServer) running \<times> world) proc_result" where
  "startEtcdOrProxyV2 ee hops detected P cost env args w =
     (let ops = env_urls (ee_server ee) in
      proc_bind (proc_option (newConfig ops cost)) (\<lambda>cfg.
        let defaultInitialCluster = ec_InitialCluster (mc_ec cfg) in
        proc_bind (parse ops P (ee_build ee) (ee_custom ee) env args cfg) (\<lambda>(err, cfg).
          if err \<noteq> None then Exits 1
          else
            proc_bind (proc_option (UpdateDefaultClusterFromName ops hops detected defaultInitialCluster (mc_ec cfg)))
              (\<lambda>(_, ec).
                 let ec = (if ec_Dir ec = [] then ec\<lparr>ec_Dir := ec_Name ec @ ''.etcd''\<rparr> else ec) in
                 proc_bind (identifyDataDirOrDie (ec_Dir ec) (w_fs w)) (\<lambda>which.
                   if which = dirProxy \<or> (which = dirEmpty \<and> isProxy cfg)
                   then Runs (\<lparr>rs_etcd = None, rs_err = None, rs_watched = False\<rparr>, w)
                   else proc_bind (StartEtcd ee ec w) (\<lambda>(r, w). Runs (started_running (which = dirMember) r, w)))))))"

section \<open>Lemmas\<close>

lemma kinds_set_flag:
  "(case set_flag ops P name v rest fs of Inl (e, r, fs') \<Rightarrow> kinds (fs_formal fs') = kinds (fs_formal fs)
    | Inr (r, fs') \<Rightarrow> kinds (fs_formal fs') = kinds (fs_formal fs))"
  using kinds_fs_Set [of ops P name v fs] by (auto simp: set_flag_def split: prod.splits option.splits)

lemma kinds_parse_one:
  "(case parse_one ops P args fs of Inl (e, r, fs') \<Rightarrow> kinds (fs_formal fs') = kinds (fs_formal fs)
    | Inr (r, fs') \<Rightarrow> kinds (fs_formal fs') = kinds (fs_formal fs))"
proof (cases args)
  case (Cons s rest)
  show ?thesis unfolding Cons parse_one.simps Let_def
    by (simp add: kinds_set_flag split: prod.split option.split list.split)
qed simp

lemma kinds_parse_args: "kinds (fs_formal (snd (snd (parse_args ops P args fs)))) = kinds (fs_formal fs)"
proof (induction ops P args fs rule: parse_args.induct)
  case (1 ops P args fs)
  show ?case
  proof (cases "parse_one ops P args fs")
    case (Inl r)
    then show ?thesis using kinds_parse_one [where ops = ops and P = P and args = args and fs = fs] by (subst parse_args.simps) (cases r, simp)
  next
    case (Inr q)
    obtain rest fs' where q: "q = (rest, fs')" by (cases q)
    from "1.IH" [OF Inr q [symmetric]] Inr q kinds_parse_one [where ops = ops and P = P and args = args and fs = fs] show ?thesis by (subst parse_args.simps) simp
  qed
qed

lemma distinct_flags: "distinct (map fst (defined_flags ec cp clusterState fallback proxy urls))"
  by (simp add: defined_flags_def)

lemma newConfig_flags:
  assumes "newConfig ops cost = Some cfg"
  obtains ec cp cs fb px urls where "map_of (fs_formal (mc_flagSet cfg)) = map_of (defined_flags ec cp cs fb px urls)"
    and "mc_ec cfg = ec" and "NewConfig ops cost = Some ec"
proof -
  from assms obtain ec cp cs fb px urls where
    "fs_formal (mc_flagSet cfg) = sort_key fst (defined_flags ec cp cs fb px urls)" "mc_ec cfg = ec" "NewConfig ops cost = Some ec"
    by (auto simp: newConfig_def bind_eq_Some_conv Let_def)
  moreover from this(1) have "map_of (fs_formal (mc_flagSet cfg)) = map_of (defined_flags ec cp cs fb px urls)"
    by (intro map_of_permuted distinct_flags) simp
  ultimately show thesis using that by blast
qed

lemma url_settings_ok:
  assumes "kinds fs ''listen-peer-urls'' = Some KURLs" "kinds fs ''initial-advertise-peer-urls'' = Some KURLs"
    "kinds fs ''listen-client-urls'' = Some KURLs" "kinds fs ''advertise-client-urls'' = Some KURLs"
    "kinds fs ''listen-metrics-urls'' = Some KURLs" "kinds fs ''cors'' = Some KURLs"
    "kinds fs ''host-whitelist'' = Some KUnique" "kinds fs ''cipher-suites'' = Some KStrings"
  shows "\<exists>lp lc ap ac lm cors hosts suites. url_settings fs ec =
    Some (ec\<lparr>ec_LPUrls := lp, ec_APUrls := ap, ec_LCUrls := lc, ec_ACUrls := ac, ec_ListenMetricsUrls := lm,
      ec_CORS := cors, ec_HostWhitelist := hosts, ec_CipherSuites := suites\<rparr>)"
proof -
  have k: "kind v = KURLs \<longleftrightarrow> (\<exists>us. v = FURLs us)" "kind v = KUnique \<longleftrightarrow> (\<exists>us. v = FUnique us)"
    "kind v = KStrings \<longleftrightarrow> (\<exists>ss. v = FStrings ss)" for v :: "'a flag_value"
    by (cases v; simp)+
  from assms show ?thesis
    by (auto simp: kinds_def k url_settings_def UniqueURLsFromFlag_def UniqueURLsMapFromFlag_def
        UniqueStringsMapFromFlag_def StringsFromFlag_def) blast
qed

lemma defined_kinds:
  "kinds (defined_flags ec cp cs fb px urls) ''listen-peer-urls'' = Some KURLs"
  "kinds (defined_flags ec cp cs fb px urls) ''initial-advertise-peer-urls'' = Some KURLs"
  "kinds (defined_flags ec cp cs fb px urls) ''listen-client-urls'' = Some KURLs"
  "kinds (defined_flags ec cp cs fb px urls) ''advertise-client-urls'' = Some KURLs"
  "kinds (defined_flags ec cp cs fb px urls) ''listen-metrics-urls'' = Some KURLs"
  "kinds (defined_flags ec cp cs fb px urls) ''cors'' = Some KURLs"
  "kinds (defined_flags ec cp cs fb px urls) ''host-whitelist'' = Some KUnique"
  "kinds (defined_flags ec cp cs fb px urls) ''cipher-suites'' = Some KStrings"
  by (simp_all add: kinds_def defined_flags_def)

text \<open>The settings of the command line change neither the state of the cluster nor a builder of the logger.\<close>

lemma bind_ec_keeps:
  "ec_ClusterState (bind_ec fs ec) = ec_ClusterState ec" "ec_ZapLoggerBuilder (bind_ec fs ec) = ec_ZapLoggerBuilder ec"
  by (simp_all add: bind_ec_def)

lemma Validate_keeps:
  assumes "ec_ZapLoggerBuilder ec = None"
  shows "ec_ClusterState (snd (Validate build custom ec)) = ec_ClusterState ec"
proof (cases "ec_Logger ec = ''zap''")
  case True
  then show ?thesis
    using assms by (cases "build (logger_config ec)") (simp_all add: Validate_def setupLogging_def run_builder_def)
next
  case False
  then show ?thesis by (simp add: Validate_def setupLogging_def)
qed

lemma NewConfig_keeps:
  "NewConfig ops cost = Some ec \<Longrightarrow> ec_ClusterState ec = ClusterStateFlagNew \<and> ec_ZapLoggerBuilder ec = None"
  by (auto simp: NewConfig_def bind_eq_Some_conv Let_def)

text \<open>What \<open>parse\<close> does with the configuration of \<open>newConfig\<close>.\<close>

lemma parse_outcome:
  assumes "newConfig ops cost = Some cfg"
  shows "(\<exists>n. parse ops P build custom env args cfg = Exits n) \<or>
    (\<exists>err cfg'. parse ops P build custom env args cfg = Runs (err, cfg') \<and> ec_ClusterState (mc_ec cfg') = ClusterStateFlagNew)"
proof -
  obtain ec cp cs fb px urls where t: "map_of (fs_formal (mc_flagSet cfg)) = map_of (defined_flags ec cp cs fb px urls)"
    and ec: "mc_ec cfg = ec" "NewConfig ops cost = Some ec"
    by (rule newConfig_flags [OF assms])
  have k: "kinds (fs_formal (mc_flagSet cfg)) = kinds (defined_flags ec cp cs fb px urls)" by (simp add: kinds_def fun_eq_iff t)
  have keep: "ec_ClusterState ec = ClusterStateFlagNew" "ec_ZapLoggerBuilder ec = None" using NewConfig_keeps [OF ec(2)] by auto
  obtain e rest fs where pa: "parse_args ops P args (mc_flagSet cfg) = (e, rest, fs)" by (metis prod_cases3)
  have kfs: "kinds (fs_formal fs) = kinds (defined_flags ec cp cs fb px urls)"
    using kinds_parse_args [of ops P args "mc_flagSet cfg"] k by (simp add: pa)
  let ?cfg = "bind_flags fs cfg"
  have b: "ec_ClusterState (mc_ec ?cfg) = ClusterStateFlagNew" "ec_ZapLoggerBuilder (mc_ec ?cfg) = None" "mc_flagSet ?cfg = fs"
    by (simp_all add: bind_flags_def bind_ec_keeps keep ec)
  have line: "(\<exists>n. configFromCmdLine ops P build custom env ?cfg = Exits n) \<or>
      (\<exists>err cfg'. configFromCmdLine ops P build custom env ?cfg = Runs (err, cfg') \<and> ec_ClusterState (mc_ec cfg') = ClusterStateFlagNew)"
  proof (cases "SetFlagsFromEnv (\<lambda>n. value_Set ops P) env ''ETCD'' fs")
    case None
    then show ?thesis by (simp add: configFromCmdLine_def b(3))
  next
    case (Some r)
    obtain err fs2 where r: "r = (err, fs2)" by (cases r)
    have "kinds (fs_formal fs2) = kinds (defined_flags ec cp cs fb px urls)"
      using kinds_SetFlagsFromEnv [OF Some [unfolded r]] kfs by simp
    then obtain lp lc ap ac lm cors hosts suites where
      u: "url_settings (fs_formal fs2) (mc_ec (bind_flags fs2 ?cfg)) =
        Some ((mc_ec (bind_flags fs2 ?cfg))\<lparr>ec_LPUrls := lp, ec_APUrls := ap, ec_LCUrls := lc, ec_ACUrls := ac,
          ec_ListenMetricsUrls := lm, ec_CORS := cors, ec_HostWhitelist := hosts, ec_CipherSuites := suites\<rparr>)" (is "_ = Some ?ec")
      using url_settings_ok [of "fs_formal fs2" "mc_ec (bind_flags fs2 ?cfg)"] defined_kinds by metis
    have c: "ec_ClusterState ?ec = ClusterStateFlagNew" "ec_ZapLoggerBuilder ?ec = None"
      using b by (simp_all add: bind_flags_def bind_ec_keeps)
    obtain err' ec' where v: "Validate build custom ?ec = (err', ec')" by (cases "Validate build custom ?ec")
    have "ec_ClusterState ec' = ClusterStateFlagNew" using Validate_keeps [OF c(2), of build custom] v c(1) by simp
    moreover have "ec_ClusterState (mc_ec (bind_flags fs2 ?cfg)) = ClusterStateFlagNew"
      using b by (simp add: bind_flags_def bind_ec_keeps)
    ultimately show ?thesis using Some r u v
      by (cases err) (simp_all add: configFromCmdLine_def b(3) proc_option_def Let_def)
  qed
  show ?thesis
  proof (cases e)
    case (Some x)
    then show ?thesis by (cases x) (simp_all add: parse_def pa)
  next
    case None
    with line b(1) show ?thesis by (simp add: parse_def pa Let_def)
  qed
qed

text \<open>An empty environment leaves the flags alone.\<close>

lemma SetFlagsFromEnv_no_env: "SetFlagsFromEnv vset [] pre fs = Some (None, fs)"
proof -
  have "visit_all vset [] pre al names (None, used, fs) = (None, used, fs)" for al names used
    by (induction names) (simp_all add: setFlagFromEnv_def Let_def)
  then show ?thesis by (simp add: SetFlagsFromEnv_def Let_def)
qed

section \<open>Properties\<close>

text \<open>C22: Every command line and every environment is handled without a panic: the type assertions on the flags
  always find the type with which the flag was defined, since setting a flag keeps its type. The program
  goes on, with or without an error to report, or exits.\<close>

theorem parse_is_typed:
  assumes "newConfig ops cost = Some cfg"
  shows "parse ops P build custom env args cfg \<noteq> Crashes \<and> parse ops P build custom env args cfg \<noteq> Hangs"
  using parse_outcome [OF assms, of P build custom env args] by auto

text \<open>Number parsers and a configuration for examples.\<close>

definition example_parsers :: num_parsers where
  "example_parsers = \<lparr>ParseUint = (\<lambda>s. (of_nat (length s), None)), ParseInt = (\<lambda>s. (0, Some ''syntax'')),
     ParseDuration = (\<lambda>s. (0, Some ''syntax''))\<rparr>"

lemma example_new_config: obtains cfg :: "(string, unit, unit) config" where "newConfig plain_urls 10 = Some cfg"
proof -
  have "case (newConfig plain_urls 10 :: (string, unit, unit) config option) of None \<Rightarrow> False | Some c \<Rightarrow> True" by code_simp
  then show thesis using that by (auto split: option.splits)
qed

theorem parse_is_typed_witness:
  "\<exists>cfg :: (string, unit, unit) config. newConfig plain_urls 10 = Some cfg \<and>
     parse plain_urls example_parsers (\<lambda>c. None) (\<lambda>b c. (None, c)) [''ETCD_NAME=a''] [''--debug'', ''--wal-dir'', ''w''] cfg \<noteq> Crashes"
proof -
  obtain cfg :: "(string, unit, unit) config" where cfg: "newConfig plain_urls 10 = Some cfg" by (rule example_new_config)
  with parse_is_typed [OF cfg] show ?thesis by blast
qed

text \<open>Whatever the command line and the environment say, also with \<open>--initial-cluster-state=existing\<close>, the
  configuration that \<open>parse\<close> leaves is that of a new cluster: the value of this flag is checked but never
  read. So a server started by the program never tries to join a running cluster.\<close>

lemma cluster_state_ignored:
  assumes "newConfig ops cost = Some cfg" and "parse ops P build custom env args cfg = Runs (err, cfg')"
  shows "IsNewCluster (mc_ec cfg')"
  using parse_outcome [OF assms(1), of P build custom env args] assms(2) by (auto simp: IsNewCluster_def)

end
