(* ===== verification/Spec2Isabelle.thy ===== *)
theory Spec2Isabelle
  imports Http_Api Interrupts Etcd_Main
begin

text \<open>
  Verification of etcd-cr, a reimplementation in Go of the etcd key-value server (the paths below are
  those of the repository).

  \<^bold>\<open>The program.\<close> The main program (\<open>etcdmain\<close>) reads the command line and the environment into a
  configuration and starts an embedded server (\<open>embed\<close>), which binds the peer and client listeners
  (\<open>pkg/transport\<close>), creates an \<open>EtcdServer\<close> (\<open>etcdserver\<close>) and serves it. The server keeps the
  cluster's members (\<open>etcdserver/api/membership\<close>), files (\<open>wal\<close>, \<open>pkg/fileutil\<close>, \<open>mvcc/backend\<close>) and
  a raft node. It numbers each client request (\<open>pkg/idutil\<close>), registers it with a wait list
  (\<open>pkg/wait\<close>), encodes it (\<open>etcdserver/etcdserverpb\<close>) and proposes the bytes to raft. Raft (\<open>raft\<close>) is
  a state machine over a log: a goroutine receives proposals, messages and ticks through channels,
  steps the state machine and hands out a \<open>Ready\<close> with what has to be stored, sent and applied.
  Votes and membership are decided by \<open>raft/quorum\<close>, \<open>raft/tracker\<close> and \<open>raft/confchange\<close>.

  \<^bold>\<open>Conventions\<close> (theory \<open>Etcd_Prelude\<close>). Go's unsigned integers are words of their width and wrap;
  \<open>int\<close> is an integer with \<open>wrap_int\<close> written out where the code computes. A panic is \<open>None\<close> of an option
  or \<open>Panics\<close> of a \<open>call_result\<close> and never a default value; an error is a value, \<open>Inl\<close> of a sum or a
  component of a pair, as the code returns it. A Go map is an association list with distinct keys, and
  the order in which the code ranges over it is an argument (\<open>visit\<close>), so that results can be shown not
  to depend on it. Channels and mutexes are part of the state where the code relies on them. Log output
  is left out, except where logging itself ends the process (\<open>Fatal\<close>, \<open>Panic\<close>) or dereferences nil.
  Theories \<open>Go_Strings\<close> and \<open>Go_Sort\<close> model the functions of Go's library that several components use;
  the locale \<open>sort_interface\<close> is the contract of \<open>sort.Interface\<close> and is interpreted on every type the
  program sorts.

  \<^bold>\<open>Raft.\<close>
  \<^item> \<open>Proto_Wire\<close>, \<open>Proto_Codec\<close>, \<open>Raftpb\<close>: the wire format and the nine messages of \<open>raft/raftpb/raft.pb.go\<close>
    (size, encoder, decoder and reset of each) and \<open>confchange.go\<close>. The locale \<open>message_codec\<close> states what a
    message owes to those that embed it; each message interprets it, and round trips follow from the
    interpretations. The size of an encoding is bounded by \<open>2 ^ 62\<close>, which every Go slice satisfies.
  \<^item> \<open>Quorum\<close>, \<open>Tracker\<close>, \<open>Confchange\<close>: \<open>raft/quorum\<close>, \<open>raft/tracker\<close>, \<open>raft/confchange\<close>. The locale
    \<open>vote_outcome\<close> is the contract of \<open>VoteResult\<close> for majority and joint configurations. Two quorums that won
    intersect, also across a simple configuration change; changes preserve the invariant that
    \<open>checkInvariants\<close> tests and fail exactly in the cases given.
  \<^item> \<open>Mem_Storage\<close>, \<open>Unstable\<close>, \<open>Raft_Log\<close>: \<open>raft/storage.go\<close>, \<open>log_unstable.go\<close>, \<open>log.go\<close>. The locale \<open>storage\<close> is
    the \<open>Storage\<close> interface with its laws; \<open>MemoryStorage\<close> interprets it. The abstract log is a partial map
    from indices to entries; appending, reading and persisting refine operations on it.
  \<^item> \<open>Raft_Core\<close>: \<open>raft/raft.go\<close>, all message handlers and ticks that have live code. Reachable states are
    those of an inductive step relation; the invariants are the consistency of role, vote and leader, one
    vote per term, and that neither ticks nor messages panic; an election starts within the timeout.
  \<^item> \<open>Raw_Node\<close>, \<open>Node_Loop\<close>: \<open>rawnode.go\<close>, \<open>bootstrap.go\<close>, \<open>node.go\<close>: \<open>Ready\<close>, \<open>HasReady\<close>, \<open>Advance\<close>, the bootstrap, and
    the goroutine with its channels.

  \<^bold>\<open>The server.\<close>
  \<^item> \<open>Id_Util\<close>, \<open>Wait_Lists\<close>, \<open>Stats_Queue\<close>, \<open>Urls\<close>, \<open>Lease\<close>, \<open>Membership\<close>: \<open>pkg/types\<close>, \<open>pkg/idutil\<close>, \<open>pkg/wait\<close>,
    \<open>etcdserver/api/v2stats\<close>, \<open>lease\<close>, \<open>etcdserver/api/membership\<close>. Request ids are unique for \<open>2 ^ 48\<close> calls, the
    bits the generator has; a registered request gets one result; the ring of statistics refines a list
    bounded at 200 (locale \<open>bounded_queue\<close>); all nodes compute the same cluster from the same setting.
  \<^item> \<open>Wal_Files\<close>, \<open>Backend_Tx\<close>: a model of the file system (a map from cleaned paths to nodes, with refused and
    locked paths) under \<open>pkg/fileutil\<close>, \<open>wal\<close> and \<open>mvcc/backend\<close>. bbolt is a parameter. The locale
    \<open>stop_protocol\<close> is the shutdown handshake of a goroutine, interpreted for the backend and for snapshots.
  \<^item> \<open>Server_Config\<close>, \<open>Raft_Node\<close>, \<open>Etcd_Server\<close>: \<open>etcdserver\<close> with its configuration, raft node, construction, main
    loop and the v2 requests that \<open>publish\<close> uses. The loop of \<open>publish\<close> has fuel, and one round is shown to be
    enough.
  \<^item> \<open>Checked_Wire\<close>, \<open>Internal_Request\<close>: the decoder of the newer generator, which checks for overflow, and the
    requests that go through raft (locale \<open>checked_codec\<close>, four interpretations): they survive encoding and
    decoding, and no input makes the decoder panic.
  \<^item> \<open>V3_Server\<close>: \<open>v3_server.go\<close> and \<open>api/v3rpc/key.go\<close>. Requests interleave in a step relation whose steps
    are the parts of the code between which other goroutines run; in every interleaving requests keep
    their own ids and channels, and what is proposed is what the client sent.
  \<^item> \<open>Rpc_Errors\<close>: \<open>api/v3rpc/rpctypes/error.go\<close>, \<open>api/v3rpc/util.go\<close>. Errors are identified by their variable and
    carry their texts; grpc's \<open>status\<close> package is a parameter. The errors of a put are recognized by the
    client, each as the one the server meant.
  \<^item> \<open>Http_Api\<close>: \<open>api/etcdhttp\<close>, \<open>api/v2error\<close>, \<open>version\<close>, the handlers of \<open>api/rafthttp\<close>, the grpc server of
    \<open>api/v3rpc\<close> and the gateway up to its call of the grpc client. The choice of a handler by \<open>http.ServeMux\<close> is
    modelled, so the answer to a client's request is computed through all the multiplexers it passes.

  \<^bold>\<open>The process.\<close>
  \<^item> \<open>Net_Transport\<close>: \<open>pkg/transport\<close>, \<open>pkg/tlsutil\<close>, \<open>pkg/httputil\<close>. Sockets are numbers in a \<open>world\<close> with the
    open ones; whether an address can be bound is a parameter, as are the crypto packages. The limit listener is a
    transition system with the bound on open connections as its invariant; \<open>SelfCert\<close>, which calls
    itself, is a \<open>partial_function\<close> shown to return.
  \<^item> \<open>Flags\<close>, \<open>Embed_Config\<close>, \<open>Embed_Etcd\<close>, \<open>Etcd_Main\<close>: \<open>pkg/flags\<close>, \<open>embed\<close>, \<open>etcdmain\<close>. A call may run, exit, crash
    or hang (\<open>proc_result\<close>). The start of a fresh member is proved from the configuration to the raft node, composing
    the theories above; its time settings must satisfy \<open>ElectionMs < 2 ^ 32\<close>, which keeps the product of ticks
    and milliseconds within 64 bits, and the limit on file descriptors must exceed the reserve. Every command line
    and environment is handled without a failing type assertion.
  \<^item> \<open>Interrupts\<close>: \<open>pkg/osutil\<close>. Registrations, signals, the goroutine of \<open>HandleInterrupts\<close> and the calls of \<open>Exit\<close> are
    steps of a process. In every interleaving the handlers run in order and exclude \<open>Exit\<close>, and a signal ends the process
    after them.

  \<^bold>\<open>Parameters.\<close> Code outside the repository is an argument of the definitions that use it: \<open>url_ops\<close>
  (\<open>net/url\<close>), \<open>bolt_ops\<close> (bbolt), \<open>cert_ops\<close> (crypto and x509), \<open>conn_ops\<close> (connections), \<open>num_parsers\<close>
  (\<open>strconv\<close>, \<open>time.ParseDuration\<close>), \<open>status_ops\<close> (grpc's \<open>status\<close>), SHA-1, JSON encoding, the clock, random numbers and zap. What a
  theorem needs of them is a hypothesis, and its witness instantiates them.

  \<^bold>\<open>Not modelled.\<close> The grpc, http and cmux servers themselves (what is attached to them is); the
  generated grpc stubs and the messages that nothing in the program encodes; metrics, systemd, the help
  text and log formatting; interfaces and structs without operations (\<open>mvcc\<close> beyond the backend, the
  v2 store's nodes and watchers). Code that is commented out in the source is not part of the
  program, so the loops around \<open>Ready\<close> and \<open>apply\<close> in \<open>etcdserver\<close> appear with the few live statements
  they have.
\<close>

end
